(* ===== verification/Prelude.thy ===== *)
theory Prelude
  imports Main "HOL-Library.Word" "HOL-Library.Sublist" "HOL-Library.Code_Target_Numeral"
begin

text \<open>
  Shared ground of the development: the machine integers, errors, clock values and
  byte strings of Go that the components use, the decimal conversions of package
  \<open>strconv\<close>, and the lemma collections the component proofs draw on.

  A Go \<open>uint\<close> is a 64-bit word; a Go \<open>int\<close> (and \<open>int64\<close>, \<open>time.Duration\<close>) is
  an integer kept in the 64-bit range by \<open>wrap64\<close> wherever the code computes with it;
  a Go string is the list of its bytes.  An error value is a \<open>go_error\<close>, a fallible
  call returns \<open>go_error + 'a\<close>.
\<close>

section \<open>Lemma collections\<close>

named_theorems go_defs \<open>definitions unfolded in component proofs\<close>
named_theorems go_consts \<open>constants of the program, unfolded to evaluate\<close>
named_theorems step_simps \<open>how one step of a component changes its state\<close>
named_theorems inv_intros \<open>each operation keeps the invariant of its component\<close>

section \<open>Integers\<close>

type_synonym uint = "64 word"
type_synonym duration = int
type_synonym go_time = int

definition wrap64 :: "int \<Rightarrow> int" where
  "wrap64 x = (x + 2 ^ 63) mod 2 ^ 64 - 2 ^ 63"

definition imul64 :: "int \<Rightarrow> int \<Rightarrow> int" where
  "imul64 a b = wrap64 (a * b)"

definition iadd64 :: "int \<Rightarrow> int \<Rightarrow> int" where
  "iadd64 a b = wrap64 (a + b)"

definition isub64 :: "int \<Rightarrow> int \<Rightarrow> int" where
  "isub64 a b = wrap64 (a - b)"

definition in_int64 :: "int \<Rightarrow> bool" where
  "in_int64 x \<longleftrightarrow> - (2 ^ 63) \<le> x \<and> x < 2 ^ 63"

lemma wrap64_in_range: "in_int64 (wrap64 x)"
  by (simp add: wrap64_def in_int64_def)

lemma wrap64_id [simp]: "in_int64 x \<Longrightarrow> wrap64 x = x"
  by (simp add: wrap64_def in_int64_def)

lemma in_int64_small: "0 \<le> p \<Longrightarrow> p \<le> 4611686018427387904 \<Longrightarrow> in_int64 p"
  by (simp add: in_int64_def)

lemma imul64_exact: "in_int64 (a * b) \<Longrightarrow> imul64 a b = a * b"
  by (simp add: imul64_def)

section \<open>Clock values\<close>

text \<open>
  A \<open>time.Time\<close> is the number of nanoseconds since Go's zero time; a duration is a
  signed 64-bit number of nanoseconds.  \<open>time.Time.Sub\<close> saturates at the ends of the
  duration range.
\<close>

definition nanosecond :: duration where "nanosecond = 1"
definition millisecond :: duration where "millisecond = 1000000"
definition second :: duration where "second = 1000000000"
definition minute :: duration where "minute = 60000000000"
definition hour :: duration where "hour = 3600000000000"

lemmas duration_consts [go_consts] =
  nanosecond_def millisecond_def second_def minute_def hour_def

definition zero_time :: go_time where "zero_time = 0"

definition time_Sub :: "go_time \<Rightarrow> go_time \<Rightarrow> duration" where
  "time_Sub t u = max (- (2 ^ 63)) (min (2 ^ 63 - 1) (t - u))"

lemma time_Sub_exact: "in_int64 (t - u) \<Longrightarrow> time_Sub t u = t - u"
  by (simp add: time_Sub_def in_int64_def)

lemma time_Sub_ge_iff:
  "- (2 ^ 63) \<le> d \<Longrightarrow> d < 2 ^ 63 \<Longrightarrow> d \<le> time_Sub t u \<longleftrightarrow> d \<le> t - u \<or> d = - (2 ^ 63)"
  by (auto simp: time_Sub_def)

lemma time_Sub_less_iff:
  "- (2 ^ 63) < d \<Longrightarrow> d < 2 ^ 63 \<Longrightarrow> time_Sub t u < d \<longleftrightarrow> t - u < d"
  by (auto simp: time_Sub_def)

section \<open>Errors\<close>

text \<open>
  \<open>Sentinel\<close> is an error variable made by \<open>errors.New\<close> and compared by identity (the
  program's sentinels have pairwise different messages); \<open>Errorf\<close> a formatted error;
  \<open>Wrap\<close> is \<open>errors.Wrap\<close>; \<open>ErrorfW\<close> is \<open>fmt.Errorf\<close> with a \<open>%w\<close> verb, given its
  finished message and the wrapped error.  \<open>RuntimePanic\<close> is no error value of the code: it
  marks a branch in which the Go run time stops the process.
\<close>

datatype go_error =
    Sentinel string
  | Errorf string
  | Wrap go_error string
  | ErrorfW string go_error
  | RuntimePanic string

type_synonym 'a result = "go_error + 'a"

fun Error :: "go_error \<Rightarrow> string" where
  "Error (Sentinel m) = m"
| "Error (Errorf m) = m"
| "Error (Wrap e m) = m @ '': '' @ Error e"
| "Error (ErrorfW m e) = m"
| "Error (RuntimePanic m) = ''panic: '' @ m"

fun errors_Is :: "go_error \<Rightarrow> go_error \<Rightarrow> bool" where
  "errors_Is (Wrap e m) t \<longleftrightarrow> Wrap e m = t \<or> errors_Is e t"
| "errors_Is (ErrorfW m e) t \<longleftrightarrow> ErrorfW m e = t \<or> errors_Is e t"
| "errors_Is e t \<longleftrightarrow> e = t"

lemma errors_Is_refl [simp]: "errors_Is e e"
  by (cases e) simp_all

definition is_err :: "'a result \<Rightarrow> bool" where
  "is_err r \<longleftrightarrow> (case r of Inl _ \<Rightarrow> True | Inr _ \<Rightarrow> False)"

lemma is_err_simps [simp]: "is_err (Inl e)" "\<not> is_err (Inr x)"
  by (simp_all add: is_err_def)

section \<open>Byte strings\<close>

definition byte :: "nat \<Rightarrow> char" where
  "byte n = char_of n"

abbreviation (input) NL :: char where "NL \<equiv> CHR 0x0A"
abbreviation (input) TAB :: char where "TAB \<equiv> CHR 0x09"

definition HasPrefix :: "string \<Rightarrow> string \<Rightarrow> bool" where
  "HasPrefix s p = prefix p s"

definition HasSuffix :: "string \<Rightarrow> string \<Rightarrow> bool" where
  "HasSuffix s p = suffix p s"

fun Contains :: "string \<Rightarrow> string \<Rightarrow> bool" where
  "Contains [] p = (p = [])"
| "Contains (c # s) p = (prefix p (c # s) \<or> Contains s p)"

lemma Contains_iff: "Contains s p \<longleftrightarrow> (\<exists>u v. s = u @ p @ v)"
proof (induction s)
  case Nil
  then show ?case by auto
next
  case (Cons c s)
  have "(\<exists>u v. c # s = u @ p @ v) \<longleftrightarrow> prefix p (c # s) \<or> (\<exists>u v. s = u @ p @ v)"
    by (auto simp: prefix_def Cons_eq_append_conv)
  with Cons show ?case by simp
qed

fun Split :: "string \<Rightarrow> char \<Rightarrow> string list" where
  "Split [] d = [[]]"
| "Split (c # s) d =
     (if c = d then [] # Split s d
      else (case Split s d of [] \<Rightarrow> [[c]] | w # ws \<Rightarrow> (c # w) # ws))"

fun Join :: "string list \<Rightarrow> string \<Rightarrow> string" where
  "Join [] sep = []"
| "Join [w] sep = w"
| "Join (w # v # ws) sep = w @ sep @ Join (v # ws) sep"

lemma Split_nonempty [simp]: "Split s d \<noteq> []"
  by (induction s) (auto split: list.splits)

lemma Join_Split: "Join (Split s d) [d] = s"
proof (induction s)
  case Nil
  then show ?case by simp
next
  case (Cons c s)
  obtain w ws where "Split s d = w # ws"
    by (metis Split_nonempty neq_Nil_conv)
  with Cons show ?case by (cases ws) auto
qed

lemma Split_no_sep: "w \<in> set (Split s d) \<Longrightarrow> d \<notin> set w"
  by (induction s arbitrary: w) (auto split: if_splits list.splits)

lemma Split_no_occ: "d \<notin> set w \<Longrightarrow> Split w d = [w]"
  by (induction w) auto

lemma Split_append_sep: "Split (u @ d # v) d = Split u d @ Split v d"
proof (induction u)
  case Nil
  then show ?case by simp
next
  case (Cons c u)
  obtain w ws where "Split u d = w # ws"
    by (metis Split_nonempty neq_Nil_conv)
  with Cons show ?case by auto
qed

lemma Split_Join: "ws \<noteq> [] \<Longrightarrow> (\<And>w. w \<in> set ws \<Longrightarrow> d \<notin> set w) \<Longrightarrow> Split (Join ws [d]) d = ws"
proof (induction ws rule: induct_list012)
  case (3 w v ws)
  have "Split (Join (w # v # ws) [d]) d = Split w d @ Split (Join (v # ws) [d]) d"
    by (simp add: Split_append_sep)
  also have "\<dots> = w # v # ws"
    using 3 by (simp add: Split_no_occ)
  finally show ?case .
qed (auto simp: Split_no_occ)

text \<open>\<open>strings.ToLower\<close> on ASCII text, the only text the program lowers.\<close>

definition lower_char :: "char \<Rightarrow> char" where
  "lower_char c =
     (let n = (of_char c :: nat) in if 65 \<le> n \<and> n \<le> 90 then char_of (n + 32) else c)"

definition ToLower :: "string \<Rightarrow> string" where
  "ToLower s = map lower_char s"

section \<open>Decimal conversions\<close>

definition digit_char :: "nat \<Rightarrow> char" where
  "digit_char d = char_of (48 + d)"

definition is_digit :: "char \<Rightarrow> bool" where
  "is_digit c = (let n = (of_char c :: nat) in 48 \<le> n \<and> n \<le> 57)"

definition digit_val :: "char \<Rightarrow> nat" where
  "digit_val c = (of_char c :: nat) - 48"

fun string_of_nat :: "nat \<Rightarrow> string" where
  "string_of_nat n =
     (if n < 10 then [digit_char n] else string_of_nat (n div 10) @ [digit_char (n mod 10)])"

declare string_of_nat.simps [simp del]

definition Itoa :: "int \<Rightarrow> string" where
  "Itoa i = (if i < 0 then CHR ''-'' # string_of_nat (nat (- i)) else string_of_nat (nat i))"

definition Utoa :: "uint \<Rightarrow> string" where
  "Utoa u = string_of_nat (unat u)"

definition digits_val :: "string \<Rightarrow> nat" where
  "digits_val s = foldl (\<lambda>v c. 10 * v + digit_val c) 0 s"

definition all_digits :: "string \<Rightarrow> bool" where
  "all_digits s \<longleftrightarrow> s \<noteq> [] \<and> list_all is_digit s"

text \<open>\<open>strconv.ParseUint(s, 10, 64)\<close> and \<open>strconv.ParseInt(s, 10, 64)\<close>; \<open>strconv.Atoi\<close> on a
  64-bit platform is the latter with its own name in the error.\<close>

definition num_error :: "string \<Rightarrow> string \<Rightarrow> string \<Rightarrow> go_error" where
  "num_error fn s why = Errorf (''strconv.'' @ fn @ '': parsing \"'' @ s @ ''\": '' @ why)"

definition ParseUint10 :: "string \<Rightarrow> nat result" where
  "ParseUint10 s =
     (if \<not> all_digits s then Inl (num_error ''ParseUint'' s ''invalid syntax'')
      else if digits_val s \<ge> 2 ^ 64 then Inl (num_error ''ParseUint'' s ''value out of range'')
      else Inr (digits_val s))"

definition parse_signed :: "string \<Rightarrow> string \<Rightarrow> int result" where
  "parse_signed fn s =
     (let neg = (s \<noteq> [] \<and> hd s = CHR ''-'');
          d = (if s \<noteq> [] \<and> (hd s = CHR ''-'' \<or> hd s = CHR ''+'') then tl s else s)
      in if \<not> all_digits d then Inl (num_error fn s ''invalid syntax'')
         else let v = (if neg then - int (digits_val d) else int (digits_val d))
              in if in_int64 v then Inr v else Inl (num_error fn s ''value out of range''))"

definition ParseInt10 :: "string \<Rightarrow> int result" where
  "ParseInt10 s = parse_signed ''ParseInt'' s"

definition Atoi :: "string \<Rightarrow> int result" where
  "Atoi s = parse_signed ''Atoi'' s"

subsection \<open>Round trip of the decimal conversions\<close>

lemma of_char_digit_char [simp]: "d < 10 \<Longrightarrow> of_char (digit_char d) = (48 + d :: nat)"
  by (simp add: digit_char_def)

lemma is_digit_digit_char [simp]: "d < 10 \<Longrightarrow> is_digit (digit_char d)"
  by (simp add: is_digit_def Let_def)

lemma digit_val_digit_char [simp]: "d < 10 \<Longrightarrow> digit_val (digit_char d) = d"
  by (simp add: digit_val_def)

lemma digits_val_snoc [simp]: "digits_val (s @ [c]) = 10 * digits_val s + digit_val c"
  by (simp add: digits_val_def)

lemma string_of_nat_digits: "list_all is_digit (string_of_nat n) \<and> string_of_nat n \<noteq> []"
  by (induction n rule: string_of_nat.induct) (subst (1 2) string_of_nat.simps, simp)

lemma all_digits_string_of_nat [simp]: "all_digits (string_of_nat n)"
  using string_of_nat_digits [of n] by (simp add: all_digits_def)

lemma digits_val_string_of_nat [simp]: "digits_val (string_of_nat n) = n"
proof (induction n rule: string_of_nat.induct)
  case (1 n)
  show ?case
  proof (cases "n < 10")
    case True
    then show ?thesis by (subst string_of_nat.simps) (simp add: digits_val_def)
  next
    case False
    with 1 show ?thesis by (subst string_of_nat.simps) simp
  qed
qed

lemma string_of_nat_inject [simp]: "string_of_nat m = string_of_nat n \<longleftrightarrow> m = n"
  by (metis digits_val_string_of_nat)

lemma digit_not_sign: "is_digit c \<Longrightarrow> c \<noteq> CHR ''-'' \<and> c \<noteq> CHR ''+''"
  by (auto simp: is_digit_def)

lemma hd_string_of_nat: "hd (string_of_nat n) \<noteq> CHR ''-'' \<and> hd (string_of_nat n) \<noteq> CHR ''+''"
  using string_of_nat_digits [of n] digit_not_sign
  by (cases "string_of_nat n") auto

lemma string_of_nat_nonempty [simp]: "string_of_nat n \<noteq> []"
  using string_of_nat_digits by blast

lemma parse_signed_string_of_nat:
  "parse_signed fn (string_of_nat n) =
     (if in_int64 (int n) then Inr (int n)
      else Inl (num_error fn (string_of_nat n) ''value out of range''))"
  by (simp add: parse_signed_def Let_def hd_string_of_nat)

lemma Atoi_Itoa [simp]: "in_int64 i \<Longrightarrow> Atoi (Itoa i) = Inr i"
  by (auto simp: Atoi_def Itoa_def parse_signed_string_of_nat) (simp add: parse_signed_def Let_def)

lemma Utoa_inject [simp]: "Utoa a = Utoa b \<longleftrightarrow> a = b"
  by (simp add: Utoa_def word_unat_eq_iff)

lemma Itoa_inject [simp]: "Itoa i = Itoa j \<longleftrightarrow> i = j"
proof
  assume eq: "Itoa i = Itoa j"
  have hd: "hd (Itoa k) = CHR ''-'' \<longleftrightarrow> k < 0" for k using hd_string_of_nat [of "nat k"] by (auto simp: Itoa_def)
  then have "i < 0 \<longleftrightarrow> j < 0" using eq by metis
  then show "i = j" using eq by (auto simp: Itoa_def split: if_splits)
qed simp

lemma Itoa_chars: "c \<in> set (Itoa i) \<Longrightarrow> is_digit c \<or> c = CHR ''-''"
  using string_of_nat_digits [of "nat i"] string_of_nat_digits [of "nat (- i)"]
  by (auto simp: Itoa_def list_all_iff split: if_splits)

lemma Itoa_nonempty [simp]: "Itoa i \<noteq> []"
  by (simp add: Itoa_def)

end
