(* ===== verification/Filesystem.thy ===== *)
theory Filesystem
  imports Prelude
begin

text \<open>
  The parts of packages \<open>path/filepath\<close>, \<open>os\<close> and \<open>io/ioutil\<close> the extension uses.
  Path functions work on the path text alone; file operations work on a record that holds
  the contents of the files and the faults the operating system answers with.
\<close>

section \<open>Paths\<close>

definition is_rooted :: "string \<Rightarrow> bool" where
  "is_rooted p \<longleftrightarrow> p \<noteq> [] \<and> hd p = CHR ''/''"

definition clean_step :: "bool \<Rightarrow> string list \<Rightarrow> string \<Rightarrow> string list" where
  "clean_step rooted out c =
     (if c = [] \<or> c = ''.'' then out
      else if c = ''..'' then
        (if out \<noteq> [] \<and> last out \<noteq> ''..'' then butlast out
         else if rooted then out else out @ [c])
      else out @ [c])"

definition clean_parts :: "string \<Rightarrow> string list" where
  "clean_parts p = foldl (clean_step (is_rooted p)) [] (Split p (CHR ''/''))"

text \<open>\<open>filepath.Clean\<close>.\<close>

definition Clean :: "string \<Rightarrow> string" where
  "Clean p =
     (let r = (if is_rooted p then ''/'' else []) @ Join (clean_parts p) ''/''
      in if r = [] then ''.'' else r)"

text \<open>\<open>filepath.Join\<close>: empty elements are skipped, the rest joined and cleaned.\<close>

definition path_Join :: "string list \<Rightarrow> string" where
  "path_Join es =
     (let ne = dropWhile (\<lambda>e. e = []) es in if ne = [] then [] else Clean (Join ne ''/''))"

definition after_last_slash :: "string \<Rightarrow> string" where
  "after_last_slash p = last (Split p (CHR ''/''))"

definition upto_last_slash :: "string \<Rightarrow> string" where
  "upto_last_slash p = take (length p - length (after_last_slash p)) p"

text \<open>\<open>filepath.Dir\<close> and \<open>filepath.Base\<close>.\<close>

definition path_Dir :: "string \<Rightarrow> string" where
  "path_Dir p = Clean (upto_last_slash p)"

definition strip_slashes :: "string \<Rightarrow> string" where
  "strip_slashes p = rev (dropWhile (\<lambda>c. c = CHR ''/'') (rev p))"

definition path_Base :: "string \<Rightarrow> string" where
  "path_Base p =
     (if p = [] then ''.''
      else let b = after_last_slash (strip_slashes p) in if b = [] then ''/'' else b)"

lemma path_Base_no_slash: "CHR ''/'' \<in> set (path_Base p) \<Longrightarrow> path_Base p = ''/''"
  using Split_no_sep [OF last_in_set [OF Split_nonempty], of "CHR ''/''" "strip_slashes p"]
  by (auto simp: path_Base_def after_last_slash_def Let_def split: if_splits)

subsection \<open>The last element of a joined path\<close>

definition plain_name :: "string \<Rightarrow> bool" where
  "plain_name f \<longleftrightarrow> f \<noteq> [] \<and> f \<noteq> ''.'' \<and> f \<noteq> ''..'' \<and> CHR ''/'' \<notin> set f"

lemma set_clean_step: "set (clean_step r out c0) \<subseteq> insert c0 (set out)"
  by (auto simp: clean_step_def dest: in_set_butlastD)

lemma set_foldl_clean: "set (foldl (clean_step r) out cs) \<subseteq> set out \<union> set cs"
proof (induction cs arbitrary: out)
  case (Cons c cs)
  then show ?case using set_clean_step [of r out c] by fastforce
qed simp

lemma clean_parts_no_slash: "c \<in> set (clean_parts p) \<Longrightarrow> CHR ''/'' \<notin> set c"
  using set_foldl_clean [of "is_rooted p" "[]"] Split_no_sep
  by (fastforce simp: clean_parts_def)

lemma Join_snoc_nonempty: "f \<noteq> [] \<Longrightarrow> Join (cs @ [f]) sep \<noteq> []"
  by (induction cs rule: induct_list012) auto

lemma after_last_slash_Clean:
  assumes "clean_parts p = cs @ [f]" "f \<noteq> []"
  shows "after_last_slash (Clean p) = f"
proof -
  have "Split (Join (cs @ [f]) ''/'') (CHR ''/'') = cs @ [f]"
    by (rule Split_Join) (use clean_parts_no_slash [of _ p] assms in auto)
  then show ?thesis
    using assms Join_snoc_nonempty [OF assms(2), of cs "''/''"]
    by (simp add: Clean_def after_last_slash_def Let_def)
qed

lemma clean_step_plain: "plain_name f \<Longrightarrow> clean_step r out f = out @ [f]"
  by (simp add: clean_step_def plain_name_def)

lemma clean_parts_file:
  "plain_name f \<Longrightarrow> \<exists>cs. clean_parts (d @ ''/'' @ f) = cs @ [f]"
  "plain_name f \<Longrightarrow> \<exists>cs. clean_parts f = cs @ [f]"
  by (auto simp: clean_parts_def Split_append_sep Split_no_occ plain_name_def clean_step_plain)

lemma after_last_slash_path_Join [simp]:
  assumes "plain_name f"
  shows "after_last_slash (path_Join [d, f]) = f"
  using assms clean_parts_file [OF assms] after_last_slash_Clean
  by (fastforce simp: path_Join_def plain_name_def)

lemma path_Join_inject:
  "plain_name f \<Longrightarrow> plain_name g \<Longrightarrow> path_Join [d, f] = path_Join [d, g] \<longleftrightarrow> f = g"
  by (metis after_last_slash_path_Join)

section \<open>Files\<close>

text \<open>
  A read or write may fail for a reason of the operating system: the fault functions give
  the text of that error for a path.  A failed write may have left part of the data.
\<close>

record fs =
  files :: "string \<rightharpoonup> string"
  read_fault :: "string \<Rightarrow> string option"
  create_fault :: "string \<Rightarrow> string option"
  write_fault :: "string \<Rightarrow> (string \<times> string) option"
  rename_fault :: "string \<Rightarrow> string option"
  temp_dir :: string

datatype io_error = NotExist string | IOError string

fun io_go_error :: "io_error \<Rightarrow> go_error" where
  "io_go_error (NotExist p) = Errorf (''open '' @ p @ '': no such file or directory'')"
| "io_go_error (IOError m) = Errorf m"

definition ReadFile :: "fs \<Rightarrow> string \<Rightarrow> io_error + string" where
  "ReadFile w p =
     (case read_fault w p of
        Some m \<Rightarrow> Inl (IOError m)
      | None \<Rightarrow> (case files w p of None \<Rightarrow> Inl (NotExist p) | Some c \<Rightarrow> Inr c))"

definition put_file :: "string \<Rightarrow> string \<Rightarrow> fs \<Rightarrow> fs" where
  "put_file p c w = w\<lparr>files := (files w)(p \<mapsto> c)\<rparr>"

definition del_file :: "string \<Rightarrow> fs \<Rightarrow> fs" where
  "del_file p w = w\<lparr>files := (files w)(p := None)\<rparr>"

definition WriteFile :: "string \<Rightarrow> string \<Rightarrow> fs \<Rightarrow> go_error option \<times> fs" where
  "WriteFile p c w =
     (case write_fault w p of
        Some (m, part) \<Rightarrow> (Some (Errorf m), put_file p part w)
      | None \<Rightarrow> (None, put_file p c w))"

text \<open>\<open>os.Rename\<close> replaces the destination in one step.\<close>

definition Rename :: "string \<Rightarrow> string \<Rightarrow> fs \<Rightarrow> go_error option \<times> fs" where
  "Rename old new w =
     (case rename_fault w new of
        Some m \<Rightarrow> (Some (Errorf m), w)
      | None \<Rightarrow>
          (case files w old of
             None \<Rightarrow> (Some (Errorf (''rename '' @ old @ '' '' @ new @ '': no such file or directory'')), w)
           | Some c \<Rightarrow> (None, put_file new c (del_file old w))))"

text \<open>
  \<open>ioutil.TempFile(dir, pattern)\<close>: tries random suffixes (the list gives the random numbers
  the run draws) until a name does not exist, then creates the empty file.
\<close>

definition temp_prefix :: "fs \<Rightarrow> string \<Rightarrow> string \<Rightarrow> string" where
  "temp_prefix w dir pat =
     (let d = (if dir = [] then temp_dir w else dir)
      in if d \<noteq> [] \<and> last d = CHR ''/'' then d @ pat else d @ ''/'' @ pat)"

fun first_free :: "fs \<Rightarrow> string \<Rightarrow> string list \<Rightarrow> string option" where
  "first_free w pre [] = None"
| "first_free w pre (r # rs) =
     (if files w (pre @ r) = None then Some (pre @ r) else first_free w pre rs)"

definition TempFile :: "string \<Rightarrow> string \<Rightarrow> string list \<Rightarrow> fs \<Rightarrow> string result \<times> fs" where
  "TempFile dir pat rnds w =
     (case create_fault w dir of
        Some m \<Rightarrow> (Inl (Errorf m), w)
      | None \<Rightarrow>
          (case first_free w (temp_prefix w dir pat) rnds of
             None \<Rightarrow> (Inl (Errorf (''createtemp '' @ temp_prefix w dir pat @ ''*: file exists'')), w)
           | Some p \<Rightarrow> (Inr p, put_file p [] w)))"

lemma files_put_file [simp]: "files (put_file p c w) q = (if q = p then Some c else files w q)"
  by (simp add: put_file_def)

lemma files_del_file [simp]: "files (del_file p w) q = (if q = p then None else files w q)"
  by (simp add: del_file_def)

lemma put_file_faults [simp]:
  "read_fault (put_file p c w) = read_fault w" "create_fault (put_file p c w) = create_fault w"
  "write_fault (put_file p c w) = write_fault w" "rename_fault (put_file p c w) = rename_fault w"
  "temp_dir (put_file p c w) = temp_dir w"
  by (simp_all add: put_file_def)

lemma del_file_faults [simp]:
  "read_fault (del_file p w) = read_fault w" "write_fault (del_file p w) = write_fault w"
  "rename_fault (del_file p w) = rename_fault w"
  by (simp_all add: del_file_def)

lemma first_free_fresh: "first_free w pre rs = Some p \<Longrightarrow> files w p = None \<and> prefix pre p"
  by (induction rs) (auto split: if_splits)

lemma TempFile_cases:
  assumes "TempFile dir pat rnds w = (r, w')"
  obtains (err) e where "r = Inl e" "w' = w"
    | (ok) p where "r = Inr p" "w' = put_file p [] w" "files w p = None"
        "prefix (temp_prefix w dir pat) p" "create_fault w dir = None"
  using assms
  by (auto simp: TempFile_def dest: first_free_fresh split: option.splits)

lemma ReadFile_after_write:
  "WriteFile p c w = (None, w') \<Longrightarrow> read_fault w p = None \<Longrightarrow> ReadFile w' p = Inr c"
  by (auto simp: WriteFile_def ReadFile_def split: option.splits)

lemma ReadFile_other:
  "WriteFile p c w = (r, w') \<Longrightarrow> q \<noteq> p \<Longrightarrow> ReadFile w' q = ReadFile w q"
  by (auto simp: WriteFile_def ReadFile_def split: option.splits)

text \<open>A file system without faults, to run the components on.\<close>

definition plain_fs :: "(string \<times> string) list \<Rightarrow> fs" where
  "plain_fs fl = \<lparr>files = map_of fl, read_fault = (\<lambda>_. None), create_fault = (\<lambda>_. None),
     write_fault = (\<lambda>_. None), rename_fault = (\<lambda>_. None), temp_dir = ''/tmp''\<rparr>"

end
