(* ===== verification/Json.thy ===== *)
theory Json
  imports Prelude
begin

text \<open>
  The part of package \<open>encoding/json\<close> the extension uses: reading a document (with the
  scanner's grammar, its nesting limit, and the unquoting of strings), the conversions into
  strings and generic values, and \<open>Marshal\<close>/\<open>MarshalIndent\<close> with Go's escaping of strings.
  Strings are UTF-8 byte lists.
\<close>

section \<open>UTF-8\<close>

abbreviation (input) bval :: "char \<Rightarrow> nat" where "bval c \<equiv> of_char c"

definition is_cont :: "char \<Rightarrow> bool" where
  "is_cont c \<longleftrightarrow> 128 \<le> bval c \<and> bval c \<le> 191"

definition cont_range :: "nat \<Rightarrow> nat \<Rightarrow> char \<Rightarrow> bool" where
  "cont_range lo hi c \<longleftrightarrow> lo \<le> bval c \<and> bval c \<le> hi"

text \<open>The well-formed sequences of one to four bytes, and the length of the one at the head of
  a byte string (0 if there is none).\<close>

definition utf8_1 :: "char \<Rightarrow> bool" where
  "utf8_1 a \<longleftrightarrow> bval a < 128"

definition utf8_2 :: "char \<Rightarrow> char \<Rightarrow> bool" where
  "utf8_2 a b \<longleftrightarrow> 194 \<le> bval a \<and> bval a \<le> 223 \<and> is_cont b"

definition utf8_3 :: "char \<Rightarrow> char \<Rightarrow> char \<Rightarrow> bool" where
  "utf8_3 a b c \<longleftrightarrow>
     224 \<le> bval a \<and> bval a \<le> 239 \<and> is_cont c \<and>
     (if bval a = 224 then cont_range 160 191 b
      else if bval a = 237 then cont_range 128 159 b else is_cont b)"

definition utf8_4 :: "char \<Rightarrow> char \<Rightarrow> char \<Rightarrow> char \<Rightarrow> bool" where
  "utf8_4 a b c d \<longleftrightarrow>
     240 \<le> bval a \<and> bval a \<le> 244 \<and> is_cont c \<and> is_cont d \<and>
     (if bval a = 240 then cont_range 144 191 b
      else if bval a = 244 then cont_range 128 143 b else is_cont b)"

definition utf8_len :: "string \<Rightarrow> nat" where
  "utf8_len s =
     (if s \<noteq> [] \<and> utf8_1 (s ! 0) then 1
      else if 2 \<le> length s \<and> utf8_2 (s ! 0) (s ! 1) then 2
      else if 3 \<le> length s \<and> utf8_3 (s ! 0) (s ! 1) (s ! 2) then 3
      else if 4 \<le> length s \<and> utf8_4 (s ! 0) (s ! 1) (s ! 2) (s ! 3) then 4
      else 0)"

definition replacement :: string where
  "replacement = [CHR 0xEF, CHR 0xBF, CHR 0xBD]"

text \<open>Encoding of a code point.\<close>

definition utf8_encode :: "nat \<Rightarrow> string" where
  "utf8_encode r =
     (if r < 128 then [char_of r]
      else if r < 2048 then [char_of (192 + r div 64), char_of (128 + r mod 64)]
      else if 55296 \<le> r \<and> r \<le> 57343 \<or> 1114111 < r then replacement
      else if r < 65536 then
        [char_of (224 + r div 4096), char_of (128 + r div 64 mod 64), char_of (128 + r mod 64)]
      else
        [char_of (240 + r div 262144), char_of (128 + r div 4096 mod 64),
         char_of (128 + r div 64 mod 64), char_of (128 + r mod 64)])"

section \<open>Values\<close>

text \<open>A number is kept as the literal of the document, an object as its members in order.\<close>

datatype json =
    JNull
  | JBool bool
  | JNum string
  | JStr string
  | JArr "json list"
  | JObj "(string \<times> json) list"

section \<open>Reading\<close>

definition is_ws :: "char \<Rightarrow> bool" where
  "is_ws c \<longleftrightarrow> c = CHR '' '' \<or> c = CHR 0x09 \<or> c = CHR 0x0A \<or> c = CHR 0x0D"

definition skip_ws :: "string \<Rightarrow> string" where
  "skip_ws s = dropWhile is_ws s"

lemma length_skip_ws [simp]: "length (skip_ws s) \<le> length s"
  by (simp add: skip_ws_def length_dropWhile_le)

definition is_hex :: "char \<Rightarrow> bool" where
  "is_hex c \<longleftrightarrow> is_digit c \<or> (97 \<le> bval c \<and> bval c \<le> 102) \<or> (65 \<le> bval c \<and> bval c \<le> 70)"

definition hex_val :: "char \<Rightarrow> nat" where
  "hex_val c =
     (if is_digit c then digit_val c
      else if 97 \<le> bval c then bval c - 87 else bval c - 55)"

definition u4 :: "char \<Rightarrow> char \<Rightarrow> char \<Rightarrow> char \<Rightarrow> nat" where
  "u4 a b c d = ((hex_val a * 16 + hex_val b) * 16 + hex_val c) * 16 + hex_val d"

definition simple_escape :: "char \<Rightarrow> char option" where
  "simple_escape c =
     (if c = CHR 0x22 \<or> c = CHR 0x5C \<or> c = CHR ''/'' then Some c
      else if c = CHR ''b'' then Some (CHR 0x08)
      else if c = CHR ''f'' then Some (CHR 0x0C)
      else if c = CHR ''n'' then Some (CHR 0x0A)
      else if c = CHR ''r'' then Some (CHR 0x0D)
      else if c = CHR ''t'' then Some (CHR 0x09)
      else None)"

text \<open>The scanner on the inside of a string literal: the raw text up to the closing quote and
  what follows it.\<close>

definition cons_raw :: "string \<Rightarrow> (string \<times> string) option \<Rightarrow> (string \<times> string) option" where
  "cons_raw p r = map_option (\<lambda>(raw, rest). (p @ raw, rest)) r"

fun scan_str :: "string \<Rightarrow> (string \<times> string) option" where
  "scan_str [] = None"
| "scan_str (a # s) =
     (if a = CHR 0x22 then Some ([], s)
      else if a = CHR 0x5C then
        (case s of
           [] \<Rightarrow> None
         | e # s' \<Rightarrow>
             if simple_escape e \<noteq> None then cons_raw [a, e] (scan_str s')
             else if e = CHR ''u'' then
               (case s' of
                  h1 # h2 # h3 # h4 # s'' \<Rightarrow>
                    if is_hex h1 \<and> is_hex h2 \<and> is_hex h3 \<and> is_hex h4
                    then cons_raw [a, e, h1, h2, h3, h4] (scan_str s'') else None
                | _ \<Rightarrow> None)
             else None)
      else if bval a < 32 then None
      else cons_raw [a] (scan_str s))"

text \<open>\<open>unquote\<close> of a scanned literal: escapes are resolved (a surrogate pair to its code point, a
  lone surrogate to U+FFFD), bytes that are no UTF-8 become U+FFFD.\<close>

definition is_high :: "nat \<Rightarrow> bool" where "is_high r \<longleftrightarrow> 55296 \<le> r \<and> r < 56320"
definition is_low :: "nat \<Rightarrow> bool" where "is_low r \<longleftrightarrow> 56320 \<le> r \<and> r < 57344"

fun get_u4 :: "string \<Rightarrow> (nat \<times> string) option" where
  "get_u4 (a # u # h1 # h2 # h3 # h4 # s) =
     (if a = CHR 0x5C \<and> u = CHR ''u'' \<and> is_hex h1 \<and> is_hex h2 \<and> is_hex h3 \<and> is_hex h4
      then Some (u4 h1 h2 h3 h4, s) else None)"
| "get_u4 _ = None"

lemma get_u4_length: "get_u4 s = Some (r, s') \<Longrightarrow> length s' < length s"
  by (induction s rule: get_u4.induct) (auto split: if_splits)

function unquote :: "string \<Rightarrow> string" where
  "unquote s =
     (case s of
        [] \<Rightarrow> []
      | a # r \<Rightarrow>
          if a = CHR 0x5C then
            (case get_u4 s of
               Some (c, s') \<Rightarrow>
                 (case (if is_high c then get_u4 s' else None) of
                    Some (c2, s'') \<Rightarrow>
                      if is_low c2
                      then utf8_encode (65536 + (c - 55296) * 1024 + (c2 - 56320)) @ unquote s''
                      else replacement @ unquote s'
                  | None \<Rightarrow> utf8_encode c @ unquote s')
             | None \<Rightarrow>
                 (case r of
                    [] \<Rightarrow> []
                  | e # r' \<Rightarrow> (case simple_escape e of Some x \<Rightarrow> [x] | None \<Rightarrow> []) @ unquote r'))
          else if utf8_len s = 0 then replacement @ unquote r
          else take (utf8_len s) s @ unquote (drop (utf8_len s) s))"
  by pat_completeness auto
termination
  by (relation "measure length") (auto dest!: get_u4_length split: if_splits)

declare unquote.simps [simp del]

text \<open>Number literals.\<close>

definition span_digits :: "string \<Rightarrow> string \<times> string" where
  "span_digits s = (takeWhile is_digit s, dropWhile is_digit s)"

definition scan_int :: "string \<Rightarrow> (string \<times> string) option" where
  "scan_int s =
     (case s of
        [] \<Rightarrow> None
      | c # r \<Rightarrow> if c = CHR ''0'' then Some ([c], r)
                 else if is_digit c then Some (span_digits s) else None)"

definition scan_frac :: "string \<Rightarrow> (string \<times> string) option" where
  "scan_frac s =
     (case s of
        c # r \<Rightarrow>
          if c = CHR ''.'' then
            (let (d, r') = span_digits r in if d = [] then None else Some (c # d, r'))
          else Some ([], s)
      | [] \<Rightarrow> Some ([], s))"

definition scan_exp :: "string \<Rightarrow> (string \<times> string) option" where
  "scan_exp s =
     (case s of
        c # r \<Rightarrow>
          if c = CHR ''e'' \<or> c = CHR ''E'' then
            (let (sg, r1) = (case r of
                 x # r' \<Rightarrow> if x = CHR ''+'' \<or> x = CHR ''-'' then ([x], r') else ([], r)
               | [] \<Rightarrow> ([], r));
                 (d, r2) = span_digits r1
             in if d = [] then None else Some (c # sg @ d, r2))
          else Some ([], s)
      | [] \<Rightarrow> Some ([], s))"

definition scan_num :: "string \<Rightarrow> (string \<times> string) option" where
  "scan_num s =
     (let (sg, s1) = (case s of x # r \<Rightarrow> if x = CHR ''-'' then ([x], r) else ([], s) | [] \<Rightarrow> ([], s))
      in case scan_int s1 of
           None \<Rightarrow> None
         | Some (i, s2) \<Rightarrow>
             (case scan_frac s2 of
                None \<Rightarrow> None
              | Some (f, s3) \<Rightarrow>
                  (case scan_exp s3 of None \<Rightarrow> None | Some (e, s4) \<Rightarrow> Some (sg @ i @ f @ e, s4))))"

definition expect :: "string \<Rightarrow> json \<Rightarrow> string \<Rightarrow> (json \<times> string) option" where
  "expect lit v s = (if prefix lit s then Some (v, drop (length lit) s) else None)"

definition parse_scalar :: "char \<Rightarrow> string \<Rightarrow> (json \<times> string) option" where
  "parse_scalar c r =
     (if c = CHR 0x22 then map_option (\<lambda>(raw, r'). (JStr (unquote raw), r')) (scan_str r)
      else if c = CHR ''t'' then expect ''true'' (JBool True) (c # r)
      else if c = CHR ''f'' then expect ''false'' (JBool False) (c # r)
      else if c = CHR ''n'' then expect ''null'' JNull (c # r)
      else map_option (\<lambda>(n, r'). (JNum n, r')) (scan_num (c # r)))"

text \<open>The next byte that is no white space.\<close>

definition tok :: "string \<Rightarrow> (char \<times> string) option" where
  "tok s = (case skip_ws s of [] \<Rightarrow> None | c # r \<Rightarrow> Some (c, r))"

lemma tok_length: "tok s = Some (c, r) \<Longrightarrow> length r < length s"
proof -
  assume "tok s = Some (c, r)"
  then have "skip_ws s = c # r" by (auto simp: tok_def split: list.splits)
  then show ?thesis using length_skip_ws [of s] by (metis Suc_le_eq length_Cons)
qed

text \<open>The key of an object member with its colon.\<close>

definition parse_key :: "string \<Rightarrow> (string \<times> string) option" where
  "parse_key s =
     (case tok s of
        None \<Rightarrow> None
      | Some (q, r) \<Rightarrow>
          if q \<noteq> CHR 0x22 then None
          else (case scan_str r of
                  None \<Rightarrow> None
                | Some (raw, r1) \<Rightarrow>
                    (case tok r1 of
                       None \<Rightarrow> None
                     | Some (c, r2) \<Rightarrow>
                         if c = CHR '':'' \<and> length r2 < length s then Some (unquote raw, r2) else None)))"

lemma parse_key_length: "parse_key s = Some (k, r) \<Longrightarrow> length r < length s"
  by (auto simp: parse_key_def split: option.splits if_splits)

text \<open>The recursive descent.  The first argument is the nesting still allowed; every loop
  continues on a strictly shorter rest, which the guards state.\<close>

function
  parse_value :: "nat \<Rightarrow> string \<Rightarrow> (json \<times> string) option" and
  parse_elems :: "nat \<Rightarrow> string \<Rightarrow> (json list \<times> string) option" and
  parse_members :: "nat \<Rightarrow> string \<Rightarrow> ((string \<times> json) list \<times> string) option"
where
  "parse_value d s =
     (case tok s of
        None \<Rightarrow> None
      | Some (c, r) \<Rightarrow>
          if c = CHR ''['' then
            (if d = 0 then None
             else (case tok r of
                     None \<Rightarrow> None
                   | Some (x, r') \<Rightarrow>
                       if x = CHR '']'' then Some (JArr [], r')
                       else map_option (apfst JArr) (parse_elems (d - 1) r)))
          else if c = CHR ''{'' then
            (if d = 0 then None
             else (case tok r of
                     None \<Rightarrow> None
                   | Some (x, r') \<Rightarrow>
                       if x = CHR ''}'' then Some (JObj [], r')
                       else map_option (apfst JObj) (parse_members (d - 1) r)))
          else parse_scalar c r)"
| "parse_elems d s =
     (case parse_value d s of
        None \<Rightarrow> None
      | Some (v, r) \<Rightarrow>
          (case tok r of
             None \<Rightarrow> None
           | Some (x, r') \<Rightarrow>
               if x = CHR '']'' then Some ([v], r')
               else if x = CHR '','' \<and> length r' < length s
               then map_option (apfst (Cons v)) (parse_elems d r')
               else None))"
| "parse_members d s =
     (case parse_key s of
        None \<Rightarrow> None
      | Some (k, r2) \<Rightarrow>
          (case parse_value d r2 of
             None \<Rightarrow> None
           | Some (v, r3) \<Rightarrow>
               (case tok r3 of
                  None \<Rightarrow> None
                | Some (x, r4) \<Rightarrow>
                    if x = CHR ''}'' then Some ([(k, v)], r4)
                    else if x = CHR '','' \<and> length r4 < length s
                    then map_option (apfst (Cons (k, v))) (parse_members d r4)
                    else None)))"
  by pat_completeness auto
termination
  by (relation "measures
    [\<lambda>x. case x of Inl (d, s) \<Rightarrow> length s | Inr (Inl (d, s)) \<Rightarrow> length s | Inr (Inr (d, s)) \<Rightarrow> length s,
     \<lambda>x. case x of Inl _ \<Rightarrow> 0 | Inr _ \<Rightarrow> 1]")
    (auto dest: tok_length parse_key_length)

declare parse_value.simps [simp del] parse_elems.simps [simp del] parse_members.simps [simp del]

definition maxNestingDepth :: nat where "maxNestingDepth = 10000"

text \<open>A whole document.\<close>

definition parse_json :: "string \<Rightarrow> json option" where
  "parse_json s =
     (case parse_value maxNestingDepth s of
        Some (v, r) \<Rightarrow> if skip_ws r = [] then Some v else None
      | None \<Rightarrow> None)"

section \<open>Conversions\<close>

text \<open>Field names match exactly or after folding case; the folding maps the two non-ASCII
  letters that fold to ASCII (U+017F and U+212A).\<close>

fun foldName :: "string \<Rightarrow> string" where
  "foldName [] = []"
| "foldName (a # s) =
     (if 97 \<le> bval a \<and> bval a \<le> 122 then char_of (bval a - 32) # foldName s
      else if prefix [CHR 0xC5, CHR 0xBF] (a # s) then CHR ''S'' # foldName (tl s)
      else if prefix [CHR 0xE2, CHR 0x84, CHR 0xAA] (a # s) then CHR ''K'' # foldName (tl (tl s))
      else a # foldName s)"

text \<open>\<open>strconv.ParseFloat\<close> reports a range error exactly when the value rounds to infinity.\<close>

definition float_limit :: nat where "float_limit = 2 ^ 1024 - 2 ^ 970"

lemma float_limit_numeral [code]:
  "float_limit =
179769313486231580793728971405303415079934132710037826936173778980444968292764750946649017977587207096330286416692887910946555547851940402630657488671505820681908902000708383676273854845817711531764475730270069855571366959622842914819860834936475292719074168444365510704342711559699508093042880177904174497792"
  by (simp add: float_limit_def)

definition num_parts :: "string \<Rightarrow> nat \<times> int" where
  "num_parts n =
     (let u = (case n of c # r \<Rightarrow> if c = CHR ''-'' then r else n | [] \<Rightarrow> []);
          i = takeWhile is_digit u; r1 = dropWhile is_digit u;
          f = (case r1 of c # r \<Rightarrow> if c = CHR ''.'' then takeWhile is_digit r else [] | [] \<Rightarrow> []);
          r2 = (case r1 of c # r \<Rightarrow> if c = CHR ''.'' then dropWhile is_digit r else r1 | [] \<Rightarrow> []);
          e = (case r2 of
                 c # r \<Rightarrow>
                   (case r of
                      x # r' \<Rightarrow> if x = CHR ''-'' then - int (digits_val r')
                                else if x = CHR ''+'' then int (digits_val r') else int (digits_val r)
                    | [] \<Rightarrow> 0)
               | [] \<Rightarrow> 0)
      in (digits_val (i @ f), e - int (length f)))"

definition float_overflows :: "string \<Rightarrow> bool" where
  "float_overflows n =
     (let (m, e) = num_parts n
      in if m = 0 then False
         else if e \<ge> 0 then m * 10 ^ nat e \<ge> float_limit else m \<ge> float_limit * 10 ^ nat (- e))"

text \<open>Decoding into a generic Go value fails exactly when some number has no \<open>float64\<close>.\<close>

fun interface_ok :: "json \<Rightarrow> bool" where
  "interface_ok (JNum n) = (\<not> float_overflows n)"
| "interface_ok (JArr vs) = list_all interface_ok vs"
| "interface_ok (JObj ms) = list_all (\<lambda>(k, v). interface_ok v) ms"
| "interface_ok _ = True"

section \<open>Writing\<close>

definition hex_digit :: "nat \<Rightarrow> char" where
  "hex_digit n = (if n < 10 then char_of (48 + n) else char_of (87 + n))"

definition escape_byte :: "char \<Rightarrow> string" where
  "escape_byte c =
     (if c = CHR 0x22 \<or> c = CHR 0x5C then [CHR 0x5C, c]
      else if c = CHR 0x08 then [CHR 0x5C, CHR ''b'']
      else if c = CHR 0x0C then [CHR 0x5C, CHR ''f'']
      else if c = CHR 0x0A then [CHR 0x5C, CHR ''n'']
      else if c = CHR 0x0D then [CHR 0x5C, CHR ''r'']
      else if c = CHR 0x09 then [CHR 0x5C, CHR ''t'']
      else if bval c < 32 \<or> c = CHR ''<'' \<or> c = CHR ''>'' \<or> c = CHR ''&'' then
        [CHR 0x5C, CHR ''u'', CHR ''0'', CHR ''0'', hex_digit (bval c div 16), hex_digit (bval c mod 16)]
      else [c])"

text \<open>\<open>appendString\<close> with HTML escaping, without the surrounding quotes.\<close>

function escape_str :: "string \<Rightarrow> string" where
  "escape_str s =
     (case s of
        [] \<Rightarrow> []
      | a # r \<Rightarrow>
          if utf8_len s = 0 then [CHR 0x5C] @ ''ufffd'' @ escape_str r
          else if utf8_len s = 1 then escape_byte a @ escape_str r
          else if prefix [CHR 0xE2, CHR 0x80, CHR 0xA8] s then [CHR 0x5C] @ ''u2028'' @ escape_str (drop 3 s)
          else if prefix [CHR 0xE2, CHR 0x80, CHR 0xA9] s then [CHR 0x5C] @ ''u2029'' @ escape_str (drop 3 s)
          else take (utf8_len s) s @ escape_str (drop (utf8_len s) s))"
  by pat_completeness auto
termination
  by (relation "measure length") (auto split: if_splits)

declare escape_str.simps [simp del]

definition quote_str :: "string \<Rightarrow> string" where
  "quote_str s = [CHR 0x22] @ escape_str s @ [CHR 0x22]"

definition indent :: "nat \<Rightarrow> string" where
  "indent n = CHR 0x0A # replicate n (CHR 0x09)"

text \<open>
  The layout is given by what is written at a line break of some depth and after a colon:
  nothing for \<open>json.Marshal\<close>, a newline with tabs and one blank for \<open>json.MarshalIndent\<close> with
  empty prefix and tab indent.
\<close>

fun write_json :: "(nat \<Rightarrow> string) \<Rightarrow> string \<Rightarrow> nat \<Rightarrow> json \<Rightarrow> string" where
  "write_json nl sp n JNull = ''null''"
| "write_json nl sp n (JBool b) = (if b then ''true'' else ''false'')"
| "write_json nl sp n (JNum m) = m"
| "write_json nl sp n (JStr s) = quote_str s"
| "write_json nl sp n (JArr vs) =
     (if vs = [] then ''[]''
      else ''['' @ nl (Suc n) @ Join (map (write_json nl sp (Suc n)) vs) ('','' @ nl (Suc n)) @ nl n @ '']'')"
| "write_json nl sp n (JObj ms) =
     (if ms = [] then ''{}''
      else ''{'' @ nl (Suc n)
           @ Join (map (\<lambda>(k, v). quote_str k @ '':'' @ sp @ write_json nl sp (Suc n) v) ms) ('','' @ nl (Suc n))
           @ nl n @ ''}'')"

definition marshal_json :: "json \<Rightarrow> string" where
  "marshal_json v = write_json (\<lambda>_. []) [] 0 v"

definition marshal_indent :: "nat \<Rightarrow> json \<Rightarrow> string" where
  "marshal_indent n v = write_json indent '' '' n v"

end
