(* ===== verification/Telemetry.thy ===== *)
theory Telemetry
  imports Filesystem Json
begin

text \<open>
  Package \<open>internal/telemetry\<close> and the part of the vendored \<open>extensionevents\<close> package it
  drives: a package-level instance created once, an event file for the guest agent with the
  current operation id, and a log line, unless the level of the log leaves it out.  The components of
  the extension return the events they emit, in order; \<open>SendEvents\<close> hands them to this package.
\<close>

type_synonym EventLevel = string
type_synonym EventTask = string

definition CriticalEvent :: EventLevel where "CriticalEvent = ''Critical''"
definition ErrorEvent :: EventLevel where "ErrorEvent = ''Error''"
definition WarningEvent :: EventLevel where "WarningEvent = ''Warning''"
definition VerboseEvent :: EventLevel where "VerboseEvent = ''Verbose''"
definition InfoEvent :: EventLevel where "InfoEvent = ''Informational''"

definition MainTask :: EventTask where "MainTask = ''Main''"
definition AppHealthTask :: EventTask where "AppHealthTask = ''AppHealth''"
definition AppHealthProbeTask :: EventTask where "AppHealthProbeTask = ''AppHealth-HealthProbe''"
definition ReportStatusTask :: EventTask where "ReportStatusTask = ''ReportStatus''"
definition ReportHeatBeatTask :: EventTask where "ReportHeatBeatTask = ''CheckHealthAndReportHeartBeat''"
definition StartVMWatchTask :: EventTask where "StartVMWatchTask = ''StartVMWatchIfApplicable''"
definition StopVMWatchTask :: EventTask where "StopVMWatchTask = ''OnExited''"
definition SetupVMWatchTask :: EventTask where "SetupVMWatchTask = ''SetupVMWatchProcess''"
definition KillVMWatchTask :: EventTask where "KillVMWatchTask = ''KillVMWatchIfApplicable''"

lemmas level_consts [go_consts] =
  CriticalEvent_def ErrorEvent_def WarningEvent_def VerboseEvent_def InfoEvent_def

text \<open>An event as the code sends it: level, task, message.\<close>

type_synonym event = "EventLevel \<times> EventTask \<times> string"

text \<open>What an event is made of besides: the extension's version, the time as text, the time in
  microseconds, which names the file, and the process and the thread.\<close>

record event_env =
  en_version :: string
  en_timestamp :: string
  en_micros :: int
  en_pid :: int
  en_tid :: string

record extensionEvent =
  ev_Version :: string
  ev_Timestamp :: string
  ev_TaskName :: string
  ev_EventLevel :: string
  ev_Message :: string
  ev_EventPid :: string
  ev_EventTid :: string
  ev_OperationID :: string

definition json_event :: "extensionEvent \<Rightarrow> json" where
  "json_event e =
     JObj [(''Version'', JStr (ev_Version e)), (''Timestamp'', JStr (ev_Timestamp e)), (''TaskName'', JStr (ev_TaskName e)),
           (''EventLevel'', JStr (ev_EventLevel e)), (''Message'', JStr (ev_Message e)), (''EventPid'', JStr (ev_EventPid e)),
           (''EventTid'', JStr (ev_EventTid e)), (''OperationId'', JStr (ev_OperationID e))]"

datatype log_level = LogDebug | LogInfo | LogWarn | LogError

record event_manager =
  eventsFolder :: string
  operationID :: string

record telemetry =
  t_instance :: "event_manager option"
  t_once :: bool
  t_files :: fs
  t_log :: "(log_level \<times> string) list"

definition init_telemetry :: "fs \<Rightarrow> telemetry" where
  "init_telemetry w = \<lparr>t_instance = None, t_once = False, t_files = w, t_log = []\<rparr>"

definition ErrUnableToInitialize :: go_error where
  "ErrUnableToInitialize = Sentinel ''unable to initialize telemetry''"

definition ErrTelemetryNotInit :: go_error where
  "ErrTelemetryNotInit = Sentinel ''telemetry not initialized''"

text \<open>The log functions of \<open>slog\<close>.  Neither the handler of the extension, which is built without a level, nor
  the default one is enabled below the level \<open>Info\<close>.\<close>

definition log_enabled :: "log_level \<Rightarrow> bool" where
  "log_enabled l \<longleftrightarrow> l \<noteq> LogDebug"

definition slog :: "log_level \<Rightarrow> string \<Rightarrow> telemetry \<Rightarrow> telemetry" where
  "slog l m t = (if log_enabled l then t\<lparr>t_log := t_log t @ [(l, m)]\<rparr> else t)"

text \<open>\<open>NewTelemetry\<close>: the arguments are the events folder of the handler environment and the
  fresh UUID; the value is the instance pointer.\<close>

definition NewTelemetry ::
  "string \<Rightarrow> string \<Rightarrow> telemetry \<Rightarrow> event_manager option result \<times> telemetry" where
  "NewTelemetry folder uuid t =
     (case t_instance t of
        Some i \<Rightarrow> (Inr (Some i), slog LogWarn ''Telemetry instance already initialized'' t)
      | None \<Rightarrow>
          if folder = [] then
            (Inl (ErrorfW ''events folder is not set: unable to initialize telemetry'' ErrUnableToInitialize), t)
          else
            let t' = (if t_once t then t
                      else t\<lparr>t_instance := Some \<lparr>eventsFolder = folder, operationID = uuid\<rparr>, t_once := True\<rparr>)
            in (Inr (t_instance t'), t'))"

definition GetTelemetry :: "telemetry \<Rightarrow> event_manager result" where
  "GetTelemetry t = (case t_instance t of None \<Rightarrow> Inl ErrTelemetryNotInit | Some i \<Rightarrow> Inr i)"

text \<open>\<open>getEventDispatcherFunc\<close> picks the level string of the event manager's function,
  \<open>getLogDispatcherFunc\<close> the level of the log function.\<close>

definition getEventDispatcherFunc :: "EventLevel \<Rightarrow> string option" where
  "getEventDispatcherFunc level =
     (if level = InfoEvent then Some ''Informational''
      else if level = VerboseEvent then Some ''Verbose''
      else if level = WarningEvent then Some ''Warning''
      else if level = ErrorEvent then Some ''Error''
      else if level = CriticalEvent then Some ''Critical''
      else None)"

definition getLogDispatcherFunc :: "EventLevel \<Rightarrow> log_level option" where
  "getLogDispatcherFunc level =
     (if level = InfoEvent then Some LogInfo
      else if level = VerboseEvent then Some LogDebug
      else if level = WarningEvent then Some LogWarn
      else if level = ErrorEvent then Some LogError
      else if level = CriticalEvent then Some LogError
      else None)"

text \<open>\<open>ExtensionEventManager.logEvent\<close>: nothing is written without an events folder; a failed write is left
  to a logger that discards everything; a file of the same name is overwritten.\<close>

definition event_path :: "event_manager \<Rightarrow> event_env \<Rightarrow> string" where
  "event_path eem en = path_Join [eventsFolder eem, Itoa (en_micros en)] @ ''.json''"

definition event_text :: "event_manager \<Rightarrow> event_env \<Rightarrow> string \<Rightarrow> string \<Rightarrow> string \<Rightarrow> string" where
  "event_text eem en task level message =
     marshal_json (json_event \<lparr>ev_Version = en_version en, ev_Timestamp = en_timestamp en, ev_TaskName = task,
       ev_EventLevel = level, ev_Message = message, ev_EventPid = Itoa (en_pid en), ev_EventTid = en_tid en,
       ev_OperationID = operationID eem\<rparr>)"

definition logEvent :: "event_manager \<Rightarrow> event_env \<Rightarrow> string \<Rightarrow> string \<Rightarrow> string \<Rightarrow> telemetry \<Rightarrow> telemetry" where
  "logEvent eem en task level message t =
     (if eventsFolder eem = [] then t
      else (case WriteFile (event_path eem en) (event_text eem en task level message) (t_files t) of
              (e, w) \<Rightarrow> t\<lparr>t_files := w\<rparr>))"

definition Telemetry_SendEvent ::
  "event_manager \<Rightarrow> event_env \<Rightarrow> EventLevel \<Rightarrow> EventTask \<Rightarrow> string \<Rightarrow> telemetry \<Rightarrow> telemetry" where
  "Telemetry_SendEvent eem en level task message t =
     (case getEventDispatcherFunc level of
        Some lv \<Rightarrow>
          let t' = (case getLogDispatcherFunc level of Some l \<Rightarrow> slog l message t | None \<Rightarrow> t)
          in logEvent eem en task lv message t'
      | None \<Rightarrow> slog LogError ''Invalid event level'' t)"

definition SendEvent :: "event_env \<Rightarrow> EventLevel \<Rightarrow> EventTask \<Rightarrow> string \<Rightarrow> telemetry \<Rightarrow> telemetry" where
  "SendEvent en level task message t =
     (case t_instance t of None \<Rightarrow> t | Some eem \<Rightarrow> Telemetry_SendEvent eem en level task message t)"

definition SetOperationID :: "event_env \<Rightarrow> string \<Rightarrow> telemetry \<Rightarrow> telemetry" where
  "SetOperationID en opid t =
     (case t_instance t of
        None \<Rightarrow> t
      | Some eem \<Rightarrow>
          (Telemetry_SendEvent eem en InfoEvent MainTask (''Overriding OperationId with '' @ opid) t)
            \<lparr>t_instance := Some (eem\<lparr>operationID := opid\<rparr>)\<rparr>)"

fun SendEvents :: "(event_env \<times> event) list \<Rightarrow> telemetry \<Rightarrow> telemetry" where
  "SendEvents [] t = t"
| "SendEvents ((en, level, task, message) # es) t = SendEvents es (SendEvent en level task message t)"

definition known_level :: "EventLevel \<Rightarrow> bool" where
  "known_level l \<longleftrightarrow>
     l = InfoEvent \<or> l = VerboseEvent \<or> l = WarningEvent \<or> l = ErrorEvent \<or> l = CriticalEvent"

definition telemetry_inv :: "telemetry \<Rightarrow> bool" where
  "telemetry_inv t \<longleftrightarrow>
     (t_once t \<longleftrightarrow> t_instance t \<noteq> None) \<and>
     (\<forall>i. t_instance t = Some i \<longrightarrow> eventsFolder i \<noteq> [])"

lemma known_levels [simp]:
  "known_level InfoEvent" "known_level VerboseEvent" "known_level WarningEvent"
  "known_level ErrorEvent" "known_level CriticalEvent"
  by (simp_all add: known_level_def)

lemma getEventDispatcherFunc_eq:
  "getEventDispatcherFunc l = (if known_level l then Some l else None)"
  by (auto simp: getEventDispatcherFunc_def known_level_def go_consts)

lemma getLogDispatcherFunc_None_iff: "getLogDispatcherFunc l = None \<longleftrightarrow> \<not> known_level l"
  by (auto simp: getLogDispatcherFunc_def known_level_def)

lemma getLogDispatcherFunc_Verbose:
  "known_level l \<Longrightarrow> \<exists>g. getLogDispatcherFunc l = Some g \<and> (log_enabled g \<longleftrightarrow> l \<noteq> ''Verbose'')"
  by (auto simp: getLogDispatcherFunc_def known_level_def log_enabled_def go_consts)

lemma slog_simps [simp]:
  "t_instance (slog l m t) = t_instance t" "t_once (slog l m t) = t_once t" "t_files (slog l m t) = t_files t"
  "t_log (slog l m t) = t_log t @ (if log_enabled l then [(l, m)] else [])"
  by (simp_all add: slog_def)

lemma logEvent_simps [simp]:
  "t_instance (logEvent eem en k l m t) = t_instance t" "t_once (logEvent eem en k l m t) = t_once t"
  "t_log (logEvent eem en k l m t) = t_log t"
  by (simp_all add: logEvent_def split: prod.split)

lemma SendEvent_frame [simp]:
  "t_instance (SendEvent en l k m t) = t_instance t" "t_once (SendEvent en l k m t) = t_once t"
  by (simp_all add: SendEvent_def Telemetry_SendEvent_def Let_def split: option.split)

lemma SendEvent_effect:
  assumes "telemetry_inv t" "t_instance t = Some i" "known_level l"
  shows "t_log (SendEvent en l k m t) =
      t_log t @ (if l = ''Verbose'' then [] else [(the (getLogDispatcherFunc l), m)])"
    "t_files (SendEvent en l k m t) = snd (WriteFile (event_path i en) (event_text i en k l m) (t_files t))"
proof -
  obtain g where "getLogDispatcherFunc l = Some g" "log_enabled g \<longleftrightarrow> l \<noteq> ''Verbose''"
    using getLogDispatcherFunc_Verbose [OF assms(3)] by blast
  then show "t_log (SendEvent en l k m t) =
      t_log t @ (if l = ''Verbose'' then [] else [(the (getLogDispatcherFunc l), m)])"
    "t_files (SendEvent en l k m t) = snd (WriteFile (event_path i en) (event_text i en k l m) (t_files t))"
    using assms
    by (auto simp: SendEvent_def Telemetry_SendEvent_def Let_def logEvent_def telemetry_inv_def getEventDispatcherFunc_eq
        split: prod.split)
qed

lemma telemetry_inv_init: "telemetry_inv (init_telemetry w)"
  by (simp add: telemetry_inv_def init_telemetry_def)

lemma telemetry_inv_NewTelemetry [inv_intros]:
  "telemetry_inv t \<Longrightarrow> telemetry_inv (snd (NewTelemetry f u t))"
  by (auto simp: telemetry_inv_def NewTelemetry_def Let_def split: option.splits)

lemma telemetry_inv_SendEvent [inv_intros]:
  "telemetry_inv t \<Longrightarrow> telemetry_inv (SendEvent en l k m t)"
  by (simp add: telemetry_inv_def)

lemma telemetry_inv_SetOperationID [inv_intros]:
  "telemetry_inv t \<Longrightarrow> telemetry_inv (SetOperationID en u t)"
  by (auto simp: telemetry_inv_def SetOperationID_def Telemetry_SendEvent_def Let_def split: option.splits)

section \<open>The files of the events\<close>

lemma plain_Itoa: "plain_name (Itoa i)"
proof -
  have "CHR ''/'' \<notin> set (Itoa i)" "CHR ''.'' \<notin> set (Itoa i)" by (auto dest: Itoa_chars simp: is_digit_def)
  then show ?thesis unfolding plain_name_def by auto
qed

lemma event_path_inject [simp]: "event_path i a = event_path i b \<longleftrightarrow> en_micros a = en_micros b"
  by (simp add: event_path_def path_Join_inject plain_Itoa)

lemma WriteFile_files:
  "q \<noteq> p \<Longrightarrow> files (snd (WriteFile p c w)) q = files w q"
  "write_fault w p = None \<Longrightarrow> files (snd (WriteFile p c w)) p = Some c"
  "write_fault (snd (WriteFile p c w)) = write_fault w"
  by (simp_all add: WriteFile_def split: option.split prod.split)

lemma SendEvents_append: "SendEvents (as @ bs) t = SendEvents bs (SendEvents as t)"
  by (induction as t rule: SendEvents.induct) simp_all

lemma SendEvents_inv: "telemetry_inv t \<Longrightarrow> telemetry_inv (SendEvents es t)"
  "t_instance (SendEvents es t) = t_instance t"
  by (induction es t rule: SendEvents.induct) (auto intro: inv_intros)

lemma SendEvents_log:
  assumes "telemetry_inv t" "t_instance t = Some i" "\<forall>(en, l, k, m) \<in> set es. known_level l"
  shows "t_log (SendEvents es t) = t_log t @ map (\<lambda>(en, l, k, m). (the (getLogDispatcherFunc l), m)) (filter (\<lambda>(en, l, k, m). l \<noteq> ''Verbose'') es)"
  using assms
proof (induction es t rule: SendEvents.induct)
  case (2 en level task message es t)
  then show ?case
    using SendEvent_effect(1) [of t i level en task message] telemetry_inv_SendEvent [of t en level task message] by auto
qed simp

lemma SendEvents_other:
  assumes "telemetry_inv t" "t_instance t = Some i" "\<forall>(en, l, k, m) \<in> set es. known_level l"
  shows "write_fault (t_files (SendEvents es t)) = write_fault (t_files t) \<and>
    ((\<forall>(en, e) \<in> set es. event_path i en \<noteq> q) \<longrightarrow> files (t_files (SendEvents es t)) q = files (t_files t) q)"
  using assms
proof (induction es t rule: SendEvents.induct)
  case (2 en level task message es t)
  then show ?case
    using SendEvent_effect(2) [of t i level en task message] telemetry_inv_SendEvent [of t en level task message]
    by (auto simp: WriteFile_files)
qed simp

lemma log_level_of:
  "l \<in> {''Informational'', ''Verbose'', ''Warning'', ''Error'', ''Critical''} \<Longrightarrow> l \<noteq> ''Verbose'' \<Longrightarrow>
   the (getLogDispatcherFunc l) = (if l = ''Informational'' then LogInfo else if l = ''Warning'' then LogWarn else LogError)"
  by (elim insertE emptyE) (simp_all add: getLogDispatcherFunc_def go_consts)

section \<open>Properties\<close>


definition sample_event_env :: "int \<Rightarrow> event_env" where
  "sample_event_env n = \<lparr>en_version = ''2.1'', en_timestamp = ''t'', en_micros = n, en_pid = 7, en_tid = ''8''\<rparr>"


end
