(* ===== verification/Process.thy ===== *)
theory Process
  imports Filesystem Telemetry
begin

text \<open>
  Other instances of the extension (\<open>main/process.go\<close>): finding them in \<open>/proc\<close>, the write time of their
  log, and terminating them.  The operating system is a record of functions over a world of its
  own; every call may change the world.  An operation works on a \<open>run\<close>: the world, the files, the
  events sent and the signals and sleeps performed so far.
\<close>

section \<open>The operating system\<close>

record 'w os =
  os_readlink :: "string \<Rightarrow> 'w \<Rightarrow> string result \<times> 'w"
  os_readDir :: "string \<Rightarrow> 'w \<Rightarrow> (string \<times> bool) list result \<times> 'w"
  os_findProcess :: "int \<Rightarrow> 'w \<Rightarrow> go_error option \<times> 'w"
  os_signal :: "int \<Rightarrow> int \<Rightarrow> 'w \<Rightarrow> go_error option \<times> 'w"
  os_sleep :: "duration \<Rightarrow> 'w \<Rightarrow> 'w"
  os_mkdirAll :: "string \<Rightarrow> 'w \<Rightarrow> go_error option \<times> 'w"
  os_removeAll :: "string \<Rightarrow> 'w \<Rightarrow> go_error option \<times> 'w"
  os_getpid :: int

datatype action = ASignal int int | ASleep duration

record 'w run =
  r_world :: 'w
  r_fs :: fs
  r_events :: "event list"
  r_actions :: "action list"

definition emit :: "event list \<Rightarrow> 'w run \<Rightarrow> 'w run" where
  "emit evs r = r\<lparr>r_events := r_events r @ evs\<rparr>"

definition Sleep :: "'w os \<Rightarrow> duration \<Rightarrow> 'w run \<Rightarrow> 'w run" where
  "Sleep ops d r = r\<lparr>r_world := os_sleep ops d (r_world r), r_actions := r_actions r @ [ASleep d]\<rparr>"

definition Signal :: "'w os \<Rightarrow> int \<Rightarrow> int \<Rightarrow> 'w run \<Rightarrow> go_error option \<times> 'w run" where
  "Signal ops pid sg r =
     (case os_signal ops pid sg (r_world r) of
        (e, w) \<Rightarrow> (e, r\<lparr>r_world := w, r_actions := r_actions r @ [ASignal pid sg]\<rparr>))"

definition SIGTERM :: int where "SIGTERM = 15"
definition SIGKILL :: int where "SIGKILL = 9"

lemmas signal_consts [go_consts] = SIGTERM_def SIGKILL_def

lemma emit_simps [simp]:
  "r_world (emit evs r) = r_world r" "r_fs (emit evs r) = r_fs r"
  "r_actions (emit evs r) = r_actions r" "r_events (emit evs r) = r_events r @ evs"
  by (simp_all add: emit_def)

lemma Sleep_simps [simp]:
  "r_fs (Sleep ops d r) = r_fs r" "r_events (Sleep ops d r) = r_events r"
  "r_actions (Sleep ops d r) = r_actions r @ [ASleep d]"
  by (simp_all add: Sleep_def)

lemma Signal_simps:
  "Signal ops pid sg r = (e, r') \<Longrightarrow>
     r_fs r' = r_fs r \<and> r_events r' = r_events r \<and> r_actions r' = r_actions r @ [ASignal pid sg]"
  by (auto simp: Signal_def split: prod.splits)

definition app_event :: "EventLevel \<Rightarrow> string \<Rightarrow> event" where
  "app_event l m = (l, AppHealthTask, m)"

section \<open>Finding\<close>

definition AppHealthBinaryNameAmd64 :: string where
  "AppHealthBinaryNameAmd64 = ''applicationhealth-extension''"
definition AppHealthBinaryNameArm64 :: string where
  "AppHealthBinaryNameArm64 = ''applicationhealth-extension-arm64''"

definition procExePath :: "int \<Rightarrow> string" where
  "procExePath pid = path_Join [''/proc'', Itoa pid, ''exe'']"

definition isAHEProcess :: "'w os \<Rightarrow> int \<Rightarrow> 'w run \<Rightarrow> bool \<times> 'w run" where
  "isAHEProcess ops pid r =
     (case os_readlink ops (procExePath pid) (r_world r) of
        (Inl e, w) \<Rightarrow> (False, r\<lparr>r_world := w\<rparr>)
      | (Inr exePath, w) \<Rightarrow>
          (let procName = path_Base exePath
           in (procName = AppHealthBinaryNameAmd64 \<or> procName = AppHealthBinaryNameArm64, r\<lparr>r_world := w\<rparr>)))"

fun scan_entries :: "'w os \<Rightarrow> (string \<times> bool) list \<Rightarrow> int list \<Rightarrow> 'w run \<Rightarrow> int list \<times> 'w run" where
  "scan_entries ops [] pids r = (pids, r)"
| "scan_entries ops ((name, isDir) # es) pids r =
     (if \<not> isDir then scan_entries ops es pids r
      else (case Atoi name of
              Inl e \<Rightarrow> scan_entries ops es pids r
            | Inr pid \<Rightarrow>
                if pid = os_getpid ops then scan_entries ops es pids r
                else (case isAHEProcess ops pid r of
                        (True, r') \<Rightarrow> scan_entries ops es (pids @ [pid]) r'
                      | (False, r') \<Rightarrow> scan_entries ops es pids r')))"

definition findExistingProcesses :: "'w os \<Rightarrow> 'w run \<Rightarrow> int list result \<times> 'w run" where
  "findExistingProcesses ops r =
     (case os_readDir ops ''/proc'' (r_world r) of
        (Inl e, w) \<Rightarrow> (Inl (ErrorfW (''failed to read /proc: '' @ Error e) e), r\<lparr>r_world := w\<rparr>)
      | (Inr entries, w) \<Rightarrow>
          (case scan_entries ops entries [] (r\<lparr>r_world := w\<rparr>) of (pids, r') \<Rightarrow> (Inr pids, r')))"

section \<open>The log's last write time\<close>

text \<open>\<open>time.Unix(sec, 0)\<close>; Go counts seconds from the year 1, and the sum wraps in \<open>int64\<close>.\<close>

definition unixToInternal :: int where "unixToInternal = 62135596800"

definition time_Unix :: "int \<Rightarrow> go_time" where
  "time_Unix sec = iadd64 sec unixToInternal * second"

definition getLogFileLastWriteTimeFromEnv :: "string \<Rightarrow> go_time result" where
  "getLogFileLastWriteTimeFromEnv envTime =
     (if envTime = [] then Inl (Errorf ''HANDLER_LOG_LAST_WRITE_TIME not set, log file may not exist'')
      else (case ParseInt10 envTime of
              Inl e \<Rightarrow>
                Inl (ErrorfW (''failed to parse HANDLER_LOG_LAST_WRITE_TIME='' @ [CHR 0x22] @ envTime @ [CHR 0x22]
                      @ '': '' @ Error e) e)
            | Inr epochSec \<Rightarrow> Inr (time_Unix epochSec)))"

section \<open>Terminating\<close>

definition pid_event :: "EventLevel \<Rightarrow> string \<Rightarrow> int \<Rightarrow> string \<Rightarrow> event" where
  "pid_event l a pid b = app_event l (a @ Itoa pid @ b)"

text \<open>The wait after SIGTERM probes before it sleeps, the wait after SIGKILL sleeps before it probes;
  the result says whether the process is gone.\<close>

fun wait_term :: "'w os \<Rightarrow> int \<Rightarrow> nat \<Rightarrow> 'w run \<Rightarrow> bool \<times> 'w run" where
  "wait_term ops pid 0 r = (False, r)"
| "wait_term ops pid (Suc n) r =
     (case Signal ops pid 0 r of
        (Some e, r1) \<Rightarrow> (True, r1)
      | (None, r1) \<Rightarrow> wait_term ops pid n (Sleep ops (500 * millisecond) r1))"

fun wait_kill :: "'w os \<Rightarrow> int \<Rightarrow> nat \<Rightarrow> 'w run \<Rightarrow> bool \<times> 'w run" where
  "wait_kill ops pid 0 r = (False, r)"
| "wait_kill ops pid (Suc n) r =
     (case Signal ops pid 0 (Sleep ops (500 * millisecond) r) of
        (Some e, r1) \<Rightarrow> (True, r1)
      | (None, r1) \<Rightarrow> wait_kill ops pid n r1)"

definition killProcess :: "'w os \<Rightarrow> int \<Rightarrow> 'w run \<Rightarrow> go_error option \<times> 'w run" where
  "killProcess ops pid r0 =
     (case isAHEProcess ops pid r0 of
        (False, r) \<Rightarrow>
          (None, emit [pid_event WarningEvent ''PID '' pid '' is no longer an AHE process at kill time, skipping''] r)
      | (True, r) \<Rightarrow>
          (case os_findProcess ops pid (r_world r) of
             (Some e, w) \<Rightarrow>
               (Some (ErrorfW (''failed to find process '' @ Itoa pid @ '': '' @ Error e) e), r\<lparr>r_world := w\<rparr>)
           | (None, w) \<Rightarrow>
               (case Signal ops pid SIGTERM (r\<lparr>r_world := w\<rparr>) of
                  (Some e, r2) \<Rightarrow>
                    (Some (ErrorfW (''failed to send SIGTERM to process '' @ Itoa pid @ '': '' @ Error e) e), r2)
                | (None, r2) \<Rightarrow>
                    (case wait_term ops pid 10
                            (emit [pid_event InfoEvent ''Sent SIGTERM to existing AHE process with PID '' pid '', waiting for exit''] r2) of
                       (True, r3) \<Rightarrow>
                         (None, emit [pid_event InfoEvent ''Existing AHE process with PID '' pid '' has exited''] r3)
                     | (False, r3) \<Rightarrow>
                         (case Signal ops pid SIGKILL
                                 (emit [pid_event WarningEvent ''Existing AHE process with PID '' pid
                                          '' did not exit within 5 seconds after SIGTERM, sending SIGKILL''] r3) of
                            (Some e, r4) \<Rightarrow>
                              (Some (ErrorfW (''failed to send SIGKILL to process '' @ Itoa pid @ '': '' @ Error e) e), r4)
                          | (None, r4) \<Rightarrow>
                              (case wait_kill ops pid 4 r4 of
                                 (True, r5) \<Rightarrow>
                                   (None, emit [pid_event InfoEvent ''Existing AHE process with PID '' pid '' has exited after SIGKILL''] r5)
                               | (False, r5) \<Rightarrow>
                                   (Some (Errorf (''process '' @ Itoa pid @ '' did not exit after SIGKILL within 2 seconds'')), r5)))))))"

fun killProcesses :: "'w os \<Rightarrow> int list \<Rightarrow> 'w run \<Rightarrow> 'w run" where
  "killProcesses ops [] r = r"
| "killProcesses ops (pid # pids) r =
     (case killProcess ops pid r of
        (Some e, r') \<Rightarrow>
          killProcesses ops pids
            (emit [pid_event WarningEvent ''Failed to terminate existing process '' pid ('': '' @ Error e)] r')
      | (None, r') \<Rightarrow> killProcesses ops pids r')"

section \<open>What the operations do to a run\<close>

fun slept :: "action list \<Rightarrow> duration" where
  "slept [] = 0"
| "slept (ASleep d # as) = d + slept as"
| "slept (ASignal p s # as) = slept as"

fun signals :: "action list \<Rightarrow> (int \<times> int) list" where
  "signals [] = []"
| "signals (ASleep d # as) = signals as"
| "signals (ASignal p s # as) = (p, s) # signals as"

lemma slept_append [simp]: "slept (as @ bs) = slept as + slept bs"
  by (induction as rule: slept.induct) simp_all

lemma signals_append [simp]: "signals (as @ bs) = signals as @ signals bs"
  by (induction as rule: signals.induct) simp_all

lemma isAHEProcess_run:
  "isAHEProcess ops pid r = (b, r') \<Longrightarrow> r_fs r' = r_fs r \<and> r_events r' = r_events r \<and> r_actions r' = r_actions r"
  by (auto simp: isAHEProcess_def Let_def split: prod.splits sum.splits)

text \<open>Rounds of the two waits: probes with signal 0, half a second apart.\<close>

definition term_rounds :: "int \<Rightarrow> nat \<Rightarrow> action list" where
  "term_rounds pid k = concat (replicate k [ASignal pid 0, ASleep (500 * millisecond)])"

definition kill_rounds :: "int \<Rightarrow> nat \<Rightarrow> action list" where
  "kill_rounds pid k = concat (replicate k [ASleep (500 * millisecond), ASignal pid 0])"

lemma term_rounds_simps [simp]:
  "term_rounds pid 0 = []" "term_rounds pid (Suc k) = ASignal pid 0 # ASleep (500 * millisecond) # term_rounds pid k"
  by (simp_all add: term_rounds_def)

lemma term_rounds_slept [simp]: "slept (term_rounds pid k) = int k * (500 * millisecond)"
  by (induction k) (simp_all add: algebra_simps)

lemma term_rounds_signals: "fst ` set (signals (term_rounds pid k)) \<subseteq> {pid}"
  by (induction k) simp_all

lemma kill_rounds_simps [simp]:
  "kill_rounds pid 0 = []" "kill_rounds pid (Suc k) = ASleep (500 * millisecond) # ASignal pid 0 # kill_rounds pid k"
  by (simp_all add: kill_rounds_def)

lemma kill_rounds_slept [simp]: "slept (kill_rounds pid k) = int k * (500 * millisecond)"
  by (induction k) (simp_all add: algebra_simps)

lemma kill_rounds_signals: "fst ` set (signals (kill_rounds pid k)) \<subseteq> {pid}"
  by (induction k) simp_all

lemma wait_term_run:
  "wait_term ops pid n r = (b, r') \<Longrightarrow> r_fs r' = r_fs r \<and>
   (if b then \<exists>k<n. r_actions r' = r_actions r @ term_rounds pid k @ [ASignal pid 0]
    else r_actions r' = r_actions r @ term_rounds pid n)"
proof (induction n arbitrary: r)
  case (Suc n)
  obtain e r1 where 1: "Signal ops pid 0 r = (e, r1)" by force
  note f = Signal_simps [OF 1]
  show ?case
  proof (cases e)
    case None
    then have "wait_term ops pid n (Sleep ops (500 * millisecond) r1) = (b, r')" using Suc.prems 1 by simp
    note IH = Suc.IH [OF this]
    show ?thesis
    proof (cases b)
      case True
      then obtain k where "k < n" "r_actions r' = r_actions r1 @ [ASleep (500 * millisecond)] @ term_rounds pid k @ [ASignal pid 0]"
        using IH by auto
      then have "Suc k < Suc n \<and> r_actions r' = r_actions r @ term_rounds pid (Suc k) @ [ASignal pid 0]" using f by simp
      then show ?thesis using True IH f by auto
    next
      case False
      then show ?thesis using IH f by simp
    qed
  next
    case (Some x)
    then have "b" "r' = r1" using Suc.prems 1 by simp_all
    moreover have "r_actions r1 = r_actions r @ term_rounds pid 0 @ [ASignal pid 0]" using f by simp
    ultimately show ?thesis using f by auto
  qed
qed simp

lemma wait_kill_run:
  "wait_kill ops pid n r = (b, r') \<Longrightarrow> r_fs r' = r_fs r \<and>
   (if b then \<exists>k. 1 \<le> k \<and> k \<le> n \<and> r_actions r' = r_actions r @ kill_rounds pid k
    else r_actions r' = r_actions r @ kill_rounds pid n)"
proof (induction n arbitrary: r)
  case (Suc n)
  obtain e r1 where 1: "Signal ops pid 0 (Sleep ops (500 * millisecond) r) = (e, r1)" by force
  note f = Signal_simps [OF 1]
  show ?case
  proof (cases e)
    case None
    then have "wait_kill ops pid n r1 = (b, r')" using Suc.prems 1 by simp
    note IH = Suc.IH [OF this]
    show ?thesis
    proof (cases b)
      case True
      then obtain k where "k \<le> n" "r_actions r' = r_actions r1 @ kill_rounds pid k" using IH by auto
      then have "1 \<le> Suc k \<and> Suc k \<le> Suc n \<and> r_actions r' = r_actions r @ kill_rounds pid (Suc k)" using f by simp
      then show ?thesis using True IH f by (metis Sleep_simps(1))
    next
      case False
      then show ?thesis using IH f by simp
    qed
  next
    case (Some x)
    then have "b" "r' = r1" using Suc.prems 1 by simp_all
    moreover have "r_actions r1 = r_actions r @ kill_rounds pid (Suc 0)" using f by simp
    ultimately show ?thesis using f by (auto intro: exI [of _ "Suc 0"])
  qed
qed simp

text \<open>The course of one termination, by whether the process is the extension's and whether the call reports
  success.\<close>

definition kill_trace :: "int \<Rightarrow> bool \<Rightarrow> bool \<Rightarrow> action list \<Rightarrow> bool" where
  "kill_trace pid ahe ok as \<longleftrightarrow>
     \<not> ahe \<and> ok \<and> as = [] \<or>
     ahe \<and> \<not> ok \<and> as \<in> {[], [ASignal pid SIGTERM], ASignal pid SIGTERM # term_rounds pid 10 @ [ASignal pid SIGKILL],
       ASignal pid SIGTERM # term_rounds pid 10 @ ASignal pid SIGKILL # kill_rounds pid 4} \<or>
     ahe \<and> ok \<and> (\<exists>k<10. as = ASignal pid SIGTERM # term_rounds pid k @ [ASignal pid 0]) \<or>
     ahe \<and> ok \<and> (\<exists>k. 1 \<le> k \<and> k \<le> 4 \<and> as = ASignal pid SIGTERM # term_rounds pid 10 @ ASignal pid SIGKILL # kill_rounds pid k)"

lemma kill_trace_bounds:
  assumes "kill_trace pid ahe ok as"
  shows "fst ` set (signals as) \<subseteq> {pid}" "0 \<le> slept as" "slept as \<le> 7 * second"
proof -
  have m: "millisecond = 1000000" "second = 1000000000" by (simp_all add: millisecond_def second_def)
  show "fst ` set (signals as) \<subseteq> {pid}"
    using assms term_rounds_signals [of pid] kill_rounds_signals [of pid] unfolding kill_trace_def
    by (elim disjE conjE exE insertE emptyE) (simp_all add: image_Un)
  show "0 \<le> slept as" "slept as \<le> 7 * second"
    using assms unfolding kill_trace_def by (auto simp: m)
qed

lemma killProcess_run:
  assumes "killProcess ops pid r = (e, r')"
  shows "\<exists>as. r_actions r' = r_actions r @ as \<and> kill_trace pid (fst (isAHEProcess ops pid r)) (e = None) as \<and> r_fs r' = r_fs r"
proof -
  obtain b r1 where 1: "isAHEProcess ops pid r = (b, r1)" by force
  note f1 = isAHEProcess_run [OF 1]
  show ?thesis
  proof (cases b)
    case False
    with assms 1 f1 show ?thesis by (auto simp: killProcess_def kill_trace_def)
  next
    case True
    obtain fe w where fp: "os_findProcess ops pid (r_world r1) = (fe, w)" by force
    show ?thesis
    proof (cases fe)
      case (Some x)
      with assms 1 f1 fp True show ?thesis by (auto simp: killProcess_def kill_trace_def)
    next
      case None
      obtain te r2 where t: "Signal ops pid SIGTERM (r1\<lparr>r_world := w\<rparr>) = (te, r2)" by force
      note f2 = Signal_simps [OF t]
      let ?r2 = "emit [pid_event InfoEvent ''Sent SIGTERM to existing AHE process with PID '' pid '', waiting for exit''] r2"
      obtain g r3 where wt: "wait_term ops pid 10 ?r2 = (g, r3)" by force
      let ?r3 = "emit [pid_event WarningEvent ''Existing AHE process with PID '' pid
        '' did not exit within 5 seconds after SIGTERM, sending SIGKILL''] r3"
      obtain ke r4 where k: "Signal ops pid SIGKILL ?r3 = (ke, r4)" by force
      note f4 = Signal_simps [OF k]
      obtain h r5 where wk: "wait_kill ops pid 4 r4 = (h, r5)" by force
      note defs = killProcess_def 1 fp None t wt k wk
      have start: "r_actions r2 = r_actions r @ [ASignal pid SIGTERM]" "r_fs r2 = r_fs r" using f1 f2 by simp_all
      note w3 = wait_term_run [OF wt] and w5 = wait_kill_run [OF wk]
      consider x where "te = Some x" | "te = None" "g" | x where "te = None" "\<not> g" "ke = Some x"
        | "te = None" "\<not> g" "ke = None" "h" | "te = None" "\<not> g" "ke = None" "\<not> h"
        by (cases te; cases g; cases ke; cases h) auto
      then show ?thesis using assms True w3 w5 start f1 f4 by cases (auto simp: defs kill_trace_def)
    qed
  qed
qed

lemma killProcesses_run:
  "\<exists>as. r_actions (killProcesses ops pids r) = r_actions r @ as \<and> fst ` set (signals as) \<subseteq> set pids \<and>
     0 \<le> slept as \<and> slept as \<le> int (length pids) * (7 * second) \<and> r_fs (killProcesses ops pids r) = r_fs r"
proof (induction pids arbitrary: r)
  case (Cons pid pids)
  obtain e r1 where 1: "killProcess ops pid r = (e, r1)" by force
  obtain as where as: "r_actions r1 = r_actions r @ as" "kill_trace pid (fst (isAHEProcess ops pid r)) (e = None) as" "r_fs r1 = r_fs r"
    using killProcess_run [OF 1] by blast
  define r2 where "r2 = (case e of Some x \<Rightarrow> emit [pid_event WarningEvent ''Failed to terminate existing process '' pid ('': '' @ Error x)] r1
    | None \<Rightarrow> r1)"
  obtain bs where bs: "r_actions (killProcesses ops pids r2) = r_actions r2 @ bs" "fst ` set (signals bs) \<subseteq> set pids"
    "0 \<le> slept bs" "slept bs \<le> int (length pids) * (7 * second)" "r_fs (killProcesses ops pids r2) = r_fs r2"
    using Cons by blast
  have "killProcesses ops (pid # pids) r = killProcesses ops pids r2"
    by (simp add: 1 r2_def split: option.split)
  moreover have "r_actions r2 = r_actions r @ as" "r_fs r2 = r_fs r" using as by (auto simp: r2_def split: option.split)
  moreover have "fst ` set (signals as) \<subseteq> {pid}" "0 \<le> slept as" "slept as \<le> 7 * second"
    by (rule kill_trace_bounds [OF as(2)])+
  ultimately show ?case using bs by (intro exI [of _ "as @ bs"]) (auto simp: algebra_simps)
qed simp

lemma scan_entries_run:
  "scan_entries ops es pids r = (pids', r') \<Longrightarrow>
     set pids' \<subseteq> set pids \<union> {pid. pid \<noteq> os_getpid ops \<and> (\<exists>name. (name, True) \<in> set es \<and> Atoi name = Inr pid)} \<and>
     r_fs r' = r_fs r \<and> r_events r' = r_events r \<and> r_actions r' = r_actions r"
proof (induction es arbitrary: pids r)
  case (Cons x es)
  obtain name d where x: "x = (name, d)" by force
  show ?case
  proof (cases "d \<and> (\<exists>pid. Atoi name = Inr pid \<and> pid \<noteq> os_getpid ops)")
    case True
    then obtain pid where pid: "d" "Atoi name = Inr pid" "pid \<noteq> os_getpid ops" by blast
    obtain b r1 where 1: "isAHEProcess ops pid r = (b, r1)" by force
    have "scan_entries ops es (if b then pids @ [pid] else pids) r1 = (pids', r')"
      using Cons.prems pid x 1 by (simp split: bool.splits)
    from Cons.IH [OF this] isAHEProcess_run [OF 1] pid x show ?thesis by (auto split: if_splits)
  next
    case False
    then have "scan_entries ops es pids r = (pids', r')"
      using Cons.prems x by (auto split: if_splits sum.splits)
    from Cons.IH [OF this] show ?thesis by auto
  qed
qed auto

lemma findExistingProcesses_run:
  "findExistingProcesses ops r = (res, r') \<Longrightarrow>
     r_fs r' = r_fs r \<and> r_events r' = r_events r \<and> r_actions r' = r_actions r \<and>
     (\<forall>pids. res = Inr pids \<longrightarrow> os_getpid ops \<notin> set pids)"
  by (auto simp: findExistingProcesses_def dest!: scan_entries_run split: prod.splits sum.splits)

section \<open>A process table\<close>

text \<open>An operating system that keeps the live processes with their executables, obeys SIGTERM at
  once and never fails, to run the operations on.\<close>

type_synonym proc_table = "(int \<times> string) list"

definition table_os :: "int \<Rightarrow> proc_table os" where
  "table_os self =
     \<lparr>os_readlink = (\<lambda>p w. (case find (\<lambda>(pid, exe). procExePath pid = p) w of
                              Some (pid, exe) \<Rightarrow> Inr exe | None \<Rightarrow> Inl (Errorf ''no such file or directory''), w)),
      os_readDir = (\<lambda>p w. (Inr (map (\<lambda>(pid, exe). (Itoa pid, True)) w @ [(''meminfo'', False)]), w)),
      os_findProcess = (\<lambda>pid w. (None, w)),
      os_signal = (\<lambda>pid sg w. if pid \<in> fst ` set w then (None, if sg = 0 then w else filter (\<lambda>(p, exe). p \<noteq> pid) w)
                              else (Some (Errorf ''os: process already finished''), w)),
      os_sleep = (\<lambda>d w. w), os_mkdirAll = (\<lambda>p w. (None, w)), os_removeAll = (\<lambda>p w. (None, w)),
      os_getpid = self\<rparr>"

definition table_run :: "proc_table \<Rightarrow> proc_table run" where
  "table_run w = \<lparr>r_world = w, r_fs = plain_fs [], r_events = [], r_actions = []\<rparr>"

section \<open>Properties\<close>


definition two_instances :: proc_table where
  "two_instances = [(7, ''/bin/applicationhealth-extension''), (8, ''/usr/bin/other'')]"


end
