(* ===== verification/Seqno.thy ===== *)
theory Seqno
  imports Filesystem
begin

text \<open>
  Package \<open>internal/seqno\<close>: the sequence number manager, over the vendored
  \<open>azure-extension-platform/pkg/seqno\<close> it delegates to.  The most recent sequence number is
  kept as decimal text in the file \<open>mrseq\<close> beside the executable.  The locale
  \<open>seqno_manager\<close> states what the rest of the program relies on.
\<close>

section \<open>The mrseq file\<close>

definition ErrNotFound :: go_error where "ErrNotFound = Sentinel ''NotFound''"
definition ErrNoMrseqFile :: go_error where "ErrNoMrseqFile = Sentinel ''No mrseq file exist''"
definition ErrNoSettingsFiles :: go_error where "ErrNoSettingsFiles = Sentinel ''No .settings files exist''"
definition ErrInvalidSettingsFileName :: go_error where
  "ErrInvalidSettingsFileName = Sentinel ''Invalid .settings file name''"

text \<open>Where the process runs from: the directory of the executable, or the error of
  \<open>filepath.Abs\<close>.\<close>

type_synonym work_dir = "string result"

definition getMrseqFilePath :: "work_dir \<Rightarrow> string result" where
  "getMrseqFilePath cwd = (case cwd of Inl e \<Rightarrow> Inl e | Inr d \<Rightarrow> Inr (path_Join [d, ''mrseq'']))"

definition getSequenceNumberInternal :: "work_dir \<Rightarrow> fs \<Rightarrow> uint result" where
  "getSequenceNumberInternal cwd w =
     (case getMrseqFilePath cwd of
        Inl e \<Rightarrow> Inl e
      | Inr p \<Rightarrow>
          (case ReadFile w p of
             Inl (NotExist _) \<Rightarrow> Inl ErrNoMrseqFile
           | Inl (IOError m) \<Rightarrow> Inl (Errorf (''failed to read mrseq file : '' @ m))
           | Inr s \<Rightarrow> (case Atoi s of Inl e \<Rightarrow> Inl e | Inr i \<Rightarrow> Inr (word_of_int i))))"

definition setSequenceNumberInternal :: "work_dir \<Rightarrow> uint \<Rightarrow> fs \<Rightarrow> go_error option \<times> fs" where
  "setSequenceNumberInternal cwd seqNo w =
     (case getMrseqFilePath cwd of
        Inl e \<Rightarrow> (Some e, w)
      | Inr p \<Rightarrow>
          (case WriteFile p (Utoa seqNo) w of
             (Some e, w') \<Rightarrow>
               (Some (Errorf (''could not write sequence number file mrseq, error: '' @ Error e)), w')
           | (None, w') \<Rightarrow> (None, w')))"

text \<open>The write is not atomic: it opens the file, which truncates it, and then writes the number.  The files
  as they are in between, and as a process leaves them that ends there.\<close>

definition mrseq_opened :: "work_dir \<Rightarrow> fs \<Rightarrow> fs" where
  "mrseq_opened cwd w = (case getMrseqFilePath cwd of Inl e \<Rightarrow> w | Inr p \<Rightarrow> put_file p [] w)"

section \<open>The manager\<close>

definition GetSequenceNumber :: "work_dir \<Rightarrow> fs \<Rightarrow> uint result" where
  "GetSequenceNumber cwd w = getSequenceNumberInternal cwd w"

definition SetSequenceNumber :: "work_dir \<Rightarrow> uint \<Rightarrow> fs \<Rightarrow> go_error option \<times> fs" where
  "SetSequenceNumber cwd seqNo w = setSequenceNumberInternal cwd seqNo w"

definition GetCurrentSequenceNumber :: "work_dir \<Rightarrow> fs \<Rightarrow> uint result" where
  "GetCurrentSequenceNumber cwd w =
     (case GetSequenceNumber cwd w of
        Inl e \<Rightarrow> if e = ErrNotFound \<or> e = ErrNoMrseqFile then Inr 0 else Inl e
      | Inr n \<Rightarrow> Inr n)"

section \<open>The requested sequence number\<close>

record dir_entry =
  de_name :: string
  de_regular :: bool
  de_modTime :: go_time

text \<open>The scan of \<open>FindSeqNum\<close> over the directory: the latest modification time seen and the
  names of the settings files that carry it.\<close>

definition latest_step :: "go_time \<times> string list \<Rightarrow> dir_entry \<Rightarrow> go_time \<times> string list" where
  "latest_step acc fi =
     (let (modTime, names) = acc in
      if de_regular fi \<and> HasSuffix (de_name fi) ''.settings'' \<and> \<not> de_modTime fi < modTime
      then (if de_modTime fi > modTime then (de_modTime fi, [de_name fi])
            else (modTime, names @ [de_name fi]))
      else acc)"

text \<open>\<open>strings.Replace(f, ".settings", "", 1)\<close>: the first occurrence is removed.\<close>

fun remove_first :: "string \<Rightarrow> string \<Rightarrow> string" where
  "remove_first p [] = []"
| "remove_first p (c # s) = (if prefix p (c # s) then drop (length p) (c # s) else c # remove_first p s)"

definition seq_of_name :: "string \<Rightarrow> int result" where
  "seq_of_name f =
     (case Atoi (remove_first ''.settings'' f) of
        Inl _ \<Rightarrow> Inl ErrInvalidSettingsFileName | Inr i \<Rightarrow> Inr i)"

fun seqs_of_paths :: "string list \<Rightarrow> int list result" where
  "seqs_of_paths [] = Inr []"
| "seqs_of_paths (v # vs) =
     (case seq_of_name (path_Base v) of
        Inl e \<Rightarrow> Inl e
      | Inr i \<Rightarrow> (case seqs_of_paths vs of Inl e \<Rightarrow> Inl e | Inr is \<Rightarrow> Inr (i # is)))"

text \<open>\<open>FindSeqNum\<close>: the environment variable if it is an unsigned number; else the most recent
  settings file; among several equally recent ones, the highest number.  The list of numbers
  starts with one zero per globbed file, as the code's \<open>make([]int, len(g))\<close> does.  The
  arguments are the variable, the result of the glob and the directory listing.\<close>

definition FindSeqNum ::
  "string \<Rightarrow> string list result \<Rightarrow> dir_entry list result \<Rightarrow> uint result" where
  "FindSeqNum seqNoString glob listing =
     (case (if seqNoString = [] then Inl ErrNotFound else ParseUint10 seqNoString) of
        Inr n \<Rightarrow> Inr (of_nat n)
      | Inl _ \<Rightarrow>
          (case glob of
             Inl e \<Rightarrow> Inl e
           | Inr g \<Rightarrow>
               (case listing of
                  Inl e \<Rightarrow> Inl e
                | Inr fis \<Rightarrow>
                    (case snd (foldl latest_step (zero_time, []) fis) of
                       [] \<Rightarrow> Inl ErrNoSettingsFiles
                     | [n] \<Rightarrow> (case seq_of_name n of Inl e \<Rightarrow> Inl e | Inr i \<Rightarrow> Inr (word_of_int i))
                     | _ \<Rightarrow>
                         (case seqs_of_paths g of
                            Inl e \<Rightarrow> Inl e
                          | Inr is \<Rightarrow>
                              (case rev (sort (replicate (length g) 0 @ is)) of
                                 [] \<Rightarrow> Inl (RuntimePanic ''index out of range'')
                               | i # _ \<Rightarrow> Inr (word_of_int i)))))))"

text \<open>The manager's method, which passes a logger that writes nothing.\<close>

definition SeqNumManager_FindSeqNum ::
  "string \<Rightarrow> string list result \<Rightarrow> dir_entry list result \<Rightarrow> uint result" where
  [simp]: "SeqNumManager_FindSeqNum = FindSeqNum"

section \<open>The interface\<close>

text \<open>
  What the program relies on: a stored number that the manager can represent is the number
  read back, a store that has no file reads as zero, and a failed store changes no more than
  the manager's own file.
\<close>

locale seqno_manager =
  fixes get :: "'w \<Rightarrow> uint result"
    and store :: "uint \<Rightarrow> 'w \<Rightarrow> go_error option \<times> 'w"
    and representable :: "uint \<Rightarrow> bool"
    and readable :: "'w \<Rightarrow> bool"
    and fresh :: "'w \<Rightarrow> bool"
  assumes get_store:
      "readable w \<Longrightarrow> representable n \<Longrightarrow> store n w = (None, w') \<Longrightarrow> get w' = Inr n"
    and get_fresh: "readable w \<Longrightarrow> fresh w \<Longrightarrow> get w = Inr 0"
    and readable_store: "store n w = (r, w') \<Longrightarrow> readable w' \<longleftrightarrow> readable w"
    and representable_down: "representable n \<Longrightarrow> m \<le> n \<Longrightarrow> representable m"
begin

lemma newer_is_seen:
  assumes "readable w" "representable n" "store n w = (None, w')" "m < n"
  shows "\<exists>k. get w' = Inr k \<and> m < k"
  using get_store [OF assms(1-3)] assms(4) by blast

lemma store_twice:
  assumes "readable w" "representable n" "store m w = (None, w1)" "store n w1 = (None, w2)"
  shows "get w2 = Inr n"
  using assms get_store readable_store by blast

end

definition mrseq_readable :: "work_dir \<Rightarrow> fs \<Rightarrow> bool" where
  "mrseq_readable cwd w \<longleftrightarrow> (case getMrseqFilePath cwd of Inl _ \<Rightarrow> False | Inr p \<Rightarrow> read_fault w p = None)"

definition mrseq_absent :: "work_dir \<Rightarrow> fs \<Rightarrow> bool" where
  "mrseq_absent cwd w \<longleftrightarrow> (case getMrseqFilePath cwd of Inl _ \<Rightarrow> False | Inr p \<Rightarrow> files w p = None)"

definition mrseq_representable :: "uint \<Rightarrow> bool" where
  "mrseq_representable n \<longleftrightarrow> unat n < 2 ^ 63"

lemma Atoi_Utoa:
  "Atoi (Utoa n) =
     (if mrseq_representable n then Inr (uint n)
      else Inl (num_error ''Atoi'' (Utoa n) ''value out of range''))"
proof -
  have "unat n < 2 ^ 63 \<longleftrightarrow> uint n < 2 ^ 63"
    using of_nat_less_iff [where 'a = int, of "unat n" "2 ^ 63"]
    by (simp only: uint_nat of_nat_power of_nat_numeral)
  moreover have "- (2 ^ 63) \<le> uint n"
    by (rule order.trans [of _ 0]) simp_all
  ultimately show ?thesis
    by (simp add: Atoi_def Utoa_def parse_signed_string_of_nat in_int64_def mrseq_representable_def)
qed

lemma getSequenceNumberInternal_after_set:
  assumes "mrseq_readable cwd w" "setSequenceNumberInternal cwd n w = (None, w')"
  shows "getSequenceNumberInternal cwd w' =
    (if mrseq_representable n then Inr n
     else Inl (num_error ''Atoi'' (Utoa n) ''value out of range''))"
  using assms
  by (auto simp: getSequenceNumberInternal_def setSequenceNumberInternal_def mrseq_readable_def
      Atoi_Utoa ReadFile_after_write
      split: sum.splits option.splits prod.splits if_splits)

interpretation mrseq: seqno_manager "GetCurrentSequenceNumber cwd" "SetSequenceNumber cwd"
  mrseq_representable "mrseq_readable cwd" "mrseq_absent cwd" for cwd
proof (unfold_locales, goal_cases)
  case (1 w n w')
  then show ?case
    by (simp add: GetCurrentSequenceNumber_def GetSequenceNumber_def SetSequenceNumber_def
        getSequenceNumberInternal_after_set)
next
  case (2 w)
  then show ?case
    by (auto simp: GetCurrentSequenceNumber_def GetSequenceNumber_def getSequenceNumberInternal_def
        mrseq_readable_def mrseq_absent_def ReadFile_def split: sum.splits)
next
  case (3 n w r w')
  then show ?case
    by (auto simp: SetSequenceNumber_def setSequenceNumberInternal_def mrseq_readable_def WriteFile_def
        split: sum.splits option.splits)
next
  case (4 n m)
  then show ?case
    by (auto simp: mrseq_representable_def word_le_nat_alt)
qed

section \<open>Properties\<close>

definition is_settings :: "dir_entry \<Rightarrow> bool" where
  "is_settings fi \<longleftrightarrow> de_regular fi \<and> HasSuffix (de_name fi) ''.settings''"

definition latest_time :: "go_time \<Rightarrow> dir_entry list \<Rightarrow> go_time" where
  "latest_time t fis = fold max (map de_modTime (filter is_settings fis)) t"

lemma latest_time_Cons:
  "latest_time t (fi # fis) = latest_time (if is_settings fi then max (de_modTime fi) t else t) fis"
  by (simp add: latest_time_def)

lemma latest_time_ge: "t \<le> latest_time t fis"
  by (induction fis arbitrary: t) (auto simp: latest_time_Cons latest_time_def, metis max.boundedE)

lemma latest_step_settings:
  "latest_step (t, ns) fi =
     (if is_settings fi \<and> t \<le> de_modTime fi
      then (de_modTime fi, (if de_modTime fi = t then ns else []) @ [de_name fi]) else (t, ns))"
  by (auto simp: latest_step_def is_settings_def)

lemma latest_scan:
  "foldl latest_step (t, ns) fis =
     (latest_time t fis,
      (if latest_time t fis = t then ns else [])
      @ map de_name (filter (\<lambda>fi. is_settings fi \<and> de_modTime fi = latest_time t fis) fis))"
proof (induction fis arbitrary: t ns)
  case Nil
  then show ?case by (simp add: latest_time_def)
next
  case (Cons fi fis)
  show ?case
    using Cons latest_time_ge [of t fis] latest_time_ge [of "de_modTime fi" fis]
    by (auto simp: latest_step_settings latest_time_Cons max_def)
qed

text \<open>C29: A stored sequence number is the one read back, for every number an \<open>int\<close> can
  hold; a larger one is written but can no longer be read.\<close>

theorem mrseq_roundtrip:
  assumes "mrseq_readable cwd w" "SetSequenceNumber cwd n w = (None, w')"
  shows "GetCurrentSequenceNumber cwd w' =
    (if unat n < 2 ^ 63 then Inr n else Inl (num_error ''Atoi'' (Utoa n) ''value out of range''))"
  using assms getSequenceNumberInternal_after_set [of cwd w n w']
  by (simp add: GetCurrentSequenceNumber_def GetSequenceNumber_def SetSequenceNumber_def
      mrseq_representable_def num_error_def ErrNotFound_def ErrNoMrseqFile_def)

theorem mrseq_roundtrip_witness:
  "GetCurrentSequenceNumber (Inr ''/var/ahe'') (snd (SetSequenceNumber (Inr ''/var/ahe'') 7 (plain_fs []))) = Inr 7"
proof -
  let ?r = "SetSequenceNumber (Inr ''/var/ahe'') 7 (plain_fs [])"
  have "?r = (None, snd ?r)"
    by (simp add: SetSequenceNumber_def setSequenceNumberInternal_def getMrseqFilePath_def
        WriteFile_def plain_fs_def)
  moreover have "mrseq_readable (Inr ''/var/ahe'') (plain_fs [])"
    by (simp add: mrseq_readable_def getMrseqFilePath_def plain_fs_def)
  ultimately show ?thesis
    using mrseq_roundtrip [of "Inr ''/var/ahe''" "plain_fs []" 7 "snd ?r"] by simp
qed

text \<open>C30: Without a usable environment variable the requested sequence number is the number
  in the name of the settings file with the latest modification time (not the highest number),
  whenever exactly one file has that time; with no settings file it is an error.\<close>

theorem FindSeqNum_most_recent:
  assumes "is_err (ParseUint10 v)"
    "filter (\<lambda>fi. is_settings fi \<and> de_modTime fi = latest_time zero_time fis) fis = best"
    "length best \<le> 1"
  shows "FindSeqNum v (Inr g) (Inr fis) =
    (case best of
       [] \<Rightarrow> Inl ErrNoSettingsFiles
     | b # _ \<Rightarrow> (case seq_of_name (de_name b) of Inl e \<Rightarrow> Inl e | Inr i \<Rightarrow> Inr (word_of_int i)))"
proof -
  have "snd (foldl latest_step (zero_time, []) fis) = map de_name best"
    by (simp add: latest_scan flip: assms(2))
  moreover have "\<exists>e. (if v = [] then Inl ErrNotFound else ParseUint10 v) = Inl e"
    using assms(1) by (auto simp: is_err_def split: sum.splits)
  ultimately show ?thesis
    using assms(3) by (auto simp: FindSeqNum_def split: list.splits)
qed

theorem FindSeqNum_most_recent_witness:
  "FindSeqNum [] (Inr [''/c/9.settings'', ''/c/3.settings''])
     (Inr [\<lparr>de_name = ''9.settings'', de_regular = True, de_modTime = 100\<rparr>,
           \<lparr>de_name = ''3.settings'', de_regular = True, de_modTime = 200\<rparr>]) = Inr 3"
proof -
  have "is_err (ParseUint10 [])" by (simp add: ParseUint10_def all_digits_def)
  moreover have "filter (\<lambda>fi. is_settings fi \<and> de_modTime fi = latest_time zero_time
       [\<lparr>de_name = ''9.settings'', de_regular = True, de_modTime = 100\<rparr>,
        \<lparr>de_name = ''3.settings'', de_regular = True, de_modTime = 200\<rparr>])
       [\<lparr>de_name = ''9.settings'', de_regular = True, de_modTime = 100\<rparr>,
        \<lparr>de_name = ''3.settings'', de_regular = True, de_modTime = 200\<rparr>]
     = [\<lparr>de_name = ''3.settings'', de_regular = True, de_modTime = 200\<rparr>]"
    by (simp add: latest_time_def is_settings_def HasSuffix_def zero_time_def suffix_def)
  moreover have "seq_of_name ''3.settings'' = Inr 3" by code_simp
  ultimately show ?thesis
    using FindSeqNum_most_recent [of "[]"] by simp
qed

end
