(* ===== verification/Json_Roundtrip.thy ===== *)
theory Json_Roundtrip
  imports Json
begin

text \<open>
  Reading back what was written: for a value whose strings are UTF-8, whose numbers are JSON
  literals and whose nesting is within the limit, \<open>parse_json\<close> of either layout gives the value.
\<close>

section \<open>Well-formed values\<close>

function valid_utf8 :: "string \<Rightarrow> bool" where
  "valid_utf8 s =
     (if s = [] then True else if utf8_len s = 0 then False else valid_utf8 (drop (utf8_len s) s))"
  by pat_completeness auto
termination
  by (relation "measure length") auto

declare valid_utf8.simps [simp del]

fun wf_json :: "json \<Rightarrow> bool" where
  "wf_json (JNum n) = (scan_num n = Some (n, []))"
| "wf_json (JStr s) = valid_utf8 s"
| "wf_json (JArr vs) = list_all wf_json vs"
| "wf_json (JObj ms) = list_all (\<lambda>(k, v). valid_utf8 k \<and> wf_json v) ms"
| "wf_json _ = True"

fun depth :: "json \<Rightarrow> nat" where
  "depth (JArr vs) = Suc (fold max (map depth vs) 0)"
| "depth (JObj ms) = Suc (fold max (map (\<lambda>(k, v). depth v) ms) 0)"
| "depth _ = 0"

lemma valid_utf8_Nil [simp]: "valid_utf8 []"
  by (simp add: valid_utf8.simps)

lemma valid_utf8_induct [consumes 1, case_names Nil chunk]:
  assumes "valid_utf8 s" "P []"
    "\<And>s. s \<noteq> [] \<Longrightarrow> 0 < utf8_len s \<Longrightarrow> P (drop (utf8_len s) s) \<Longrightarrow> P s"
  shows "P s"
  using assms(1)
proof (induction s rule: valid_utf8.induct)
  case (1 s)
  show ?case
  proof (cases "s = []")
    case True
    then show ?thesis using assms(2) by simp
  next
    case False
    with "1.prems" have "utf8_len s \<noteq> 0" "valid_utf8 (drop (utf8_len s) s)"
      by (simp_all add: valid_utf8.simps [of s] split: if_splits)
    with False show ?thesis using assms(3) [of s] "1.IH" by simp
  qed
qed

section \<open>Strings\<close>

lemma utf8_len_le: "utf8_len s \<le> length s"
  by (auto simp: utf8_len_def Suc_le_eq)

lemma utf8_len_cases: "utf8_len s = 0 \<or> utf8_len s = 1 \<or> utf8_len s = 2 \<or> utf8_len s = 3 \<or> utf8_len s = 4"
  by (simp add: utf8_len_def)

lemma utf8_lenD:
  "utf8_len s = 1 \<Longrightarrow> s \<noteq> [] \<and> utf8_1 (s ! 0)"
  "utf8_len s = 2 \<Longrightarrow> 2 \<le> length s \<and> utf8_2 (s ! 0) (s ! 1)"
  "utf8_len s = 3 \<Longrightarrow> 3 \<le> length s \<and> utf8_3 (s ! 0) (s ! 1) (s ! 2)"
  "utf8_len s = 4 \<Longrightarrow> 4 \<le> length s \<and> utf8_4 (s ! 0) (s ! 1) (s ! 2) (s ! 3)"
  by (simp_all add: utf8_len_def split: if_splits)

lemma utf8_disjoint:
  "utf8_2 a b \<Longrightarrow> \<not> utf8_1 a"
  "utf8_3 a b c \<Longrightarrow> \<not> utf8_1 a \<and> \<not> utf8_2 a b'"
  "utf8_4 a b c d \<Longrightarrow> \<not> utf8_1 a \<and> \<not> utf8_2 a b' \<and> \<not> utf8_3 a b'' c'"
  by (simp_all add: utf8_1_def utf8_2_def utf8_3_def utf8_4_def)

lemma utf8_lenI:
  "s \<noteq> [] \<Longrightarrow> utf8_1 (s ! 0) \<Longrightarrow> utf8_len s = 1"
  "2 \<le> length s \<Longrightarrow> utf8_2 (s ! 0) (s ! 1) \<Longrightarrow> utf8_len s = 2"
  "3 \<le> length s \<Longrightarrow> utf8_3 (s ! 0) (s ! 1) (s ! 2) \<Longrightarrow> utf8_len s = 3"
  "4 \<le> length s \<Longrightarrow> utf8_4 (s ! 0) (s ! 1) (s ! 2) (s ! 3) \<Longrightarrow> utf8_len s = 4"
  using utf8_disjoint by (simp_all add: utf8_len_def)

lemma utf8_len_chunk:
  assumes "0 < utf8_len s"
  shows "utf8_len (take (utf8_len s) s @ t) = utf8_len s"
proof -
  consider "utf8_len s = 1" | "utf8_len s = 2" | "utf8_len s = 3" | "utf8_len s = 4"
    using assms utf8_len_cases [of s] by linarith
  then show ?thesis
  proof cases
    case 1
    with utf8_lenD(1) [of s] show ?thesis
      by (cases s) (simp_all add: utf8_len_def)
  next
    case 2
    with utf8_lenD(2) [of s] show ?thesis
      by (auto simp: nth_append min_def intro: utf8_lenI(2))
  next
    case 3
    with utf8_lenD(3) [of s] show ?thesis
      by (auto simp: nth_append min_def intro: utf8_lenI(3))
  next
    case 4
    with utf8_lenD(4) [of s] show ?thesis
      by (auto simp: nth_append min_def intro: utf8_lenI(4))
  qed
qed

lemma list_take_nth:
  "2 \<le> length s \<Longrightarrow> take 2 s = [s ! 0, s ! 1]"
  "3 \<le> length s \<Longrightarrow> take 3 s = [s ! 0, s ! 1, s ! 2]"
  "4 \<le> length s \<Longrightarrow> take 4 s = [s ! 0, s ! 1, s ! 2, s ! 3]"
  by (auto simp: Suc_le_length_iff numeral_eq_Suc)

lemma utf8_bytes_high:
  "utf8_2 a b \<Longrightarrow> 128 \<le> bval a \<and> 128 \<le> bval b"
  "utf8_3 a b c \<Longrightarrow> 128 \<le> bval a \<and> 128 \<le> bval b \<and> 128 \<le> bval c"
  "utf8_4 a b c d \<Longrightarrow> 128 \<le> bval a \<and> 128 \<le> bval b \<and> 128 \<le> bval c \<and> 128 \<le> bval d"
  by (auto simp: utf8_2_def utf8_3_def utf8_4_def is_cont_def cont_range_def split: if_splits)

lemma utf8_chunk_high:
  assumes "1 < utf8_len s"
  shows "\<forall>c \<in> set (take (utf8_len s) s). 128 \<le> bval c"
proof -
  consider "utf8_len s = 2" | "utf8_len s = 3" | "utf8_len s = 4"
    using assms utf8_len_cases [of s] by linarith
  then show ?thesis
  proof cases
    case 1
    with utf8_lenD(2) [of s] utf8_bytes_high(1) show ?thesis by (auto simp: list_take_nth)
  next
    case 2
    with utf8_lenD(3) [of s] utf8_bytes_high(2) show ?thesis by (auto simp: list_take_nth)
  next
    case 3
    with utf8_lenD(4) [of s] utf8_bytes_high(3) show ?thesis by (auto simp: list_take_nth)
  qed
qed

text \<open>What \<open>escape_str\<close> writes for one chunk.\<close>

definition escape_chunk :: "string \<Rightarrow> string" where
  "escape_chunk u =
     (if length u = 1 then escape_byte (hd u)
      else if u = [CHR 0xE2, CHR 0x80, CHR 0xA8] then [CHR 0x5C] @ ''u2028''
      else if u = [CHR 0xE2, CHR 0x80, CHR 0xA9] then [CHR 0x5C] @ ''u2029''
      else u)"

lemma utf8_len_line_sep:
  "prefix [CHR 0xE2, CHR 0x80, CHR 0xA8] s \<Longrightarrow> utf8_len s = 3"
  "prefix [CHR 0xE2, CHR 0x80, CHR 0xA9] s \<Longrightarrow> utf8_len s = 3"
  by (auto simp: prefix_def utf8_3_def is_cont_def intro!: utf8_lenI(3))

lemma escape_str_Nil [simp]: "escape_str [] = []"
  by (simp add: escape_str.simps [of "[]"])

lemmas escape_str_Cons = escape_str.simps [of "a # r", unfolded list.case] for a r

lemma escape_str_chunk:
  assumes "s \<noteq> []" "0 < utf8_len s"
  shows "escape_str s = escape_chunk (take (utf8_len s) s) @ escape_str (drop (utf8_len s) s)"
proof -
  obtain a r where s: "s = a # r" using assms(1) by (cases s) auto
  have len: "length (take (utf8_len s) s) = utf8_len s"
    using utf8_len_le [of s] by simp
  have take3: "take (utf8_len s) s = [x, y, z] \<Longrightarrow> prefix [x, y, z] s" for x y z
    by (metis take_is_prefix)
  consider (one) "utf8_len s = 1"
    | (a8) "prefix [CHR 0xE2, CHR 0x80, CHR 0xA8] s"
    | (a9) "prefix [CHR 0xE2, CHR 0x80, CHR 0xA9] s"
    | (other) "1 < utf8_len s" "\<not> prefix [CHR 0xE2, CHR 0x80, CHR 0xA8] s"
        "\<not> prefix [CHR 0xE2, CHR 0x80, CHR 0xA9] s"
    using assms(2) by linarith
  then show ?thesis
  proof cases
    case one
    then show ?thesis
      by (simp add: s escape_str_Cons escape_chunk_def)
  next
    case a8
    then show ?thesis using utf8_len_line_sep(1) [OF a8]
      by (auto simp: s escape_str_Cons escape_chunk_def prefix_def numeral_3_eq_3)
  next
    case a9
    then show ?thesis using utf8_len_line_sep(2) [OF a9]
      by (auto simp: s escape_str_Cons escape_chunk_def prefix_def numeral_3_eq_3)
  next
    case other
    then have "escape_chunk (take (utf8_len s) s) = take (utf8_len s) s"
      using take3 len by (auto simp: escape_chunk_def simp del: length_take)
    then show ?thesis
      using other by (simp only: s escape_str_Cons) simp
  qed
qed

lemma cons_raw_simps [simp]:
  "cons_raw p (Some (raw, rest)) = Some (p @ raw, rest)"
  "cons_raw [] r = r" "cons_raw p (cons_raw q r) = cons_raw (p @ q) r"
  by (cases r; auto simp: cons_raw_def)+

text \<open>A chunk of UTF-8 above ASCII passes the scanner and \<open>unquote\<close> unchanged; an ASCII byte
  comes back from its escape.\<close>

lemma scan_str_high:
  "\<forall>c \<in> set u. 128 \<le> bval c \<Longrightarrow> scan_str (u @ t) = cons_raw u (scan_str t)"
  by (induction u) auto

lemma hex_digit_ok [simp]: "d < 16 \<Longrightarrow> is_hex (hex_digit d) \<and> hex_val (hex_digit d) = d"
  by (auto simp: hex_digit_def is_hex_def hex_val_def is_digit_def digit_val_def)

lemma hex_zero [simp]: "is_hex (CHR ''0'')" "hex_val (CHR ''0'') = 0"
  by (simp_all add: is_hex_def hex_val_def is_digit_def digit_val_def)

lemma simple_escape_simps [simp]:
  "simple_escape (CHR 0x22) = Some (CHR 0x22)" "simple_escape (CHR 0x5C) = Some (CHR 0x5C)"
  "simple_escape (CHR ''b'') = Some (CHR 0x08)" "simple_escape (CHR ''f'') = Some (CHR 0x0C)"
  "simple_escape (CHR ''n'') = Some (CHR 0x0A)" "simple_escape (CHR ''r'') = Some (CHR 0x0D)"
  "simple_escape (CHR ''t'') = Some (CHR 0x09)" "simple_escape (CHR ''u'') = None"
  by (simp_all add: simple_escape_def)

lemma hex_pair:
  "bval c < 128 \<Longrightarrow> is_hex (hex_digit (bval c div 16)) \<and> is_hex (hex_digit (bval c mod 16)) \<and>
     hex_val (hex_digit (bval c div 16)) * 16 + hex_val (hex_digit (bval c mod 16)) = bval c"
  by simp

lemma escape_byte_cases:
  assumes "bval c < 128"
  obtains
    (simple) e where "escape_byte c = [CHR 0x5C, e]" "simple_escape e = Some c" "e \<noteq> CHR ''u''"
  | (hex) "escape_byte c =
      [CHR 0x5C, CHR ''u'', CHR ''0'', CHR ''0'', hex_digit (bval c div 16), hex_digit (bval c mod 16)]"
  | (plain) "escape_byte c = [c]" "c \<noteq> CHR 0x22" "c \<noteq> CHR 0x5C" "32 \<le> bval c"
proof -
  let ?S = "{CHR 0x22, CHR 0x5C, CHR 0x08, CHR 0x0C, CHR 0x0A, CHR 0x0D, CHR 0x09}"
  show ?thesis
  proof (cases "c \<in> ?S")
    case True
    then show ?thesis by (auto simp: escape_byte_def intro: simple)
  next
    case c: False
    show ?thesis
    proof (cases "bval c < 32 \<or> c = CHR ''<'' \<or> c = CHR ''>'' \<or> c = CHR ''&''")
      case True
      with c show ?thesis by (intro hex) (simp add: escape_byte_def)
    next
      case False
      with c show ?thesis by (intro plain) (simp_all add: escape_byte_def)
    qed
  qed
qed

lemma scan_str_escape_byte:
  assumes "bval c < 128"
  shows "scan_str (escape_byte c @ t) = cons_raw (escape_byte c) (scan_str t)"
  using assms hex_pair [OF assms] by (cases rule: escape_byte_cases) auto

lemmas unquote_Cons = unquote.simps [of "a # r", unfolded list.case] for a r

lemma unquote_Nil [simp]: "unquote [] = []"
  by (simp add: unquote.simps [of "[]"])

lemma get_u4_no_u: "e \<noteq> CHR ''u'' \<Longrightarrow> get_u4 (CHR 0x5C # e # t) = None"
  by (cases "(CHR 0x5C # e # t)" rule: get_u4.cases) auto

lemma unquote_escape_byte:
  assumes "bval c < 128"
  shows "unquote (escape_byte c @ t) = c # unquote t"
  using assms
proof (cases rule: escape_byte_cases)
  case (simple e)
  then show ?thesis by (simp add: unquote_Cons get_u4_no_u)
next
  case hex
  then show ?thesis using assms hex_pair [OF assms]
    by (simp add: unquote_Cons u4_def is_high_def utf8_encode_def)
next
  case plain
  then have "utf8_len (c # t) = 1"
    using assms by (simp add: utf8_len_def utf8_1_def)
  with plain show ?thesis by (simp add: unquote_Cons)
qed

lemma chunk_ascii: "utf8_len s = 1 \<Longrightarrow> take (utf8_len s) s = [hd s] \<and> bval (hd s) < 128"
  using utf8_lenD(1) [of s] by (cases s) (auto simp: utf8_1_def)

lemma escape_chunk_cases:
  assumes "0 < utf8_len s"
  obtains (ascii) c where "take (utf8_len s) s = [c]" "bval c < 128" "escape_chunk (take (utf8_len s) s) = escape_byte c"
  | (sep) x where "x \<in> {CHR ''8'', CHR ''9''}" "escape_chunk (take (utf8_len s) s) = [CHR 0x5C] @ ''u202'' @ [x]"
      "take (utf8_len s) s = [CHR 0xE2, CHR 0x80, if x = CHR ''8'' then CHR 0xA8 else CHR 0xA9]"
  | (high) "1 < utf8_len s" "escape_chunk (take (utf8_len s) s) = take (utf8_len s) s"
proof (cases "utf8_len s = 1")
  case True
  with chunk_ascii [of s] show ?thesis by (intro ascii [of "hd s"]) (simp_all add: escape_chunk_def)
next
  case False
  then have "length (take (utf8_len s) s) \<noteq> 1" "1 < utf8_len s"
    using assms utf8_len_le [of s] by auto
  then show ?thesis
  proof (cases "take (utf8_len s) s \<in> {[CHR 0xE2, CHR 0x80, CHR 0xA8], [CHR 0xE2, CHR 0x80, CHR 0xA9]}")
    case True
    then show ?thesis
      using sep [of "CHR ''8''"] sep [of "CHR ''9''"] by (auto simp: escape_chunk_def)
  next
    case False
    with \<open>length _ \<noteq> 1\<close> show ?thesis
      by (intro high [OF \<open>1 < utf8_len s\<close>]) (simp add: escape_chunk_def del: length_take)
  qed
qed

lemma hex_202 [simp]: "is_hex (CHR ''2'')" "is_hex (CHR ''8'')" "is_hex (CHR ''9'')"
  by (simp_all add: is_hex_def is_digit_def)

lemma scan_str_chunk:
  assumes "0 < utf8_len s"
  shows "scan_str (escape_chunk (take (utf8_len s) s) @ t) = cons_raw (escape_chunk (take (utf8_len s) s)) (scan_str t)"
  using assms
proof (cases rule: escape_chunk_cases)
  case (ascii c)
  then show ?thesis by (simp add: scan_str_escape_byte)
next
  case (sep x)
  then show ?thesis by auto
next
  case high
  then show ?thesis by (simp add: scan_str_high utf8_chunk_high)
qed

lemma unquote_high:
  assumes "1 < utf8_len s"
  shows "unquote (take (utf8_len s) s @ t) = take (utf8_len s) s @ unquote t"
proof -
  obtain a u where u: "take (utf8_len s) s = a # u"
    using assms utf8_len_le [of s] by (cases "take (utf8_len s) s") auto
  then have "a \<noteq> CHR 0x5C" using utf8_chunk_high [OF assms] by auto
  moreover have "utf8_len (a # u @ t) = length (a # u)"
    using utf8_len_chunk [of s t] assms utf8_len_le [of s] u by (metis append_Cons length_take min.absorb2 less_trans zero_less_one)
  ultimately show ?thesis by (simp add: u unquote_Cons)
qed

lemma utf8_line_seps:
  "utf8_encode (u4 (CHR ''2'') (CHR ''0'') (CHR ''2'') (CHR ''8'')) = [CHR 0xE2, CHR 0x80, CHR 0xA8]"
  "utf8_encode (u4 (CHR ''2'') (CHR ''0'') (CHR ''2'') (CHR ''9'')) = [CHR 0xE2, CHR 0x80, CHR 0xA9]"
  "\<not> is_high (u4 (CHR ''2'') (CHR ''0'') (CHR ''2'') (CHR ''8''))"
  "\<not> is_high (u4 (CHR ''2'') (CHR ''0'') (CHR ''2'') (CHR ''9''))"
  by code_simp+

lemma unquote_u4:
  "is_hex a \<Longrightarrow> is_hex b \<Longrightarrow> is_hex c \<Longrightarrow> is_hex d \<Longrightarrow> \<not> is_high (u4 a b c d) \<Longrightarrow>
   unquote (CHR 0x5C # CHR ''u'' # a # b # c # d # t) = utf8_encode (u4 a b c d) @ unquote t"
  by (simp add: unquote_Cons [of "CHR 0x5C"])

lemma unquote_chunk:
  assumes "0 < utf8_len s"
  shows "unquote (escape_chunk (take (utf8_len s) s) @ t) = take (utf8_len s) s @ unquote t"
  using assms
proof (cases rule: escape_chunk_cases)
  case (ascii c)
  then show ?thesis by (simp add: unquote_escape_byte)
next
  case (sep x)
  then show ?thesis by (auto simp: unquote_u4 utf8_line_seps)
next
  case high
  then show ?thesis by (simp add: unquote_high)
qed

lemma scan_str_escape:
  assumes "valid_utf8 s"
  shows "scan_str (escape_str s @ CHR 0x22 # t) = Some (escape_str s, t)"
  using assms
proof (induction s rule: valid_utf8_induct)
  case (chunk s)
  then show ?case by (simp add: escape_str_chunk scan_str_chunk)
qed simp

lemma unquote_escape:
  assumes "valid_utf8 s"
  shows "unquote (escape_str s) = s"
  using assms
proof (induction s rule: valid_utf8_induct)
  case (chunk s)
  then show ?case by (simp add: escape_str_chunk unquote_chunk)
qed simp

section \<open>Numbers\<close>

definition num_stop :: "string \<Rightarrow> bool" where
  "num_stop t \<longleftrightarrow> (case t of [] \<Rightarrow> True | c # _ \<Rightarrow> \<not> is_digit c \<and> c \<notin> {CHR ''.'', CHR ''e'', CHR ''E''})"

lemma span_digits_stop: "num_stop t \<Longrightarrow> span_digits (s @ t) = (takeWhile is_digit s, dropWhile is_digit s @ t)"
  by (induction s) (auto simp: span_digits_def num_stop_def split: list.splits)

lemma scan_int_stop: "scan_int s = Some (i, r) \<Longrightarrow> num_stop t \<Longrightarrow> scan_int (s @ t) = Some (i, r @ t)"
  using span_digits_stop [of t s]
  by (auto simp: scan_int_def span_digits_def split: list.splits if_splits)

lemma scan_frac_stop: "scan_frac s = Some (f, r) \<Longrightarrow> num_stop t \<Longrightarrow> scan_frac (s @ t) = Some (f, r @ t)"
  using span_digits_stop [of t "tl s"]
  by (auto simp: scan_frac_def span_digits_def num_stop_def Let_def split: list.splits if_splits)

definition scan_sign :: "string \<Rightarrow> string \<times> string" where
  "scan_sign r = (case r of x # r' \<Rightarrow> if x = CHR ''+'' \<or> x = CHR ''-'' then ([x], r') else ([], r) | [] \<Rightarrow> ([], r))"

lemma scan_sign_append: "r \<noteq> [] \<Longrightarrow> scan_sign (r @ t) = (fst (scan_sign r), snd (scan_sign r) @ t)"
  by (cases r) (auto simp: scan_sign_def)

lemma scan_exp_Cons:
  "scan_exp (c # r) =
     (if c = CHR ''e'' \<or> c = CHR ''E''
      then (case span_digits (snd (scan_sign r)) of
              (d, r2) \<Rightarrow> if d = [] then None else Some (c # fst (scan_sign r) @ d, r2))
      else Some ([], c # r))"
  by (auto simp: scan_exp_def scan_sign_def Let_def split: list.splits prod.splits)

lemma scan_exp_stop:
  assumes "scan_exp s = Some (e, r)" "num_stop t"
  shows "scan_exp (s @ t) = Some (e, r @ t)"
proof (cases s)
  case Nil
  with assms show ?thesis by (auto simp: scan_exp_def num_stop_def split: list.splits)
next
  case (Cons c u)
  show ?thesis
  proof (cases "c = CHR ''e'' \<or> c = CHR ''E''")
    case True
    with assms Cons have "u \<noteq> []"
      by (auto simp: scan_exp_Cons scan_sign_def span_digits_def)
    with True assms Cons span_digits_stop [OF assms(2), of "snd (scan_sign u)"] show ?thesis
      by (auto simp: scan_exp_Cons scan_sign_append span_digits_def split: if_splits)
  next
    case False
    with assms Cons show ?thesis by (auto simp: scan_exp_Cons)
  qed
qed

definition scan_minus :: "string \<Rightarrow> string \<times> string" where
  "scan_minus s = (case s of x # r \<Rightarrow> if x = CHR ''-'' then ([x], r) else ([], s) | [] \<Rightarrow> ([], s))"

lemma scan_minus_append: "s \<noteq> [] \<Longrightarrow> scan_minus (s @ t) = (fst (scan_minus s), snd (scan_minus s) @ t)"
  by (cases s) (auto simp: scan_minus_def)

lemma scan_num_eq_Some:
  "scan_num s = Some (n, r) \<longleftrightarrow>
     (\<exists>i s2 f s3 e. scan_int (snd (scan_minus s)) = Some (i, s2) \<and> scan_frac s2 = Some (f, s3) \<and>
        scan_exp s3 = Some (e, r) \<and> n = fst (scan_minus s) @ i @ f @ e)"
  unfolding scan_num_def scan_minus_def [symmetric] Let_def
  by (cases "scan_minus s") (auto split: option.splits)

lemma scan_num_stop:
  assumes "scan_num s = Some (n, [])" "num_stop t"
  shows "scan_num (s @ t) = Some (n, t)"
proof -
  have "s \<noteq> []"
    using assms(1) by (auto simp: scan_num_eq_Some scan_minus_def scan_int_def)
  obtain i s2 f s3 e where
    "scan_int (snd (scan_minus s)) = Some (i, s2)" "scan_frac s2 = Some (f, s3)"
    "scan_exp s3 = Some (e, [])" and n: "n = fst (scan_minus s) @ i @ f @ e"
    using assms(1) by (auto simp only: scan_num_eq_Some)
  then have "scan_int (snd (scan_minus s) @ t) = Some (i, s2 @ t)"
    "scan_frac (s2 @ t) = Some (f, s3 @ t)" "scan_exp (s3 @ t) = Some (e, [] @ t)"
    using assms(2) by (blast intro: scan_int_stop scan_frac_stop scan_exp_stop)+
  then show ?thesis
    using n by (simp add: scan_num_eq_Some scan_minus_append [OF \<open>s \<noteq> []\<close>])
qed

section \<open>Documents\<close>

definition all_ws :: "string \<Rightarrow> bool" where
  "all_ws u \<longleftrightarrow> list_all is_ws u"

lemma skip_ws_append [simp]: "all_ws u \<Longrightarrow> skip_ws (u @ s) = skip_ws s"
  by (induction u) (auto simp: all_ws_def skip_ws_def)

lemma tok_append [simp]: "all_ws u \<Longrightarrow> tok (u @ s) = tok s"
  by (simp add: tok_def)

lemma tok_Cons [simp]: "\<not> is_ws c \<Longrightarrow> tok (c # s) = Some (c, s)"
  by (simp add: tok_def skip_ws_def)

lemma punct_not_ws [simp]:
  "\<not> is_ws (CHR '','')" "\<not> is_ws (CHR '':'')" "\<not> is_ws (CHR '']'')" "\<not> is_ws (CHR ''}'')"
  "\<not> is_ws (CHR ''['')" "\<not> is_ws (CHR ''{'')" "\<not> is_ws (CHR 0x22)"
  "\<not> is_ws (CHR ''t'')" "\<not> is_ws (CHR ''f'')" "\<not> is_ws (CHR ''n'')"
  by (simp_all add: is_ws_def)

lemma num_stop_punct [simp]:
  "num_stop (CHR '','' # t)" "num_stop (CHR '']'' # t)" "num_stop (CHR ''}'' # t)" "num_stop []"
  by (simp_all add: num_stop_def is_digit_def)

lemma num_stop_ws [simp]: "all_ws u \<Longrightarrow> num_stop t \<Longrightarrow> num_stop (u @ t)"
  by (cases u) (auto simp: num_stop_def all_ws_def is_ws_def is_digit_def)

text \<open>How a value begins.\<close>

definition value_head :: "char \<Rightarrow> bool" where
  "value_head c \<longleftrightarrow> \<not> is_ws c \<and> c \<noteq> CHR '']'' \<and> c \<noteq> CHR ''}''"

lemma num_head:
  assumes "scan_num n = Some (n, [])"
  obtains c r where "n = c # r" "is_digit c \<or> c = CHR ''-''"
proof (cases n)
  case Nil
  with assms show ?thesis by (auto simp: scan_num_eq_Some scan_minus_def scan_int_def)
next
  case (Cons c r)
  with assms that show ?thesis
    by (auto simp: scan_num_eq_Some scan_minus_def scan_int_def is_digit_def split: if_splits)
qed

lemma write_head:
  assumes "wf_json v"
  shows "\<exists>c r. write_json nl sp n v = c # r \<and> value_head c"
proof (cases v)
  case (JNum m)
  with assms have m: "scan_num m = Some (m, [])" by simp
  obtain c r where "m = c # r" "is_digit c \<or> c = CHR ''-''" by (rule num_head [OF m])
  moreover from this(2) have "value_head c" by (auto simp: value_head_def is_ws_def is_digit_def)
  ultimately show ?thesis using JNum by simp
qed (simp_all add: value_head_def quote_str_def)

lemma parse_num:
  assumes "scan_num m = Some (m, [])" "num_stop t"
  shows "parse_value d (m @ t) = Some (JNum m, t)"
proof -
  obtain c r where c: "m = c # r" "is_digit c \<or> c = CHR ''-''" by (rule num_head [OF assms(1)])
  then have "\<not> is_ws c" "c \<notin> {CHR ''['', CHR ''{'', CHR 0x22, CHR ''t'', CHR ''f'', CHR ''n''}"
    by (auto simp: is_ws_def is_digit_def)
  then show ?thesis
    using scan_num_stop [OF assms] c(1) by (simp add: parse_value.simps [of d] parse_scalar_def)
qed

lemma parse_str:
  "valid_utf8 s \<Longrightarrow> parse_value d (quote_str s @ t) = Some (JStr s, t)"
  by (simp add: parse_value.simps [of d] quote_str_def parse_scalar_def scan_str_escape unquote_escape)

lemma parse_key_quote:
  "valid_utf8 k \<Longrightarrow> all_ws u \<Longrightarrow> parse_key (u @ quote_str k @ CHR '':'' # t) = Some (k, t)"
  by (simp add: parse_key_def quote_str_def scan_str_escape unquote_escape)

lemma fold_max_ge: "(a :: nat) \<le> fold max xs a"
  by (induction xs arbitrary: a) (simp_all, meson max.cobounded2 order_trans)

lemma fold_max_mem: "x \<in> set xs \<Longrightarrow> (x :: nat) \<le> fold max xs a"
proof (induction xs arbitrary: a)
  case (Cons y ys)
  then show ?case using fold_max_ge [of "max y a" ys] by auto
qed simp

lemma fold_max_le: "(\<forall>x \<in> set xs. x \<le> k) \<Longrightarrow> a \<le> k \<Longrightarrow> fold max xs a \<le> (k :: nat)"
  by (induction xs arbitrary: a) auto

lemma depth_mem:
  "v \<in> set vs \<Longrightarrow> depth v < depth (JArr vs)"
  "(k, v) \<in> set ms \<Longrightarrow> depth v < depth (JObj ms)"
  by (force simp: less_Suc_eq_le intro: fold_max_mem)+

lemma parse_value_ws [simp]: "all_ws u \<Longrightarrow> parse_value d (u @ s) = parse_value d s"
  by (simp add: parse_value.simps [of d])

text \<open>The list loops, given that every element is read back.\<close>

definition reads_back :: "(nat \<Rightarrow> string) \<Rightarrow> string \<Rightarrow> nat \<Rightarrow> nat \<Rightarrow> json \<Rightarrow> bool" where
  "reads_back nl sp d n v \<longleftrightarrow>
     (\<forall>t. num_stop t \<longrightarrow> parse_value d (write_json nl sp n v @ t) = Some (v, t))"

lemma parse_elems_write:
  assumes "vs \<noteq> []" "\<forall>v \<in> set vs. reads_back nl sp d n v" "all_ws u" "all_ws (nl n)" "all_ws e"
  shows "parse_elems d (u @ Join (map (write_json nl sp n) vs) ('','' @ nl n) @ e @ CHR '']'' # t) = Some (vs, t)"
  using assms
proof (induction vs arbitrary: u)
  case (Cons v vs)
  show ?case
  proof (cases vs)
    case Nil
    with Cons.prems show ?thesis
      by (simp add: parse_elems.simps [of d] reads_back_def)
  next
    case (Cons w ws)
    with Cons.IH [of "nl n"] Cons.prems show ?thesis
      by (simp add: parse_elems.simps [of d "u @ x" for x] reads_back_def)
  qed
qed simp

definition write_member :: "(nat \<Rightarrow> string) \<Rightarrow> string \<Rightarrow> nat \<Rightarrow> string \<times> json \<Rightarrow> string" where
  "write_member nl sp n = (\<lambda>(k, v). quote_str k @ '':'' @ sp @ write_json nl sp n v)"

lemma parse_members_write:
  assumes "ms \<noteq> []" "\<forall>(k, v) \<in> set ms. valid_utf8 k \<and> reads_back nl sp d n v"
    "all_ws u" "all_ws (nl n)" "all_ws sp" "all_ws e"
  shows "parse_members d (u @ Join (map (write_member nl sp n) ms) ('','' @ nl n) @ e @ CHR ''}'' # t) = Some (ms, t)"
  using assms
proof (induction ms arbitrary: u)
  case (Cons m ms)
  obtain k v where m: "m = (k, v)" by force
  show ?case
  proof (cases ms)
    case Nil
    with m Cons.prems show ?thesis
      by (simp add: parse_members.simps [of d] parse_key_quote reads_back_def write_member_def)
  next
    case (Cons w ws)
    with m Cons.IH [of "nl n"] Cons.prems show ?thesis
      by (simp add: parse_members.simps [of d "u @ x" for x] parse_key_quote reads_back_def
          write_member_def)
  qed
qed simp

lemma reads_back_json:
  assumes "\<And>m. all_ws (nl m)" "all_ws sp" "wf_json v" "depth v \<le> d"
  shows "reads_back nl sp d n v"
  using assms(3,4)
proof (induction v arbitrary: d n)
  case (JArr vs)
  show ?case
  proof (cases vs)
    case Nil
    with JArr.prems show ?thesis by (simp add: reads_back_def parse_value.simps [of d])
  next
    case (Cons v ws)
    have "\<forall>v \<in> set vs. reads_back nl sp (d - 1) (Suc n) v"
      using JArr depth_mem(1) [of _ vs] by (fastforce simp: list_all_iff)
    moreover obtain c r where "write_json nl sp (Suc n) v = c # r" "value_head c"
      using JArr.prems Cons write_head [of v nl sp "Suc n"] by auto
    moreover have "d \<noteq> 0" using JArr.prems by auto
    ultimately show ?thesis
      using parse_elems_write [of vs nl sp "d - 1" "Suc n" "nl (Suc n)" "nl n"] Cons assms(1)
      by (cases ws) (simp_all add: reads_back_def parse_value.simps [of d "CHR ''['' # x" for x] value_head_def)
  qed
next
  case (JObj ms)
  show ?case
  proof (cases ms)
    case Nil
    with JObj.prems show ?thesis by (simp add: reads_back_def parse_value.simps [of d])
  next
    case (Cons m ws)
    have "\<forall>(k, v) \<in> set ms. valid_utf8 k \<and> reads_back nl sp (d - 1) (Suc n) v"
      using JObj depth_mem(2) [of _ _ ms] by (fastforce simp: list_all_iff)
    moreover have "d \<noteq> 0" using JObj.prems by auto
    ultimately show ?thesis
      using parse_members_write [of ms nl sp "d - 1" "Suc n" "nl (Suc n)" "nl n"] Cons assms(1,2)
      by (cases ws; cases m)
        (simp_all add: reads_back_def parse_value.simps [of d "CHR ''{'' # x" for x] write_member_def quote_str_def)
  qed
qed (auto simp: reads_back_def parse_num parse_str parse_value.simps [of _ "CHR ''n'' # x" for x]
    parse_value.simps [of _ "CHR ''t'' # x" for x] parse_value.simps [of _ "CHR ''f'' # x" for x]
    parse_scalar_def expect_def)

lemma all_ws_indent [simp]: "all_ws (indent n)" "all_ws []" "all_ws '' ''"
  by (auto simp: all_ws_def indent_def is_ws_def list_all_iff)

lemma parse_marshal:
  assumes "wf_json v" "depth v \<le> maxNestingDepth"
  shows "parse_json (marshal_json v) = Some v" "parse_json (marshal_indent n v) = Some v"
  using reads_back_json [of "\<lambda>_. []" "[]" v maxNestingDepth 0] reads_back_json [of indent "'' ''" v maxNestingDepth n] assms
  by (auto simp: reads_back_def parse_json_def marshal_json_def marshal_indent_def skip_ws_def
      dest: spec [of _ "[]"])

section \<open>What is read is well-formed\<close>

definition chunk :: "string \<Rightarrow> bool" where
  "chunk u \<longleftrightarrow> u \<noteq> [] \<and> utf8_len u = length u"

lemma valid_chunk: "chunk u \<Longrightarrow> valid_utf8 (u @ t) = valid_utf8 t"
  using utf8_len_chunk [of u t] by (subst valid_utf8.simps) (auto simp: chunk_def)

lemma chunk_take: "0 < utf8_len s \<Longrightarrow> chunk (take (utf8_len s) s)"
  using utf8_len_chunk [of s "[]"] utf8_len_le [of s] by (auto simp: chunk_def)

lemma chunk_ascii_byte: "bval c < 128 \<Longrightarrow> chunk [c]"
  by (simp add: chunk_def utf8_len_def utf8_1_def)

lemma chunk_replacement: "chunk replacement"
  by (simp add: chunk_def replacement_def utf8_len_def utf8_1_def utf8_2_def utf8_3_def is_cont_def)

lemma div_range: "(a :: nat) * k \<le> r \<Longrightarrow> r < b * k \<Longrightarrow> a \<le> r div k \<and> r div k < b"
  by (metis div_le_mono less_mult_imp_div_less nonzero_mult_div_cancel_right mult_is_0 not_less0)

lemma mod_below: "(q :: nat) div k = a \<Longrightarrow> q < a * k + b \<Longrightarrow> q mod k < b"
  using div_mult_mod_eq [of q k] by simp

lemma utf8_3_bytes:
  fixes a b c :: nat
  shows
  "a < 16 \<Longrightarrow> b < 64 \<Longrightarrow> c < 64 \<Longrightarrow> (a = 0 \<Longrightarrow> 32 \<le> b) \<Longrightarrow> (a = 13 \<Longrightarrow> b < 32) \<Longrightarrow>
   utf8_3 (char_of (224 + a)) (char_of (128 + b)) (char_of (128 + c))"
  by (cases "a = 13") (simp_all add: utf8_3_def is_cont_def cont_range_def)

lemma utf8_4_bytes:
  fixes a b c d :: nat
  shows
  "a \<le> 4 \<Longrightarrow> b < 64 \<Longrightarrow> c < 64 \<Longrightarrow> d < 64 \<Longrightarrow> (a = 0 \<Longrightarrow> 16 \<le> b) \<Longrightarrow> (a = 4 \<Longrightarrow> b < 16) \<Longrightarrow>
   utf8_4 (char_of (240 + a)) (char_of (128 + b)) (char_of (128 + c)) (char_of (128 + d))"
  by (cases "a = 4") (simp_all add: utf8_4_def is_cont_def cont_range_def)

lemma chunk_encode:
  assumes "r < 1114112"
  shows "chunk (utf8_encode r)"
proof -
  consider (one) "r < 128" | (two) "128 \<le> r" "r < 2048" | (bad) "55296 \<le> r" "r \<le> 57343"
    | (three) "2048 \<le> r" "r < 65536" "\<not> (55296 \<le> r \<and> r \<le> 57343)" | (four) "65536 \<le> r"
    by linarith
  then show ?thesis
  proof cases
    case one
    then show ?thesis by (simp add: utf8_encode_def chunk_ascii_byte)
  next
    case two
    then have "2 \<le> r div 64" "r div 64 < 32" using div_range [of 2 64 r 32] by simp_all
    with two have "utf8_2 (char_of (192 + r div 64)) (char_of (128 + r mod 64))"
      by (simp add: utf8_2_def is_cont_def)
    with two show ?thesis by (simp add: utf8_encode_def chunk_def utf8_lenI(2))
  next
    case bad
    then show ?thesis by (simp add: utf8_encode_def chunk_replacement)
  next
    case three
    have "r div 4096 < 16" using three by (simp add: div_less_iff_less_mult)
    moreover have "r div 64 mod 64 < 64" by simp
    moreover have "r div 4096 = 0 \<Longrightarrow> 32 \<le> r div 64 mod 64" using three by simp
    moreover have "r div 64 mod 64 < 32" if "r div 4096 = 13"
    proof (rule mod_below)
      show "r div 64 div 64 = 13" using that by (simp flip: div_mult2_eq)
      have "r < 14 * 4096" using that by (simp add: dividend_less_div_times)
      then show "r div 64 < 13 * 64 + 32" using three by (simp add: div_less_iff_less_mult)
    qed
    ultimately have "utf8_3 (char_of (224 + r div 4096)) (char_of (128 + r div 64 mod 64)) (char_of (128 + r mod 64))"
      by (intro utf8_3_bytes) simp_all
    moreover have "\<not> r < 2048" "\<not> r < 128" using three by auto
    ultimately show ?thesis
      using three(2,3) by (simp only: utf8_encode_def if_False if_True chunk_def) (simp add: utf8_lenI(3))
  next
    case four
    have "r div 262144 \<le> 4" using assms by simp
    moreover have "r div 262144 = 0 \<Longrightarrow> 16 \<le> r div 4096 mod 64" using four by simp
    moreover have "r div 4096 mod 64 < 16" if "r div 262144 = 4"
    proof (rule mod_below)
      show "r div 4096 div 64 = 4" using that by (simp flip: div_mult2_eq)
      show "r div 4096 < 4 * 64 + 16" using assms by (simp add: div_less_iff_less_mult)
    qed
    ultimately have "utf8_4 (char_of (240 + r div 262144)) (char_of (128 + r div 4096 mod 64))
        (char_of (128 + r div 64 mod 64)) (char_of (128 + r mod 64))"
      by (intro utf8_4_bytes) simp_all
    with four assms show ?thesis by (simp add: utf8_encode_def chunk_def utf8_lenI(4))
  qed
qed

lemma hex_val_less: "is_hex c \<Longrightarrow> hex_val c < 16"
  by (auto simp: is_hex_def hex_val_def is_digit_def digit_val_def Let_def)

lemma u4_less: "is_hex a \<Longrightarrow> is_hex b \<Longrightarrow> is_hex c \<Longrightarrow> is_hex d \<Longrightarrow> u4 a b c d < 65536"
  using hex_val_less [of a] hex_val_less [of b] hex_val_less [of c] hex_val_less [of d]
  by (simp add: u4_def)

lemma get_u4_less: "get_u4 s = Some (r, s') \<Longrightarrow> r < 65536"
  by (induction s rule: get_u4.induct) (auto simp: u4_less split: if_splits)

lemma simple_escape_ascii: "simple_escape e = Some x \<Longrightarrow> bval x < 128"
  by (auto simp: simple_escape_def split: if_splits)

lemma surrogates: "is_high c \<Longrightarrow> is_low c2 \<Longrightarrow> 65536 + (c - 55296) * 1024 + (c2 - 56320) < 1114112"
  by (auto simp: is_high_def is_low_def)

lemma valid_unquote: "valid_utf8 (unquote s)"
proof (induction s rule: measure_induct_rule [of length])
  case (less s)
  show ?case
  proof (cases s)
    case (Cons a r)
    consider (plain) "a \<noteq> CHR 0x5C" | (simple) "a = CHR 0x5C" "get_u4 s = None"
      | (u4) c s' where "a = CHR 0x5C" "get_u4 s = Some (c, s')"
      by (cases "get_u4 s") auto
    then show ?thesis
    proof cases
      case plain
      then show ?thesis
        using Cons less [of r] less [of "drop (utf8_len s) s"]
        by (cases "utf8_len s = 0")
          (simp_all add: unquote_Cons valid_chunk [OF chunk_replacement] valid_chunk [OF chunk_take])
    next
      case simple
      have "valid_utf8 (x # t) = valid_utf8 t" if "bval x < 128" for x t
        using valid_chunk [OF chunk_ascii_byte [OF that], of t] by simp
      then show ?thesis
        using simple Cons less [of "tl r"]
        by (cases r) (auto simp: unquote_Cons simple_escape_ascii split: option.splits)
    next
      case u4
      have c: "c < 1114112" "length s' < length s" using get_u4_less [OF u4(2)] get_u4_length [OF u4(2)] by auto
      show ?thesis
      proof (cases "if is_high c then get_u4 s' else None")
        case None
        then show ?thesis
          using u4 Cons less [OF c(2)]
          by (simp add: unquote_Cons valid_chunk [OF chunk_encode [OF c(1)]])
      next
        case (Some q)
        obtain c2 s'' where q: "q = (c2, s'')" by force
        have hi: "is_high c" "get_u4 s' = Some (c2, s'')" using Some q by (auto split: if_splits)
        then have "length s'' < length s" using get_u4_length [OF hi(2)] c(2) by simp
        then show ?thesis
          using u4 Cons hi less [of s''] less [OF c(2)]
          by (cases "is_low c2")
            (simp_all add: unquote_Cons valid_chunk [OF chunk_replacement] valid_chunk [OF chunk_encode [OF surrogates]])
      qed
    qed
  qed simp
qed

definition exp_start :: "string \<Rightarrow> bool" where
  "exp_start t \<longleftrightarrow> (case t of [] \<Rightarrow> True | c # _ \<Rightarrow> c = CHR ''e'' \<or> c = CHR ''E'')"

definition no_digit :: "string \<Rightarrow> bool" where
  "no_digit t \<longleftrightarrow> (case t of [] \<Rightarrow> True | c # _ \<Rightarrow> \<not> is_digit c)"

lemma exp_start_no_digit: "exp_start t \<Longrightarrow> no_digit t"
  by (auto simp: exp_start_def no_digit_def is_digit_def split: list.splits)

lemma takeWhile_stop: "list_all P d \<Longrightarrow> (case t of [] \<Rightarrow> True | c # _ \<Rightarrow> \<not> P c) \<Longrightarrow>
    takeWhile P (d @ t) = d \<and> dropWhile P (d @ t) = t"
  by (induction d) (auto split: list.splits)

lemma span_digits_self:
  "list_all is_digit d \<Longrightarrow> no_digit t \<Longrightarrow> span_digits (d @ t) = (d, t)"
  using takeWhile_stop [of is_digit d t] by (simp add: span_digits_def no_digit_def)

lemma digits_takeWhile: "list_all is_digit (takeWhile is_digit s)"
  by (induction s) auto

lemma scan_int_self:
  assumes "scan_int s = Some (i, r)"
  shows "\<exists>c i'. i = c # i' \<and> is_digit c" "no_digit t \<Longrightarrow> scan_int (i @ t) = Some (i, t)"
proof -
  obtain c u where s: "s = c # u" using assms by (cases s) (auto simp: scan_int_def)
  consider (zero) "c = CHR ''0''" "i = [c]" | (digits) "c \<noteq> CHR ''0''" "is_digit c" "i = c # takeWhile is_digit u"
    using assms by (auto simp: s scan_int_def span_digits_def split: if_splits)
  note cases = this
  show "\<exists>c i'. i = c # i' \<and> is_digit c"
    by (rule cases) (auto simp: is_digit_def)
  show "scan_int (i @ t) = Some (i, t)" if "no_digit t"
  proof (rule cases)
    assume "c \<noteq> CHR ''0''" "is_digit c" "i = c # takeWhile is_digit u"
    then show ?thesis
      using span_digits_self [of i t] that digits_takeWhile [of u] by (simp add: scan_int_def)
  qed (simp add: scan_int_def)
qed

lemma scan_frac_self:
  assumes "scan_frac s = Some (f, r)" "exp_start t"
  shows "scan_frac (f @ t) = Some (f, t) \<and> no_digit (f @ t)"
proof (cases f)
  case Nil
  with assms(2) show ?thesis
    by (auto simp: scan_frac_def exp_start_def no_digit_def is_digit_def split: list.splits)
next
  case (Cons c d)
  then obtain u where "s = c # u" "c = CHR ''.''" "d = takeWhile is_digit u" "d \<noteq> []"
    using assms(1) by (auto simp: scan_frac_def span_digits_def split: list.splits if_splits)
  then show ?thesis
    using span_digits_self [of d t] digits_takeWhile [of u] exp_start_no_digit [OF assms(2)] Cons
    by (simp add: scan_frac_def no_digit_def is_digit_def)
qed

lemma scan_exp_self:
  assumes "scan_exp s = Some (e, r)"
  shows "scan_exp e = Some (e, []) \<and> exp_start e"
proof (cases e)
  case Nil
  then show ?thesis by (simp add: scan_exp_def exp_start_def)
next
  case (Cons c d)
  then obtain u where s: "s = c # u" "c = CHR ''e'' \<or> c = CHR ''E''"
    using assms by (cases s) (auto simp: scan_exp_def [of "[]"] scan_exp_Cons split: if_splits prod.splits)
  define g where "g = takeWhile is_digit (snd (scan_sign u))"
  have d: "d = fst (scan_sign u) @ g" "g \<noteq> []" "list_all is_digit g"
    using assms Cons s digits_takeWhile by (auto simp: scan_exp_Cons span_digits_def g_def split: if_splits)
  obtain x g' where g: "g = x # g'" "is_digit x" using d(2,3) by (cases g) auto
  have "scan_sign d = (fst (scan_sign u), g)"
    using g d(1) digit_not_sign [OF g(2)] by (auto simp: scan_sign_def split: list.splits if_splits)
  then show ?thesis
    using s(2) d Cons span_digits_self [OF d(3), of "[]"] by (simp add: scan_exp_Cons exp_start_def no_digit_def)
qed

lemma scan_num_self:
  assumes "scan_num s = Some (n, r)"
  shows "scan_num n = Some (n, [])"
proof -
  obtain i s2 f s3 e where 1: "scan_int (snd (scan_minus s)) = Some (i, s2)" "scan_frac s2 = Some (f, s3)"
    "scan_exp s3 = Some (e, r)" "n = fst (scan_minus s) @ i @ f @ e"
    using assms by (auto simp only: scan_num_eq_Some)
  note e = scan_exp_self [OF 1(3)]
  note f = scan_frac_self [OF 1(2) conjunct2 [OF e]]
  note i = scan_int_self(2) [OF 1(1) conjunct2 [OF f]]
  obtain c i' where c: "i = c # i'" "is_digit c" using scan_int_self(1) [OF 1(1)] by blast
  have "scan_minus n = (fst (scan_minus s), i @ f @ e)"
    using c(1) digit_not_sign [OF c(2)] by (auto simp: 1(4) scan_minus_def split: list.splits if_splits)
  with e f i 1(4) show ?thesis by (simp add: scan_num_eq_Some)
qed

text \<open>Whatever the parser returns is well-formed and nested no deeper than allowed.\<close>

lemma parse_scalar_wf: "parse_scalar c r = Some (v, t) \<Longrightarrow> wf_json v \<and> depth v = 0"
  by (auto simp: parse_scalar_def expect_def valid_unquote scan_num_self split: if_splits)

lemma parse_key_valid: "parse_key s = Some (k, r) \<Longrightarrow> valid_utf8 k"
  by (auto simp: parse_key_def valid_unquote split: option.splits if_splits)

lemma wf_nested:
  "0 < d \<Longrightarrow> list_all (\<lambda>v. wf_json v \<and> depth v \<le> d - 1) vs \<Longrightarrow> wf_json (JArr vs) \<and> depth (JArr vs) \<le> d"
  "0 < d \<Longrightarrow> list_all (\<lambda>(k, v). valid_utf8 k \<and> wf_json v \<and> depth v \<le> d - 1) ms \<Longrightarrow>
   wf_json (JObj ms) \<and> depth (JObj ms) \<le> d"
  using fold_max_le [of "map depth vs" "d - 1" 0] fold_max_le [of "map (\<lambda>(k, v). depth v) ms" "d - 1" 0]
  by (fastforce simp: list_all_iff)+

lemma parse_wf:
  "parse_value d s = Some (v, r) \<Longrightarrow> wf_json v \<and> depth v \<le> d"
  "parse_elems d s = Some (vs, r) \<Longrightarrow> list_all (\<lambda>v. wf_json v \<and> depth v \<le> d) vs"
  "parse_members d s = Some (ms, r) \<Longrightarrow> list_all (\<lambda>(k, v). valid_utf8 k \<and> wf_json v \<and> depth v \<le> d) ms"
proof (induction d s and d s and d s arbitrary: v r and vs r and ms r
    rule: parse_value_parse_elems_parse_members.induct)
  case (1 d s)
  then show ?case
    using wf_nested [of d]
    by (auto simp: parse_value.simps [of d s] simp del: wf_json.simps depth.simps dest!: parse_scalar_wf
        split: option.splits if_splits)
next
  case (2 d s)
  then show ?case
    by (auto simp: parse_elems.simps [of d s] split: option.splits if_splits)
next
  case (3 d s)
  then show ?case
    by (auto simp: parse_members.simps [of d s] dest!: parse_key_valid split: option.splits if_splits)
qed

end
