(* ===== verification/Status.thy ===== *)
theory Status
  imports Filesystem Telemetry Json_Roundtrip
begin

text \<open>
  Status reports (\<open>main/status.go\<close>, \<open>main/reportstatus.go\<close>): the report and its JSON text, the
  save by temporary file and rename, and the two reporting functions.  \<open>Save\<close> returns the error
  and every state of the file system it passes through, so that what an observer can see is part
  of the statement.  The locale \<open>status_store\<close> is what the commands rely on.
\<close>

section \<open>Reports\<close>

datatype StatusType = StatusTransitioning | StatusWarning | StatusError | StatusSuccess

fun status_text :: "StatusType \<Rightarrow> string" where
  "status_text StatusTransitioning = ''transitioning''"
| "status_text StatusWarning = ''warning''"
| "status_text StatusError = ''error''"
| "status_text StatusSuccess = ''success''"

record FormattedMessage =
  fm_Lang :: string
  fm_Message :: string

record SubstatusItem =
  ss_Name :: string
  ss_Status :: StatusType
  ss_FormattedMessage :: FormattedMessage

record StatusBody =
  st_Operation :: string
  st_ConfigurationAppliedTimeUTC :: string
  st_Status :: StatusType
  st_FormattedMessage :: FormattedMessage
  st_SubstatusList :: "SubstatusItem list"

record StatusItem =
  si_Version :: string
  si_TimestampUTC :: string
  si_Status :: StatusBody

type_synonym StatusReport = "StatusItem list"

text \<open>\<open>now\<close> is the formatted current time; the version is the JSON text of \<open>1.0\<close>.\<close>

definition NewStatus :: "string \<Rightarrow> StatusType \<Rightarrow> string \<Rightarrow> string \<Rightarrow> StatusReport" where
  "NewStatus now t operation message =
     [\<lparr>si_Version = ''1'', si_TimestampUTC = now,
       si_Status = \<lparr>st_Operation = operation, st_ConfigurationAppliedTimeUTC = now, st_Status = t,
                    st_FormattedMessage = \<lparr>fm_Lang = ''en'', fm_Message = message\<rparr>,
                    st_SubstatusList = []\<rparr>\<rparr>]"

definition NewSubstatus :: "string \<Rightarrow> StatusType \<Rightarrow> string \<Rightarrow> SubstatusItem" where
  "NewSubstatus name t message =
     \<lparr>ss_Name = name, ss_Status = t,
      ss_FormattedMessage = \<lparr>fm_Lang = ''en'', fm_Message = message\<rparr>\<rparr>"

definition add_item :: "SubstatusItem \<Rightarrow> StatusItem \<Rightarrow> StatusItem" where
  "add_item s i =
     i\<lparr>si_Status := (si_Status i)\<lparr>st_SubstatusList := st_SubstatusList (si_Status i) @ [s]\<rparr>\<rparr>"

definition AddSubstatusItem :: "StatusReport \<Rightarrow> SubstatusItem \<Rightarrow> StatusReport" where
  "AddSubstatusItem r s = (case r of [] \<Rightarrow> [] | i # is \<Rightarrow> add_item s i # is)"

definition AddSubstatus :: "StatusReport \<Rightarrow> StatusType \<Rightarrow> string \<Rightarrow> string \<Rightarrow> StatusReport" where
  "AddSubstatus r t name message =
     (case r of
        [] \<Rightarrow> []
      | i # is \<Rightarrow>
          add_item \<lparr>ss_Name = name, ss_Status = t,
                    ss_FormattedMessage = \<lparr>fm_Lang = ''en'', fm_Message = message\<rparr>\<rparr> i # is)"

section \<open>JSON text\<close>

definition json_message :: "FormattedMessage \<Rightarrow> json" where
  "json_message m = JObj [(''lang'', JStr (fm_Lang m)), (''message'', JStr (fm_Message m))]"

definition json_substatus :: "SubstatusItem \<Rightarrow> json" where
  "json_substatus s =
     JObj [(''name'', JStr (ss_Name s)), (''status'', JStr (status_text (ss_Status s))),
           (''formattedMessage'', json_message (ss_FormattedMessage s))]"

definition json_body :: "StatusBody \<Rightarrow> json" where
  "json_body b =
     JObj ([(''operation'', JStr (st_Operation b)),
            (''configurationAppliedTime'', JStr (st_ConfigurationAppliedTimeUTC b)),
            (''status'', JStr (status_text (st_Status b))),
            (''formattedMessage'', json_message (st_FormattedMessage b))]
           @ (if st_SubstatusList b = [] then []
              else [(''substatus'', JArr (map json_substatus (st_SubstatusList b)))]))"

definition json_report :: "StatusReport \<Rightarrow> json" where
  "json_report r =
     JArr (map (\<lambda>i. JObj [(''version'', JNum (si_Version i)), (''timestampUTC'', JStr (si_TimestampUTC i)),
                           (''status'', json_body (si_Status i))]) r)"

definition marshal :: "StatusReport \<Rightarrow> string result" where
  "marshal r = Inr (marshal_indent 0 (json_report r))"

definition StatusReport_String :: "StatusReport \<Rightarrow> string" where
  "StatusReport_String r = marshal_indent 0 (json_report r)"

section \<open>Saving\<close>

definition status_file :: "uint \<Rightarrow> string" where
  "status_file seqNum = Utoa seqNum @ ''.status''"

definition status_path :: "string \<Rightarrow> uint \<Rightarrow> string" where
  "status_path folder seqNum = path_Join [folder, status_file seqNum]"

definition Save :: "string \<Rightarrow> uint \<Rightarrow> string list \<Rightarrow> StatusReport \<Rightarrow> fs \<Rightarrow> go_error option \<times> fs list" where
  "Save folder seqNum rnds r w =
     (let path = status_path folder seqNum in
      case TempFile folder (status_file seqNum) rnds w of
        (Inl e, w1) \<Rightarrow> (Some (Errorf (''status: failed to create temporary file: '' @ Error e)), [w1])
      | (Inr tmp, w1) \<Rightarrow>
          (case marshal r of
             Inl e \<Rightarrow> (Some (Errorf (''status: failed to marshal into json: '' @ Error e)), [w1])
           | Inr b \<Rightarrow>
               (case WriteFile tmp b w1 of
                  (Some e, w2) \<Rightarrow>
                    (Some (Errorf (''status: failed to write to path='' @ tmp @ '' error='' @ Error e)), [w1, w2])
                | (None, w2) \<Rightarrow>
                    (case Rename tmp path w2 of
                       (Some e, w3) \<Rightarrow>
                         (Some (Errorf (''status: failed to move to path='' @ path @ '' error='' @ Error e)),
                          [w1, w2, w3])
                     | (None, w3) \<Rightarrow> (None, [w1, w2, w3])))))"

definition save_status :: "string \<Rightarrow> string list \<Rightarrow> uint \<Rightarrow> StatusReport \<Rightarrow> fs \<Rightarrow> go_error option \<times> fs" where
  "save_status folder rnds seqNum r w = (let (e, ws) = Save folder seqNum rnds r w in (e, last ws))"

section \<open>Reporting\<close>

text \<open>What a command's definition says of reporting (the whole command table is in theory
  \<open>Commands\<close>).\<close>

record cmd_head =
  c_name :: string
  c_shouldReportStatus :: bool

definition statusMsg :: "'c cmd_head_scheme \<Rightarrow> StatusType \<Rightarrow> string \<Rightarrow> string" where
  "statusMsg c t msg =
     (let s = c_name c @
            (case t of
               StatusSuccess \<Rightarrow> '' succeeded''
             | StatusTransitioning \<Rightarrow> '' in progress''
             | StatusError \<Rightarrow> '' failed''
             | StatusWarning \<Rightarrow> [])
      in if msg \<noteq> [] then s @ '': '' @ msg else s)"

text \<open>What the reporting functions take from outside: the formatted time and the random suffixes
  of the temporary file.\<close>

record report_env =
  re_now :: string
  re_rnds :: "string list"

definition reportStatus ::
  "report_env \<Rightarrow> string \<Rightarrow> uint \<Rightarrow> StatusType \<Rightarrow> 'c cmd_head_scheme \<Rightarrow> string \<Rightarrow> fs
   \<Rightarrow> go_error option \<times> event list \<times> fs" where
  "reportStatus env folder seqNum t c msg w =
     (if \<not> c_shouldReportStatus c then (None, [], w)
      else
        let s = NewStatus (re_now env) t (c_name c) (statusMsg c t msg) in
        case save_status folder (re_rnds env) seqNum s w of
          (Some e, w') \<Rightarrow>
            (Some (Wrap e ''failed to save handler status''),
             [(ErrorEvent, ReportStatusTask, ''failed to save handler status: '' @ StatusReport_String s)], w')
        | (None, w') \<Rightarrow>
            (None, [(InfoEvent, ReportStatusTask, ''saved handler status: '' @ StatusReport_String s)], w'))"

definition reportStatusWithSubstatuses ::
  "report_env \<Rightarrow> string \<Rightarrow> uint \<Rightarrow> StatusType \<Rightarrow> string \<Rightarrow> string \<Rightarrow> SubstatusItem list \<Rightarrow> fs
   \<Rightarrow> go_error option \<times> event list \<times> fs" where
  "reportStatusWithSubstatuses env folder seqNum t op msg substatuses w =
     (let s = foldl AddSubstatusItem (NewStatus (re_now env) t op msg) substatuses in
      case save_status folder (re_rnds env) seqNum s w of
        (Some e, w') \<Rightarrow>
          (Some (Wrap e ''failed to save handler status''),
           [(ErrorEvent, ReportStatusTask, ''failed to save handler status: '' @ StatusReport_String s)], w')
      | (None, w') \<Rightarrow> (None, [], w'))"

section \<open>The report that is built\<close>

lemma foldl_AddSubstatusItem:
  "foldl AddSubstatusItem [i] ss =
     [i\<lparr>si_Status := (si_Status i)\<lparr>st_SubstatusList := st_SubstatusList (si_Status i) @ ss\<rparr>\<rparr>]"
  by (induction ss arbitrary: i) (simp_all add: AddSubstatusItem_def add_item_def)

lemma AddSubstatus_eq: "AddSubstatus r t n m = AddSubstatusItem r (NewSubstatus n t m)"
  by (simp add: AddSubstatus_def AddSubstatusItem_def NewSubstatus_def split: list.split)

section \<open>Saving: the temporary file is never the status file\<close>

definition random_suffixes :: "string list \<Rightarrow> bool" where
  "random_suffixes rnds \<longleftrightarrow> list_all all_digits rnds"

lemma string_of_nat_chars: "c \<in> set (string_of_nat n) \<Longrightarrow> is_digit c"
  using string_of_nat_digits [of n] by (auto simp: list_all_iff)

lemma plain_status_file [simp]: "plain_name (status_file n)"
proof -
  have "CHR ''/'' \<notin> set (Utoa n)"
    using string_of_nat_chars [of "CHR ''/''"] by (auto simp: Utoa_def is_digit_def)
  then show ?thesis by (simp add: plain_name_def status_file_def)
qed

lemma status_file_inject [simp]: "status_file m = status_file n \<longleftrightarrow> m = n"
  by (simp add: status_file_def)

lemma status_path_inject [simp]: "status_path d m = status_path d n \<longleftrightarrow> m = n"
  by (simp add: status_path_def path_Join_inject)

lemma last_Join_snoc: "f \<noteq> [] \<Longrightarrow> last (Join (cs @ [f]) sep) = last f"
proof (induction cs rule: induct_list012)
  case (2 c)
  then show ?case by simp
next
  case (3 c d cs)
  then have "last (Join ((d # cs) @ [f]) sep) = last f" "Join ((d # cs) @ [f]) sep \<noteq> []"
    using Join_snoc_nonempty [of f "d # cs" sep] by auto
  then show ?case by simp
qed simp

lemma last_after_last_slash:
  assumes "after_last_slash p \<noteq> []"
  shows "last p = last (after_last_slash p)"
proof -
  have "Join (butlast (Split p (CHR ''/'')) @ [after_last_slash p]) ''/'' = p"
    by (simp add: after_last_slash_def Join_Split)
  then show ?thesis
    using last_Join_snoc [OF assms, of "butlast (Split p (CHR ''/''))" "''/''"] by simp
qed

lemma last_status_path: "last (status_path d n) = CHR ''s''"
proof -
  have "after_last_slash (status_path d n) = status_file n"
    by (simp add: status_path_def)
  moreover have "last (status_file n) = CHR ''s''" "status_file n \<noteq> []"
    by (simp_all add: status_file_def)
  ultimately show ?thesis using last_after_last_slash [of "status_path d n"] by simp
qed

lemma first_free_suffix: "first_free w pre rs = Some p \<Longrightarrow> \<exists>r \<in> set rs. p = pre @ r"
  by (induction rs) (auto split: if_splits)

lemma temp_not_status:
  assumes "TempFile d pat rnds w = (Inr tmp, w1)" "random_suffixes rnds"
  shows "tmp \<noteq> status_path e n"
proof -
  obtain r pre where r: "r \<in> set rnds" "tmp = pre @ r"
    using assms(1) by (auto simp: TempFile_def dest: first_free_suffix split: option.splits)
  with assms(2) have "all_digits r" by (simp add: random_suffixes_def list_all_iff)
  then have "r \<noteq> []" "is_digit (last r)"
    by (auto simp: all_digits_def list_all_iff)
  with r have "is_digit (last tmp)" by simp
  moreover have "\<not> is_digit (CHR ''s'')" by (simp add: is_digit_def)
  ultimately show ?thesis using last_status_path [of e n] by metis
qed

lemma Save_cases [consumes 1, case_names tempfile written rename ok]:
  assumes "Save d n rnds r w = (e, ws)"
  obtains
    (tempfile) e0 where "e = Some e0" "ws = [w]"
  | (written) e0 tmp part where "e = Some e0" "files w tmp = None"
      "TempFile d (status_file n) rnds w = (Inr tmp, put_file tmp [] w)"
      "ws = [put_file tmp [] w, put_file tmp part (put_file tmp [] w)]"
  | (rename) e0 tmp w2 where "e = Some e0" "files w tmp = None"
      "TempFile d (status_file n) rnds w = (Inr tmp, put_file tmp [] w)"
      "w2 = put_file tmp (StatusReport_String r) (put_file tmp [] w)" "ws = [put_file tmp [] w, w2, w2]"
  | (ok) tmp w2 where "e = None" "files w tmp = None"
      "TempFile d (status_file n) rnds w = (Inr tmp, put_file tmp [] w)"
      "w2 = put_file tmp (StatusReport_String r) (put_file tmp [] w)"
      "ws = [put_file tmp [] w, w2, put_file (status_path d n) (StatusReport_String r) (del_file tmp w2)]"
proof (cases "TempFile d (status_file n) rnds w")
  case (Pair rt w1)
  then show ?thesis
  proof (cases rule: TempFile_cases)
    case (err e0)
    with Pair assms show ?thesis by (auto simp: Save_def intro: tempfile)
  next
    case (ok tmp)
    note T = Pair [unfolded ok(1,2)]
    show ?thesis
    proof (cases "write_fault w tmp")
      case (Some f)
      obtain m part where "f = (m, part)" by force
      with Some T assms ok(3) show ?thesis
        by (auto simp: Save_def marshal_def WriteFile_def intro: written)
    next
      case None
      then show ?thesis
        using T assms ok(3) rename [OF _ ok(3) T refl] that(4) [OF _ ok(3) T refl]
        by (auto simp: Save_def marshal_def WriteFile_def Rename_def StatusReport_String_def Let_def
            split: option.splits)
    qed
  qed
qed

section \<open>The interface\<close>

text \<open>Saving several reports one after the other; the first component says which succeeded.\<close>

fun save_all :: "('r \<Rightarrow> 'w \<Rightarrow> go_error option \<times> 'w) \<Rightarrow> 'r list \<Rightarrow> 'w \<Rightarrow> bool list \<times> 'w" where
  "save_all sv [] w = ([], w)"
| "save_all sv (r # rs) w =
     (case sv r w of (e, w1) \<Rightarrow> (case save_all sv rs w1 of (oks, w2) \<Rightarrow> ((e = None) # oks, w2)))"

locale status_store =
  fixes save :: "uint \<Rightarrow> 'r \<Rightarrow> 'w \<Rightarrow> go_error option \<times> 'w"
    and lookup :: "uint \<Rightarrow> 'w \<Rightarrow> string option"
    and render :: "'r \<Rightarrow> string"
  assumes lookup_save_ok: "save n r w = (None, w') \<Longrightarrow> lookup n w' = Some (render r)"
    and lookup_save_err: "save n r w = (Some e, w') \<Longrightarrow> lookup n w' = lookup n w"
    and lookup_save_other: "save n r w = (res, w') \<Longrightarrow> m \<noteq> n \<Longrightarrow> lookup m w' = lookup m w"
begin

lemma save_lookup:
  "save n r w = (e, w') \<Longrightarrow> lookup n w' = (if e = None then Some (render r) else lookup n w)"
  by (cases e) (auto dest: lookup_save_ok lookup_save_err)

lemma last_success_wins:
  "save_all (save n) rs w = (oks, w') \<Longrightarrow>
   lookup n w' = foldl (\<lambda>c (ok, r). if ok then Some (render r) else c) (lookup n w) (zip oks rs)"
proof (induction rs arbitrary: w oks)
  case (Cons r rs)
  then show ?case by (auto dest!: save_lookup split: prod.splits)
qed simp

end

lemma Save_last:
  assumes "Save d n rnds r w = (e, ws)" "random_suffixes rnds"
  shows "files (last ws) (status_path d m) =
    (if e = None \<and> m = n then Some (StatusReport_String r) else files w (status_path d m))"
  using assms(1)
proof (cases rule: Save_cases)
  case (tempfile e0)
  then show ?thesis by simp
next
  case (written e0 tmp part)
  then show ?thesis using temp_not_status [OF written(3) assms(2), of d m] by auto
next
  case (rename e0 tmp w2)
  then show ?thesis using temp_not_status [OF rename(3) assms(2), of d m] by auto
next
  case (ok tmp w2)
  then show ?thesis using temp_not_status [OF ok(3) assms(2), of d m] by auto
qed

text \<open>The status folder as a store, for runs that draw their suffixes from a list of decimal
  numbers.\<close>

definition folder_lookup :: "string \<Rightarrow> uint \<Rightarrow> fs \<Rightarrow> string option" where
  "folder_lookup d n w = files w (status_path d n)"

definition decimal_suffixes :: "nat list \<Rightarrow> string list" where
  "decimal_suffixes ns = map string_of_nat ns"

lemma random_decimal_suffixes [simp]: "random_suffixes (decimal_suffixes ns)"
  by (simp add: random_suffixes_def decimal_suffixes_def list_all_iff)

lemma save_status_lookup:
  assumes "save_status d rnds n r w = (e, w')" "random_suffixes rnds"
  shows "folder_lookup d m w' = (if e = None \<and> m = n then Some (StatusReport_String r) else folder_lookup d m w)"
proof -
  obtain ws where "Save d n rnds r w = (e, ws)" "w' = last ws"
    using assms(1) by (auto simp: save_status_def split: prod.splits)
  then show ?thesis using Save_last [OF _ assms(2)] by (simp add: folder_lookup_def)
qed

interpretation status_dir: status_store "save_status d (decimal_suffixes ns)" "folder_lookup d"
  StatusReport_String for d ns
  by unfold_locales (simp_all add: save_status_lookup [OF _ random_decimal_suffixes])

section \<open>The text determines the report\<close>

definition valid_message :: "FormattedMessage \<Rightarrow> bool" where
  "valid_message m \<longleftrightarrow> valid_utf8 (fm_Lang m) \<and> valid_utf8 (fm_Message m)"

definition valid_substatus :: "SubstatusItem \<Rightarrow> bool" where
  "valid_substatus s \<longleftrightarrow> valid_utf8 (ss_Name s) \<and> valid_message (ss_FormattedMessage s)"

definition valid_item :: "StatusItem \<Rightarrow> bool" where
  "valid_item i \<longleftrightarrow>
     scan_num (si_Version i) = Some (si_Version i, []) \<and> valid_utf8 (si_TimestampUTC i) \<and>
     (let b = si_Status i in
      valid_utf8 (st_Operation b) \<and> valid_utf8 (st_ConfigurationAppliedTimeUTC b) \<and>
      valid_message (st_FormattedMessage b) \<and> list_all valid_substatus (st_SubstatusList b))"

lemma wf_ascii [simp]: "valid_utf8 (status_text t)"
  by (cases t) (simp_all add: valid_utf8.simps utf8_len_def utf8_1_def)

lemma wf_field_names [simp]:
  "valid_utf8 ''lang''" "valid_utf8 ''message''" "valid_utf8 ''name''" "valid_utf8 ''status''"
  "valid_utf8 ''formattedMessage''" "valid_utf8 ''operation''" "valid_utf8 ''configurationAppliedTime''"
  "valid_utf8 ''substatus''" "valid_utf8 ''version''" "valid_utf8 ''timestampUTC''"
  by (simp_all add: valid_utf8.simps utf8_len_def utf8_1_def)

lemma wf_json_substatus: "valid_substatus s \<Longrightarrow> wf_json (json_substatus s)"
  by (simp add: valid_substatus_def valid_message_def json_substatus_def json_message_def)

lemma wf_json_report: "list_all valid_item r \<Longrightarrow> wf_json (json_report r)"
  by (induction r)
    (auto simp: json_report_def valid_item_def json_body_def json_message_def valid_message_def Let_def
      list_all_iff wf_json_substatus)

lemma depth_json_body: "depth (json_body b) \<le> 4"
proof -
  have "depth (JArr (map json_substatus ss)) \<le> 3" for ss
    using fold_max_le [of "map (depth \<circ> json_substatus) ss" 2 0]
    by (auto simp: json_substatus_def json_message_def)
  then show ?thesis by (auto simp: json_body_def json_message_def simp del: depth.simps(1))
qed

lemma depth_json_report: "depth (json_report r) \<le> maxNestingDepth"
proof -
  have "fold max (map depth (map (\<lambda>i. JObj [(''version'', JNum (si_Version i)),
      (''timestampUTC'', JStr (si_TimestampUTC i)), (''status'', json_body (si_Status i))]) r)) 0 \<le> 5"
    by (rule fold_max_le) (use depth_json_body in \<open>auto simp: max_def\<close>)
  then show ?thesis by (simp add: json_report_def maxNestingDepth_def)
qed

lemma status_text_inject [simp]: "status_text a = status_text b \<longleftrightarrow> a = b"
  by (cases a; cases b) simp_all

lemma json_substatus_inject [simp]: "json_substatus a = json_substatus b \<longleftrightarrow> a = b"
  by (auto simp: json_substatus_def json_message_def)

lemma json_body_inject: "json_body a = json_body b \<Longrightarrow> a = b"
proof -
  have "inj json_substatus" by (rule injI) simp
  then show "json_body a = json_body b \<Longrightarrow> a = b"
    by (cases a, cases b, cases "st_FormattedMessage a", cases "st_FormattedMessage b")
      (auto simp: json_body_def json_message_def split: if_splits dest: map_injective)
qed

lemma json_report_inject: "json_report a = json_report b \<Longrightarrow> a = b"
proof (induction a arbitrary: b)
  case (Cons i a)
  then obtain j b' where b: "b = j # b'" by (cases b) (auto simp: json_report_def)
  with Cons.prems have "i = j"
    by (cases i, cases j) (auto simp: json_report_def dest: json_body_inject)
  with Cons b show ?case by (auto simp: json_report_def)
qed (simp add: json_report_def)

section \<open>Properties\<close>

text \<open>C5: Saving a status report is atomic for whoever reads the status file: in every state
  the save passes through, the file of this sequence number holds what it held before or the
  complete new report, and it holds the new report at the end exactly on success.  No other
  sequence number's file changes, whether the save succeeds or fails.\<close>

theorem Save_atomic:
  assumes "Save d n rnds r w = (e, ws)" "random_suffixes rnds"
  shows "(\<forall>w' \<in> set ws. folder_lookup d n w' = folder_lookup d n w \<or>
            e = None \<and> folder_lookup d n w' = Some (StatusReport_String r)) \<and>
    folder_lookup d n (last ws) = (if e = None then Some (StatusReport_String r) else folder_lookup d n w) \<and>
    (\<forall>w' \<in> set ws. \<forall>m. m \<noteq> n \<longrightarrow> folder_lookup d m w' = folder_lookup d m w)"
  using assms(1)
proof (cases rule: Save_cases)
  case (tempfile e0)
  then show ?thesis by simp
next
  case (written e0 tmp part)
  then show ?thesis using temp_not_status [OF written(3) assms(2), of d] by (auto simp: folder_lookup_def)
next
  case (rename e0 tmp w2)
  then show ?thesis using temp_not_status [OF rename(3) assms(2), of d] by (auto simp: folder_lookup_def)
next
  case (ok tmp w2)
  then show ?thesis using temp_not_status [OF ok(3) assms(2), of d] by (auto simp: folder_lookup_def)
qed

definition sample_report :: StatusReport where
  "sample_report = NewStatus ''2024-01-01T00:00:00Z'' StatusSuccess ''enable'' ''ok''"

theorem Save_atomic_witness:
  "folder_lookup ''/status'' 3 (last (snd (Save ''/status'' 3 [''12''] sample_report (plain_fs []))))
     = Some (StatusReport_String sample_report)"
proof -
  let ?s = "Save ''/status'' 3 [''12''] sample_report (plain_fs [])"
  have "fst ?s = None" by code_simp
  then have "?s = (None, snd ?s)" by (metis prod.collapse)
  moreover have "random_suffixes [''12'']" by code_simp
  ultimately show ?thesis using Save_atomic [of "''/status''" 3 "[''12'']"] by presburger
qed

text \<open>C28: The text of a report whose strings are valid UTF-8 is JSON that parses to the report's own document,
  and no two different such reports have the same text: whoever reads the status file recovers operation,
  status, messages and every substatus.  (Bytes that are not valid UTF-8 are printed as replacement
  characters, and are lost.)\<close>

theorem StatusReport_String_roundtrip:
  assumes "list_all valid_item r"
  shows "parse_json (StatusReport_String r) = Some (json_report r) \<and>
    (\<forall>r'. list_all valid_item r' \<longrightarrow> StatusReport_String r' = StatusReport_String r \<longrightarrow> r' = r)"
proof -
  have "parse_json (StatusReport_String r) = Some (json_report r)" if "list_all valid_item r" for r
    using parse_marshal(2) [OF wf_json_report [OF that] depth_json_report] by (simp add: StatusReport_String_def)
  with assms show ?thesis by (metis json_report_inject option.inject)
qed

theorem StatusReport_String_roundtrip_witness:
  "parse_json (StatusReport_String sample_report) = Some (json_report sample_report)"
proof -
  have "list_all valid_item sample_report" by code_simp
  then show ?thesis using StatusReport_String_roundtrip by blast
qed

end
