(* ===== verification/Commands.thy ===== *)
theory Commands
  imports Process Seqno Status
begin

text \<open>
  The sub-commands (\<open>main/cmds.go\<close>) except the body of \<open>enable\<close>: the command table, \<open>install\<close>,
  \<open>uninstall\<close>, \<open>noop\<close>, and the precondition of \<open>enable\<close> with its idempotency check, which decides
  whether this process runs, takes over from an unresponsive one or leaves the field.
\<close>

section \<open>The command table\<close>

datatype cmd_fun = F_install | F_uninstall | F_enable | F_noop

record cmd = cmd_head +
  c_f :: cmd_fun
  c_pre :: bool  \<comment> \<open>runs \<open>enablePre\<close> first\<close>
  c_failExitCode :: int

definition mk_cmd :: "cmd_fun \<Rightarrow> string \<Rightarrow> bool \<Rightarrow> bool \<Rightarrow> int \<Rightarrow> cmd" where
  "mk_cmd f name rep pre code =
     \<lparr>c_name = name, c_shouldReportStatus = rep, c_f = f, c_pre = pre, c_failExitCode = code\<rparr>"

definition cmdInstall :: cmd where "cmdInstall = mk_cmd F_install ''Install'' False False 52"
definition cmdEnable :: cmd where "cmdEnable = mk_cmd F_enable ''Enable'' True True 3"
definition cmdUninstall :: cmd where "cmdUninstall = mk_cmd F_uninstall ''Uninstall'' False False 3"

definition cmds :: "(string \<times> cmd) list" where
  "cmds = [(''install'', cmdInstall), (''uninstall'', cmdUninstall), (''enable'', cmdEnable),
     (''update'', mk_cmd F_noop ''Update'' True False 3), (''disable'', mk_cmd F_noop ''Disable'' True False 3)]"

definition fullName :: string where "fullName = ''Microsoft.ManagedServices.ApplicationHealthLinux''"
definition dataDir :: string where "dataDir = ''/var/lib/waagent/apphealth''"
definition statusMessage :: string where "statusMessage = ''Successfully polling for application health''"

definition errTerminated :: go_error where
  "errTerminated = Sentinel ''Application health process terminated''"
definition errIdempotentExit :: go_error where
  "errIdempotentExit = Sentinel ''idempotent exit: healthy process already running with current configuration''"
definition errSuperseded :: go_error where
  "errSuperseded = Sentinel ''process superseded by newer sequence number''"

section \<open>Simple commands\<close>

type_synonym cmd_result = "string \<times> go_error option"

definition noop :: "'w run \<Rightarrow> cmd_result \<times> 'w run" where
  "noop r = (([], None), r)"

definition install :: "'w os \<Rightarrow> 'w run \<Rightarrow> cmd_result \<times> 'w run" where
  "install ops r =
     (case os_mkdirAll ops dataDir (r_world r) of
        (Some e, w) \<Rightarrow> (([], Some (Wrap e ''failed to create data dir'')), r\<lparr>r_world := w\<rparr>)
      | (None, w) \<Rightarrow>
          (([], None),
           emit [app_event InfoEvent ''Created data dir'', app_event InfoEvent ''Handler successfully installed'']
             (r\<lparr>r_world := w\<rparr>)))"

definition uninstall :: "'w os \<Rightarrow> 'w run \<Rightarrow> cmd_result \<times> 'w run" where
  "uninstall ops r0 =
     (let r = emit [app_event InfoEvent ''Removing data dir''] r0 in
      case os_removeAll ops dataDir (r_world r) of
        (Some e, w) \<Rightarrow> (([], Some (Wrap e ''failed to delete data dir'')), r\<lparr>r_world := w\<rparr>)
      | (None, w) \<Rightarrow>
          (([], None),
           emit [app_event InfoEvent ''Successfully removed data dir'',
                 app_event InfoEvent ''Handler successfully uninstalled''] (r\<lparr>r_world := w\<rparr>)))"

section \<open>The precondition of enable\<close>

text \<open>The process's surroundings: the operating system, the directory of the executable and
  \<open>os.Args[0]\<close>, the value of \<open>HANDLER_LOG_LAST_WRITE_TIME\<close>, the clock reading of the freshness check
  and the text of a time.\<close>

record 'w cmd_env =
  ce_os :: "'w os"
  ce_cwd :: work_dir
  ce_args0 :: string
  ce_logTime :: string
  ce_now :: go_time
  ce_fmt :: "go_time \<Rightarrow> string"

definition appHealthBinaryName :: "string \<Rightarrow> string" where
  "appHealthBinaryName args0 =
     (if Contains args0 AppHealthBinaryNameArm64 then AppHealthBinaryNameArm64 else AppHealthBinaryNameAmd64)"

definition AppHealthLogFileStaleThresholdInMinutes :: int where
  "AppHealthLogFileStaleThresholdInMinutes = 6"

definition fmt_pids :: "int list \<Rightarrow> string" where
  "fmt_pids pids = ''['' @ Join (map Itoa pids) '' '' @ '']''"

text \<open>The events of the check.\<close>

definition ev_not_executing :: "string \<Rightarrow> event list" where
  "ev_not_executing name =
     [app_event InfoEvent (''IsHandlerStillExecuting: Process Name='' @ [CHR 0x27] @ name @ [CHR 0x27] @ '', result=False'')]"

definition ev_still_executing :: "string \<Rightarrow> int list \<Rightarrow> event list" where
  "ev_still_executing name pids =
     [app_event InfoEvent (''IsHandlerStillExecuting: Process Name='' @ [CHR 0x27] @ name @ [CHR 0x27]
        @ '', PIDs='' @ fmt_pids pids @ '', result=True'')]"

definition ev_log_unknown :: "go_error \<Rightarrow> int \<Rightarrow> event list" where
  "ev_log_unknown e me =
     [app_event WarningEvent (''Could not determine log file last write time: '' @ Error e
        @ ''. Existing process appears unresponsive. PID '' @ Itoa me @ '' taking over execution.'')]"

definition ev_log_fresh :: "string \<Rightarrow> uint \<Rightarrow> int \<Rightarrow> event list" where
  "ev_log_fresh upd seqNum me =
     [app_event InfoEvent (''Existing process log file was fresh at startup. Last update: '' @ upd @ '' UTC.''),
      app_event InfoEvent (''Another instance of AppHealthExtension is already running with the same sequence number (''
        @ Utoa seqNum @ '') and is responsive. PID '' @ Itoa me @ '' exiting to maintain idempotency.'')]"

definition ev_log_stale :: "string \<Rightarrow> uint \<Rightarrow> int \<Rightarrow> event list" where
  "ev_log_stale upd seqNum me =
     [app_event WarningEvent (''Existing process log file was stale at startup. Last update: '' @ upd
        @ '' UTC, Threshold: '' @ Itoa AppHealthLogFileStaleThresholdInMinutes @ '' minutes. Process may be stuck.''),
      app_event WarningEvent (''Another instance of AppHealthExtension exists with the same sequence number (''
        @ Utoa seqNum @ '') but appears unresponsive (log file stale). PID '' @ Itoa me @ '' taking over execution.'')]"

definition checkIdempotency ::
  "'w cmd_env \<Rightarrow> uint \<Rightarrow> uint \<Rightarrow> int list \<Rightarrow> 'w run \<Rightarrow> bool \<times> 'w run" where
  "checkIdempotency env seqNum mrSeqNum existingPids r =
     (let name = appHealthBinaryName (ce_args0 env); me = os_getpid (ce_os env) in
      if seqNum \<noteq> mrSeqNum then (False, r)
      else if existingPids = [] then (False, emit (ev_not_executing name) r)
      else
        let r1 = emit (ev_still_executing name existingPids) r in
        case getLogFileLastWriteTimeFromEnv (ce_logTime env) of
          Inl e \<Rightarrow> (False, killProcesses (ce_os env) existingPids (emit (ev_log_unknown e me) r1))
        | Inr lastUpdate \<Rightarrow>
            (let threshold = imul64 AppHealthLogFileStaleThresholdInMinutes minute;
                 logFresh = time_Sub (ce_now env) lastUpdate < threshold in
             if logFresh then (True, emit (ev_log_fresh (ce_fmt env lastUpdate) seqNum me) r1)
             else
               (False, killProcesses (ce_os env) existingPids
                  (emit (ev_log_stale (ce_fmt env lastUpdate) seqNum me) r1))))"

definition ev_discover_failed :: "go_error \<Rightarrow> event list" where
  "ev_discover_failed e = [app_event WarningEvent (''Failed to discover existing processes: '' @ Error e)]"

definition ev_several :: "int list \<Rightarrow> event list" where
  "ev_several pids =
     [app_event WarningEvent (''Found '' @ string_of_nat (length pids) @ '' existing AHE processes (PIDs: ''
        @ fmt_pids pids @ ''). Expected at most 1.'')]"

definition ev_killing :: "int list \<Rightarrow> uint \<Rightarrow> uint \<Rightarrow> event list" where
  "ev_killing pids mrSeqNum seqNum =
     [app_event InfoEvent (''Killing existing processes PIDs='' @ fmt_pids pids
        @ '' from previous sequence number '' @ Utoa mrSeqNum @ '', new sequence number '' @ Utoa seqNum)]"

definition err_newer :: "uint \<Rightarrow> uint \<Rightarrow> go_error" where
  "err_newer mrSeqNum seqNum =
     Errorf (''most recent sequence number '' @ Utoa mrSeqNum
       @ '' is greater than the requested sequence number '' @ Utoa seqNum)"

definition discover :: "'w cmd_env \<Rightarrow> 'w run \<Rightarrow> int list \<times> 'w run" where
  "discover env r0 =
     (case findExistingProcesses (ce_os env) r0 of
        (Inl e, r) \<Rightarrow> ([], emit (ev_discover_failed e) r)
      | (Inr pids, r) \<Rightarrow>
          (pids,
           if length pids > 1
           then emit (ev_several pids) r
           else r))"

text \<open>The precondition from the moment the recorded number has been read, in its three parts: the decision,
  which may terminate unresponsive instances of the same configuration; the record; and the termination of
  the instances of an older configuration.\<close>

definition enablePre_admit :: "'w cmd_env \<Rightarrow> uint \<Rightarrow> uint \<Rightarrow> 'w run \<Rightarrow> int list result \<times> 'w run" where
  "enablePre_admit env seqNum mrSeqNum r0 =
     (case discover env r0 of
        (existingPids, r1) \<Rightarrow>
          (case checkIdempotency env seqNum mrSeqNum existingPids r1 of
             (True, r2) \<Rightarrow> (Inl errIdempotentExit, r2)
           | (False, r2) \<Rightarrow>
               if mrSeqNum \<noteq> 0 \<and> seqNum < mrSeqNum then
                 (Inl (err_newer mrSeqNum seqNum), r2)
               else (Inr existingPids, r2)))"

definition enablePre_record :: "'w cmd_env \<Rightarrow> uint \<Rightarrow> 'w run \<Rightarrow> go_error option \<times> 'w run" where
  "enablePre_record env seqNum r =
     (case SetSequenceNumber (ce_cwd env) seqNum (r_fs r) of
        (Some e, w) \<Rightarrow> (Some (Wrap e ''failed to save sequence number''), r\<lparr>r_fs := w\<rparr>)
      | (None, w) \<Rightarrow> (None, r\<lparr>r_fs := w\<rparr>))"

definition enablePre_replace :: "'w cmd_env \<Rightarrow> uint \<Rightarrow> uint \<Rightarrow> int list \<Rightarrow> 'w run \<Rightarrow> 'w run" where
  "enablePre_replace env seqNum mrSeqNum existingPids r =
     (if seqNum > mrSeqNum \<and> existingPids \<noteq> [] then
        killProcesses (ce_os env) existingPids (emit (ev_killing existingPids mrSeqNum seqNum) r)
      else r)"

definition enablePre_from :: "'w cmd_env \<Rightarrow> uint \<Rightarrow> uint \<Rightarrow> 'w run \<Rightarrow> go_error option \<times> 'w run" where
  "enablePre_from env seqNum mrSeqNum r0 =
     (case enablePre_admit env seqNum mrSeqNum r0 of
        (Inl e, r1) \<Rightarrow> (Some e, r1)
      | (Inr existingPids, r1) \<Rightarrow>
          (case enablePre_record env seqNum r1 of
             (Some e, r2) \<Rightarrow> (Some e, r2)
           | (None, r2) \<Rightarrow> (None, enablePre_replace env seqNum mrSeqNum existingPids r2)))"

definition enablePre :: "'w cmd_env \<Rightarrow> uint \<Rightarrow> 'w run \<Rightarrow> go_error option \<times> 'w run" where
  "enablePre env seqNum r0 =
     (case GetCurrentSequenceNumber (ce_cwd env) (r_fs r0) of
        Inl e \<Rightarrow> (Some (Wrap e ''failed to get current sequence number''), r0)
      | Inr mrSeqNum \<Rightarrow> enablePre_from env seqNum mrSeqNum r0)"

section \<open>Facts\<close>

lemma killProcesses_fs [simp]: "r_fs (killProcesses ops pids r) = r_fs r"
  using killProcesses_run [of ops pids r] by blast

definition targets :: "'w run \<Rightarrow> int set" where
  "targets r = fst ` set (signals (r_actions r))"

lemma targets_simps [simp]:
  "targets (emit evs r) = targets r" "targets (r\<lparr>r_fs := w\<rparr>) = targets r"
  by (simp_all add: targets_def)

lemma killProcesses_targets: "targets (killProcesses ops pids r) \<subseteq> targets r \<union> set pids"
  using killProcesses_run [of ops pids r] by (force simp: targets_def)

lemma killProcesses_targets_emit: "targets (killProcesses ops pids (emit evs r)) \<subseteq> targets r \<union> set pids"
  using killProcesses_targets [of ops pids "emit evs r"] by simp

lemma discover_run:
  "discover env r0 = (pids, r) \<Longrightarrow> r_fs r = r_fs r0 \<and> r_actions r = r_actions r0 \<and> os_getpid (ce_os env) \<notin> set pids"
  by (auto simp: discover_def dest!: findExistingProcesses_run split: prod.splits sum.splits)

lemma checkIdempotency_run:
  assumes "checkIdempotency env n m pids r = (b, r')"
  shows "r_fs r' = r_fs r \<and> targets r' \<subseteq> targets r \<union> set pids \<and> (b \<longrightarrow> r_actions r' = r_actions r)"
proof -
  obtain evs where "r' = r \<or> r' = emit evs r \<or> b = False \<and> r' = killProcesses (ce_os env) pids (emit evs r)"
    using assms by (auto simp: checkIdempotency_def Let_def emit_def split: if_splits sum.splits)
  then show ?thesis using killProcesses_targets_emit [of "ce_os env" pids evs r] by auto
qed

text \<open>The decision of the idempotency check.\<close>

definition responsive :: "'w cmd_env \<Rightarrow> bool" where
  "responsive env \<longleftrightarrow>
     (\<exists>t. getLogFileLastWriteTimeFromEnv (ce_logTime env) = Inr t \<and> ce_now env - t < 6 * minute)"

lemma checkIdempotency_iff:
  "fst (checkIdempotency env n m pids r) \<longleftrightarrow> n = m \<and> pids \<noteq> [] \<and> responsive env"
proof -
  have "imul64 AppHealthLogFileStaleThresholdInMinutes minute = 6 * minute"
    by (simp add: AppHealthLogFileStaleThresholdInMinutes_def imul64_def wrap64_def minute_def)
  moreover have "time_Sub t u < 6 * minute \<longleftrightarrow> t - u < 6 * minute" for t u
    by (rule time_Sub_less_iff) (simp_all add: minute_def)
  ultimately show ?thesis
    by (auto simp: checkIdempotency_def responsive_def Let_def split: sum.splits)
qed

section \<open>The abstract decision\<close>

text \<open>What \<open>enable\<close> decides before it starts: leave the field to a responsive instance with the same
  configuration, refuse an older configuration, or run.\<close>

datatype decision = LeaveRunning | RefuseOlder | RunConfig

definition decide :: "uint \<Rightarrow> uint \<Rightarrow> bool \<Rightarrow> bool \<Rightarrow> decision" where
  "decide seqNum mrSeqNum others fresh =
     (if seqNum = mrSeqNum \<and> others \<and> fresh then LeaveRunning
      else if seqNum < mrSeqNum then RefuseOlder
      else RunConfig)"

lemma enablePre_eq:
  assumes "GetCurrentSequenceNumber (ce_cwd env) (r_fs r0) = Inr mr" "discover env r0 = (pids, r1)"
    "checkIdempotency env n mr pids r1 = (b, r2)"
  shows "enablePre env n r0 =
    (case decide n mr (pids \<noteq> []) (responsive env) of
       LeaveRunning \<Rightarrow> (Some errIdempotentExit, r2)
     | RefuseOlder \<Rightarrow> (Some (err_newer mr n), r2)
     | RunConfig \<Rightarrow>
         (case SetSequenceNumber (ce_cwd env) n (r_fs r2) of
            (Some e, w) \<Rightarrow> (Some (Wrap e ''failed to save sequence number''), r2\<lparr>r_fs := w\<rparr>)
          | (None, w) \<Rightarrow>
              (None, if n > mr \<and> pids \<noteq> [] then killProcesses (ce_os env) pids (emit (ev_killing pids mr n) (r2\<lparr>r_fs := w\<rparr>))
                     else r2\<lparr>r_fs := w\<rparr>)))"
proof -
  have "b \<longleftrightarrow> n = mr \<and> pids \<noteq> [] \<and> responsive env"
    using checkIdempotency_iff [of env n mr pids r1] assms(3) by simp
  moreover have "mr \<noteq> 0" if "n < mr" using that by auto
  ultimately show ?thesis
    by (auto simp: enablePre_def enablePre_from_def enablePre_admit_def enablePre_record_def enablePre_replace_def
        assms decide_def Let_def split: prod.splits option.splits bool.splits)
qed

lemma enablePre_parts:
  assumes "enablePre env n r0 = (e, r')" "GetCurrentSequenceNumber (ce_cwd env) (r_fs r0) = Inr mr"
  obtains pids r1 b r2 where "discover env r0 = (pids, r1)" "checkIdempotency env n mr pids r1 = (b, r2)"
    "r_fs r2 = r_fs r0" "targets r2 \<subseteq> targets r0 \<union> set pids" "os_getpid (ce_os env) \<notin> set pids"
    "b \<longrightarrow> r_actions r2 = r_actions r0" "n \<noteq> mr \<longrightarrow> r_actions r2 = r_actions r0"
proof -
  obtain pids r1 where d: "discover env r0 = (pids, r1)" by force
  obtain b r2 where c: "checkIdempotency env n mr pids r1 = (b, r2)" by force
  have "n \<noteq> mr \<longrightarrow> r2 = r1" using c by (auto simp: checkIdempotency_def Let_def)
  then show thesis
    using that [OF d c] discover_run [OF d] checkIdempotency_run [OF c] by (auto simp: targets_def)
qed

lemma enablePre_decision:
  assumes "enablePre env n r0 = (e, r')" "GetCurrentSequenceNumber (ce_cwd env) (r_fs r0) = Inr mr"
    "discover env r0 = (pids, r1)"
  shows "case decide n mr (pids \<noteq> []) (responsive env) of
      LeaveRunning \<Rightarrow> e = Some errIdempotentExit \<and> r_fs r' = r_fs r0 \<and> r_actions r' = r_actions r0
    | RefuseOlder \<Rightarrow> e = Some (err_newer mr n) \<and> r_fs r' = r_fs r0 \<and> r_actions r' = r_actions r0
    | RunConfig \<Rightarrow> mr \<le> n \<and>
        (fst (SetSequenceNumber (ce_cwd env) n (r_fs r0)) = None \<longleftrightarrow> e = None) \<and>
        (e = None \<longrightarrow> r_fs r' = snd (SetSequenceNumber (ce_cwd env) n (r_fs r0)) \<and>
           (mrseq_readable (ce_cwd env) (r_fs r0) \<and> mrseq_representable n \<longrightarrow>
              GetCurrentSequenceNumber (ce_cwd env) (r_fs r') = Inr n))"
proof -
  obtain b r2 where c: "checkIdempotency env n mr pids r1 = (b, r2)" and r2: "r_fs r2 = r_fs r0"
    "b \<longrightarrow> r_actions r2 = r_actions r0" "n \<noteq> mr \<longrightarrow> r_actions r2 = r_actions r0"
    using enablePre_parts [OF assms(1,2)] assms(3) by (metis prod.inject)
  note eq = enablePre_eq [OF assms(2,3) c]
  have b: "b \<longleftrightarrow> n = mr \<and> pids \<noteq> [] \<and> responsive env"
    using checkIdempotency_iff [of env n mr pids r1] c by simp
  show ?thesis
  proof (cases "decide n mr (pids \<noteq> []) (responsive env)")
    case LeaveRunning
    then show ?thesis using assms(1) eq r2 b by (auto simp: decide_def split: if_splits)
  next
    case RefuseOlder
    then show ?thesis using assms(1) eq r2 by (auto simp: decide_def split: if_splits)
  next
    case RunConfig
    then have le: "mr \<le> n" by (auto simp: decide_def not_less split: if_splits)
    obtain se w where se: "SetSequenceNumber (ce_cwd env) n (r_fs r0) = (se, w)" by force
    have "GetCurrentSequenceNumber (ce_cwd env) w = Inr n"
      if "mrseq_readable (ce_cwd env) (r_fs r0)" "mrseq_representable n" "se = None"
      using mrseq.get_store [OF that(1,2)] se that(3) by blast
    then show ?thesis
      using RunConfig le assms(1) eq r2(1) se by (auto split: option.splits if_splits)
  qed
qed

section \<open>Properties\<close>

text \<open>C8: The precondition of \<open>enable\<close> implements the abstract decision.  Left to a responsive
  instance, nothing is signalled and nothing is written.  An older configuration is refused with
  no file changed.  A configuration that runs is not older than the recorded one; it is recorded, and the
  number is the one read back afterwards, or the write fails and so does the command.\<close>

theorem enablePre_refines_decision:
  assumes "enablePre env n r0 = (e, r')" "GetCurrentSequenceNumber (ce_cwd env) (r_fs r0) = Inr mr"
    "discover env r0 = (pids, r1)"
  shows "case decide n mr (pids \<noteq> []) (responsive env) of
      LeaveRunning \<Rightarrow> e = Some errIdempotentExit \<and> r_fs r' = r_fs r0 \<and> r_actions r' = r_actions r0
    | RefuseOlder \<Rightarrow> e = Some (err_newer mr n) \<and> r_fs r' = r_fs r0 \<and> r_actions r' = r_actions r0
    | RunConfig \<Rightarrow> mr \<le> n \<and>
        (fst (SetSequenceNumber (ce_cwd env) n (r_fs r0)) = None \<longleftrightarrow> e = None) \<and>
        (e = None \<longrightarrow> r_fs r' = snd (SetSequenceNumber (ce_cwd env) n (r_fs r0)) \<and>
           (mrseq_readable (ce_cwd env) (r_fs r0) \<and> mrseq_representable n \<longrightarrow>
              GetCurrentSequenceNumber (ce_cwd env) (r_fs r') = Inr n))"
  by (rule enablePre_decision [OF assms])

text \<open>A machine with one other instance and sequence number 3 recorded.\<close>

definition sample_cmd_env :: "proc_table cmd_env" where
  "sample_cmd_env = \<lparr>ce_os = table_os 1, ce_cwd = Inr ''/var/ahe'', ce_args0 = ''/var/ahe/applicationhealth-extension'',
     ce_logTime = ''1700000000'', ce_now = time_Unix 1700000060, ce_fmt = (\<lambda>_. [])\<rparr>"

definition sample_cmd_run :: "proc_table run" where
  "sample_cmd_run = (table_run two_instances)\<lparr>r_fs := plain_fs [(''/var/ahe/mrseq'', ''3'')]\<rparr>"

lemma sample_cmd_facts:
  "GetCurrentSequenceNumber (ce_cwd sample_cmd_env) (r_fs sample_cmd_run) = Inr 3"
  "fst (discover sample_cmd_env sample_cmd_run) = [7]"
  "fst (SetSequenceNumber (ce_cwd sample_cmd_env) 4 (r_fs sample_cmd_run)) = None"
  "decide 3 3 True (fst (checkIdempotency sample_cmd_env 3 3 [7] sample_cmd_run)) = LeaveRunning"
  by code_simp+

lemma sample_readable: "mrseq_readable (ce_cwd sample_cmd_env) (r_fs sample_cmd_run)"
  by (simp add: mrseq_readable_def getMrseqFilePath_def sample_cmd_env_def sample_cmd_run_def plain_fs_def)

theorem enablePre_refines_decision_witness:
  "fst (enablePre sample_cmd_env 3 sample_cmd_run) = Some errIdempotentExit"
proof -
  have fresh: "responsive sample_cmd_env"
    using sample_cmd_facts(4) checkIdempotency_iff [of sample_cmd_env 3 3 "[7]" sample_cmd_run]
    by (auto simp: decide_def split: if_splits)
  obtain e r' where p: "enablePre sample_cmd_env 3 sample_cmd_run = (e, r')" by force
  obtain r1 where d: "discover sample_cmd_env sample_cmd_run = ([7], r1)"
    using sample_cmd_facts(2) by (metis prod.collapse)
  show ?thesis
    using enablePre_refines_decision [OF p sample_cmd_facts(1) d] p fresh by (simp add: decide_def)
qed

text \<open>The recorded sequence number never goes backwards through \<open>enablePre\<close>: if it succeeds,
  the number it records is at least the one recorded before; if it does not reach the write, the
  record is unchanged.\<close>

lemma enablePre_monotone:
  assumes "enablePre env n r0 = (e, r')" "GetCurrentSequenceNumber (ce_cwd env) (r_fs r0) = Inr mr"
    "mrseq_readable (ce_cwd env) (r_fs r0)" "mrseq_representable n"
    "fst (SetSequenceNumber (ce_cwd env) n (r_fs r0)) = None"
  shows "\<exists>k. GetCurrentSequenceNumber (ce_cwd env) (r_fs r') = Inr k \<and> mr \<le> k \<and> (e = None \<longrightarrow> k = n)"
proof -
  obtain pids r1 where d: "discover env r0 = (pids, r1)" by force
  note ref = enablePre_decision [OF assms(1,2) d]
  show ?thesis
    using ref assms(2-5) by (cases "decide n mr (pids \<noteq> []) (responsive env)") auto
qed

text \<open>C20: Whatever it finds, the process never signals itself while it enforces the precondition.\<close>

theorem enablePre_never_self:
  assumes "enablePre env n r0 = (e, r')" "r_actions r0 = []"
  shows "os_getpid (ce_os env) \<notin> targets r'"
proof (cases "GetCurrentSequenceNumber (ce_cwd env) (r_fs r0)")
  case (Inl x)
  with assms show ?thesis by (auto simp: enablePre_def targets_def)
next
  case (Inr mr)
  obtain pids r1 b r2 where d: "discover env r0 = (pids, r1)" "checkIdempotency env n mr pids r1 = (b, r2)"
    "targets r2 \<subseteq> targets r0 \<union> set pids" "os_getpid (ce_os env) \<notin> set pids"
    by (rule enablePre_parts [OF assms(1) Inr]) blast
  then have "os_getpid (ce_os env) \<notin> targets r2" using assms(2) by (auto simp: targets_def)
  moreover have "targets r' \<subseteq> targets r2 \<union> set pids"
    using assms(1) killProcesses_targets_emit [of "ce_os env" pids] unfolding enablePre_eq [OF Inr d(1,2)]
    by (fastforce split: decision.splits prod.splits option.splits if_splits)
  ultimately show ?thesis using d(4) by blast
qed

theorem enablePre_never_self_witness:
  "1 \<notin> targets (snd (enablePre sample_cmd_env 4 sample_cmd_run))"
proof -
  have "r_actions sample_cmd_run = []" "os_getpid (ce_os sample_cmd_env) = 1"
    by (simp_all add: sample_cmd_run_def table_run_def sample_cmd_env_def table_os_def)
  then show ?thesis using enablePre_never_self [of sample_cmd_env 4 sample_cmd_run] by (metis prod.collapse)
qed

end
