(* ===== verification/Schema.thy ===== *)
theory Schema
  imports Json_Roundtrip "HOL-Library.List_Lexorder" "HOL-Library.Char_ord"
begin

text \<open>
  JSON schema validation of the handler settings (\<open>main/schema.go\<close>) over the part of the vendored
  \<open>gojsonschema\<close> package that the two schemas use: types, enumerations, bounds, properties,
  additional properties and array items.

  A generic Go value (\<open>map[string]interface{}\<close> and below) is a \<^typ>\<open>json\<close> whose objects have distinct
  keys and whose numbers carry the text \<open>json.Marshal\<close> writes for the \<open>float64\<close>; a map that may be
  \<open>nil\<close> is an option.  The package walks Go maps, so the order of several errors is not determined
  by the code; the model reports them in the order of the schema.
\<close>

section \<open>Generic values\<close>

type_synonym go_map = "(string \<times> json) list option"

text \<open>\<open>json.Marshal\<close> writes the keys of a map in increasing order.\<close>

fun sort_keys :: "json \<Rightarrow> json" where
  "sort_keys (JArr vs) = JArr (map sort_keys vs)"
| "sort_keys (JObj ms) = JObj (sort_key fst (map (\<lambda>(k, v). (k, sort_keys v)) ms))"
| "sort_keys v = v"

definition marshal_map :: "(string \<times> json) list \<Rightarrow> string" where
  "marshal_map ms = marshal_json (sort_keys (JObj ms))"

definition toJSON :: "go_map \<Rightarrow> string result" where
  "toJSON obj = (case obj of None \<Rightarrow> Inr ''{}'' | Some ms \<Rightarrow> Inr (marshal_map ms))"

section \<open>Schemas\<close>

datatype subSchema =
  SubSchema (types: "string list") (enum: "json list") (minimum: "int option") (maximum: "int option")
    (properties: "(string \<times> subSchema) list") (additionalProperties: bool) (items: "subSchema option")

definition typed :: "string \<Rightarrow> subSchema" where
  "typed t = SubSchema [t] [] None None [] True None"

definition bounded :: "int option \<Rightarrow> int option \<Rightarrow> subSchema" where
  "bounded lo hi = SubSchema [''integer''] [] lo hi [] True None"

definition string_array :: subSchema where
  "string_array = SubSchema [''array''] [] None None [] True (Some (typed ''string''))"

definition object_schema :: "(string \<times> subSchema) list \<Rightarrow> bool \<Rightarrow> subSchema" where
  "object_schema ps add = SubSchema [''object''] [] None None ps add None"

definition signalFilters_schema :: subSchema where
  "signalFilters_schema = object_schema
     [(''enabledTags'', string_array), (''disabledTags'', string_array),
      (''enabledOptionalSignals'', string_array), (''disabledSignals'', string_array)] True"

definition vmWatchSettings_schema :: subSchema where
  "vmWatchSettings_schema = object_schema
     [(''enabled'', typed ''boolean''),
      (''memoryLimitInBytes'', bounded (Some 30000000) None),
      (''maxCpuPercentage'', bounded (Some 1) (Some 100)),
      (''signalFilters'', signalFilters_schema),
      (''parameterOverrides'', typed ''object''),
      (''environmentAttributes'', typed ''object''),
      (''globalConfigUrl'', typed ''string''),
      (''disableConfigReader'', typed ''boolean'')] True"

definition protocol_schema :: subSchema where
  "protocol_schema = SubSchema [''string''] [JStr ''tcp'', JStr ''http'', JStr ''https''] None None [] True None"

definition publicSettingsSchema :: subSchema where
  "publicSettingsSchema = object_schema
     [(''protocol'', protocol_schema),
      (''port'', bounded (Some 1) (Some 65535)),
      (''requestPath'', typed ''string''),
      (''intervalInSeconds'', bounded (Some 5) (Some 60)),
      (''numberOfProbes'', bounded (Some 1) (Some 24)),
      (''gracePeriod'', bounded (Some 5) (Some 14400)),
      (''vmWatchSettings'', vmWatchSettings_schema)] False"

definition protectedSettingsSchema :: subSchema where
  "protectedSettingsSchema = object_schema [] False"

section \<open>Validation\<close>

text \<open>\<open>checkJsonNumber\<close> on a number that \<open>json.Marshal\<close> wrote: the shortest decimal text of the
  \<open>float64\<close> parses as an \<open>int64\<close>.  Magnitudes from 1e21 on and below 1e-6 are written with an
  exponent, and neither they nor their positional text parse.\<close>

definition json_int :: "string \<Rightarrow> int option" where
  "json_int n = (case ParseInt10 n of Inl _ \<Rightarrow> None | Inr i \<Rightarrow> Some i)"

definition type_of :: "json \<Rightarrow> string" where
  "type_of v =
     (case v of
        JNull \<Rightarrow> ''null'' | JBool _ \<Rightarrow> ''boolean'' | JStr _ \<Rightarrow> ''string''
      | JArr _ \<Rightarrow> ''array'' | JObj _ \<Rightarrow> ''object''
      | JNum n \<Rightarrow> if json_int n = None then ''number'' else ''integer'')"

definition type_ok :: "string list \<Rightarrow> json \<Rightarrow> bool" where
  "type_ok ts v \<longleftrightarrow>
     ts = [] \<or> type_of v \<in> set ts \<or> (case v of JNum _ \<Rightarrow> ''number'' \<in> set ts | _ \<Rightarrow> False)"

definition types_String :: "string list \<Rightarrow> string" where
  "types_String ts =
     (case ts of [] \<Rightarrow> ''undefined'' | [t] \<Rightarrow> t | _ \<Rightarrow> ''['' @ Join ts '','' @ '']'')"

text \<open>A context is the path below the root; an error text is the field with its description.\<close>

definition context_field :: "string list \<Rightarrow> string" where
  "context_field ctx = (if ctx = [] then ''(root)'' else Join ctx ''.'')"

definition schema_error :: "string \<Rightarrow> string \<Rightarrow> string" where
  "schema_error field descr = field @ '': '' @ descr"

definition validateCommon :: "string list \<Rightarrow> subSchema \<Rightarrow> json \<Rightarrow> string list" where
  "validateCommon ctx s v =
     (let allowed = map marshal_json (enum s) in
      if allowed \<noteq> [] \<and> marshal_json (sort_keys v) \<notin> set allowed
      then [schema_error (context_field ctx)
              (context_field ctx @ '' must be one of the following: '' @ Join allowed '', '')]
      else [])"

text \<open>The bounds of the two schemas are far below 2^53, where the \<open>float64\<close> of an integer text and the
  integer compare alike.\<close>

definition validateNumber :: "string list \<Rightarrow> subSchema \<Rightarrow> json \<Rightarrow> string list" where
  "validateNumber ctx s v =
     (case v of
        JNum n \<Rightarrow>
          (case json_int n of
             None \<Rightarrow> []
           | Some i \<Rightarrow>
               (case maximum s of
                  Some hi \<Rightarrow>
                    if hi < i
                    then [schema_error (context_field ctx) (''Must be less than or equal to '' @ Itoa hi)] else []
                | None \<Rightarrow> [])
               @ (case minimum s of
                    Some lo \<Rightarrow>
                      if i < lo
                      then [schema_error (context_field ctx) (''Must be greater than or equal to '' @ Itoa lo)] else []
                  | None \<Rightarrow> []))
      | _ \<Rightarrow> [])"

definition validateObject :: "subSchema \<Rightarrow> (string \<times> json) list \<Rightarrow> string list" where
  "validateObject s ms =
     (if additionalProperties s then []
      else map (\<lambda>k. schema_error k (''Additional property '' @ k @ '' is not allowed''))
             (filter (\<lambda>k. k \<notin> fst ` set (properties s)) (map fst ms)))"

lemma subSchema_size_prop: "(p, ps) \<in> set (properties s) \<Longrightarrow> size ps < size s"
proof (cases s)
  case (SubSchema ts en lo hi props add it)
  moreover assume "(p, ps) \<in> set (properties s)"
  ultimately have "size ps \<le> size_list (size_prod (\<lambda>_. 0) size) props"
    by (auto intro: size_list_estimation')
  with SubSchema show ?thesis by simp
qed

lemma subSchema_size_item: "items s = Some it \<Longrightarrow> size it < size s"
  by (cases s) auto

function validateRecursive :: "string list \<Rightarrow> subSchema \<Rightarrow> json \<Rightarrow> string list" where
  "validateRecursive ctx s v =
     (if \<not> type_ok (types s) v
      then [schema_error (context_field ctx)
              (''Invalid type. Expected: '' @ types_String (types s) @ '', given: '' @ type_of v)]
      else
        (case v of
           JArr vs \<Rightarrow>
             (case items s of
                None \<Rightarrow> []
              | Some it \<Rightarrow>
                  concat (map (\<lambda>(i, x). validateRecursive (ctx @ [string_of_nat i]) it x) (enumerate 0 vs)))
             @ validateCommon ctx s v
         | JObj ms \<Rightarrow>
             validateObject s ms @ validateCommon ctx s v
             @ concat (map (\<lambda>(p, ps). case map_of ms p of
                                       None \<Rightarrow> []
                                     | Some x \<Rightarrow> validateRecursive (ctx @ [p]) ps x) (properties s))
         | _ \<Rightarrow> validateNumber ctx s v @ validateCommon ctx s v))"
  by pat_completeness auto
termination
  by (relation "measure (\<lambda>(ctx, s, v). size s)") (auto dest: subSchema_size_prop subSchema_size_item)

declare validateRecursive.simps [simp del]

text \<open>\<open>LoadJSON\<close> decodes the first value of the text.\<close>

definition LoadJSON :: "string \<Rightarrow> json result" where
  "LoadJSON s =
     (case parse_value maxNestingDepth s of
        Some (v, _) \<Rightarrow> Inr v
      | None \<Rightarrow> Inl (Errorf ''invalid character in JSON input''))"

definition validateObjectJSON :: "subSchema \<Rightarrow> string \<Rightarrow> go_error option" where
  "validateObjectJSON schema txt =
     (let txt = (if txt = [] then ''{}'' else txt) in
      case LoadJSON txt of
        Inl e \<Rightarrow> Some e
      | Inr doc \<Rightarrow> (case validateRecursive [] schema doc of [] \<Rightarrow> None | m # _ \<Rightarrow> Some (Errorf m)))"

definition validateSettingsObject :: "string \<Rightarrow> subSchema \<Rightarrow> string \<Rightarrow> go_error option" where
  "validateSettingsObject settingsType schema docJSON =
     (case validateObjectJSON schema docJSON of
        Some e \<Rightarrow> Some (Wrap e (''invalid '' @ settingsType @ '' settings JSON''))
      | None \<Rightarrow> None)"

definition validatePublicSettings :: "string \<Rightarrow> go_error option" where
  "validatePublicSettings txt = validateSettingsObject ''public'' publicSettingsSchema txt"

definition validateProtectedSettings :: "string \<Rightarrow> go_error option" where
  "validateProtectedSettings txt = validateSettingsObject ''protected'' protectedSettingsSchema txt"

definition validateSettingsSchema :: "go_map \<Rightarrow> go_map \<Rightarrow> go_error option" where
  "validateSettingsSchema pub prot =
     (case toJSON pub of
        Inl e \<Rightarrow> Some (Wrap e ''failed to unmarshal public settings into json'')
      | Inr pubJSON \<Rightarrow>
          (case toJSON prot of
             Inl e \<Rightarrow> Some (Wrap e ''failed to unmarshal protected settings into json'')
           | Inr protJSON \<Rightarrow>
               (case validatePublicSettings pubJSON of
                  Some e \<Rightarrow> Some e
                | None \<Rightarrow> validateProtectedSettings protJSON)))"

section \<open>Facts about validation\<close>

text \<open>A generic value as \<open>json.Unmarshal\<close> builds it.\<close>

fun distinct_keys :: "json \<Rightarrow> bool" where
  "distinct_keys (JArr vs) = list_all distinct_keys vs"
| "distinct_keys (JObj ms) = (distinct (map fst ms) \<and> list_all (\<lambda>(k, v). distinct_keys v) ms)"
| "distinct_keys _ = True"

definition generic :: "json \<Rightarrow> bool" where
  "generic v \<longleftrightarrow> wf_json v \<and> distinct_keys v \<and> depth v \<le> maxNestingDepth"

lemma wf_sort_keys: "wf_json v \<Longrightarrow> wf_json (sort_keys v)"
  by (induction v) (auto simp: list_all_iff)

lemma depth_sort_keys: "depth (sort_keys v) \<le> depth v"
proof (induction v)
  case (JArr vs)
  have "depth (sort_keys v) \<le> fold max (map depth vs) 0" if "v \<in> set vs" for v
    using JArr [OF that] that by (force intro: fold_max_mem order_trans)
  then show ?case by (auto intro!: fold_max_le)
next
  case (JObj ms)
  have "depth (sort_keys v) \<le> fold max (map (\<lambda>(k, v). depth v) ms) 0" if "(k, v) \<in> set ms" for k v
  proof -
    have "depth v \<le> fold max (map (\<lambda>(k, v). depth v) ms) 0"
      using that by (force intro: fold_max_mem)
    then show ?thesis using JObj that by (fastforce dest: order_trans)
  qed
  then show ?case by (auto intro!: fold_max_le)
qed simp_all

lemma LoadJSON_marshal:
  assumes "generic v"
  shows "LoadJSON (marshal_json (sort_keys v)) = Inr (sort_keys v)"
proof -
  have "reads_back (\<lambda>_. []) [] maxNestingDepth 0 (sort_keys v)"
    using assms depth_sort_keys [of v] by (intro reads_back_json) (auto simp: generic_def wf_sort_keys)
  then have "parse_value maxNestingDepth (write_json (\<lambda>_. []) [] 0 (sort_keys v) @ []) = Some (sort_keys v, [])"
    unfolding reads_back_def by (metis num_stop_punct(4))
  then show ?thesis by (simp add: LoadJSON_def marshal_json_def)
qed

lemma marshal_nonempty: "marshal_json (sort_keys (JObj ms)) \<noteq> []"
  by (simp add: marshal_json_def)

lemma validateObjectJSON_marshal:
  assumes "generic (JObj ms)"
  shows "validateObjectJSON schema (marshal_map ms) =
    (case validateRecursive [] schema (sort_keys (JObj ms)) of [] \<Rightarrow> None | m # _ \<Rightarrow> Some (Errorf m))"
  using LoadJSON_marshal [OF assms] marshal_nonempty [of ms]
  by (simp add: validateObjectJSON_def marshal_map_def del: sort_keys.simps)

lemma validateSettingsSchema_public:
  assumes "generic (JObj ms)" "validateSettingsSchema (Some ms) prot = None"
  shows "validateRecursive [] publicSettingsSchema (sort_keys (JObj ms)) = []"
  using assms(2)
  by (auto simp: validateSettingsSchema_def toJSON_def validatePublicSettings_def validateSettingsObject_def
      validateObjectJSON_marshal [OF assms(1)] simp del: sort_keys.simps split: option.splits sum.splits list.splits)

text \<open>What a valid object tells of its members.\<close>

lemma validateRecursive_object:
  "validateRecursive ctx (object_schema ps add) (JObj ms) =
     (if add then [] else map (\<lambda>k. schema_error k (''Additional property '' @ k @ '' is not allowed''))
        (filter (\<lambda>k. k \<notin> fst ` set ps) (map fst ms)))
     @ concat (map (\<lambda>(p, s). case map_of ms p of None \<Rightarrow> [] | Some x \<Rightarrow> validateRecursive (ctx @ [p]) s x) ps)"
  by (simp add: validateRecursive.simps [of ctx] object_schema_def type_ok_def type_of_def validateObject_def
      validateCommon_def)

lemma valid_member:
  assumes "validateRecursive ctx (object_schema ps add) (JObj ms) = []"
    "(p, s) \<in> set ps" "map_of ms p = Some v"
  shows "validateRecursive (ctx @ [p]) s v = []"
proof -
  have "\<forall>x \<in> set ps. (case x of (p, s) \<Rightarrow> (case map_of ms p of None \<Rightarrow> []
      | Some x \<Rightarrow> validateRecursive (ctx @ [p]) s x)) = []"
    using assms(1) by (simp add: validateRecursive_object)
  with assms(2,3) show ?thesis by fastforce
qed

lemma valid_keys:
  assumes "validateRecursive ctx (object_schema ps False) (JObj ms) = []" "(k, v) \<in> set ms"
  shows "k \<in> fst ` set ps"
proof -
  have "\<forall>k \<in> fst ` set ms. k \<in> fst ` set ps"
    using assms(1) by (simp add: validateRecursive_object filter_empty_conv)
  with assms(2) show ?thesis by force
qed

lemma valid_bounded:
  assumes "validateRecursive ctx (bounded lo hi) v = []"
  obtains n i where "v = JNum n" "json_int n = Some i"
    "\<And>l. lo = Some l \<Longrightarrow> l \<le> i" "\<And>h. hi = Some h \<Longrightarrow> i \<le> h"
  using assms that
  by (cases v)
    (auto simp: validateRecursive.simps [of ctx] bounded_def type_ok_def type_of_def validateNumber_def
      not_less split: if_splits option.splits)

lemma valid_string:
  "types s = [''string''] \<Longrightarrow> validateRecursive ctx s v = [] \<Longrightarrow> \<exists>x. v = JStr x"
  by (cases v) (auto simp: validateRecursive.simps [of ctx] type_ok_def type_of_def split: if_splits)

lemma valid_object:
  "validateRecursive ctx (object_schema ps add) v = [] \<Longrightarrow> \<exists>ms. v = JObj ms"
  by (cases v)
    (auto simp: validateRecursive.simps [of ctx] object_schema_def type_ok_def type_of_def split: if_splits)

end
