(* ===== verification/Settings.thy ===== *)
theory Settings
  imports Schema Seqno Telemetry
begin

text \<open>
  The handler settings (\<open>main/handlersettings.go\<close>): the vendored reader of the settings file, the
  decoding into structs with Go's case-insensitive field matching, the accessors with their
  defaults, and \<open>parseAndValidateSettings\<close>.

  What lies outside: the glob of the configuration folder, the decryption of protected settings
  (base64 and the \<open>openssl\<close> process) and the text of a \<open>float64\<close> are arguments.
\<close>

section \<open>The settings file\<close>

text \<open>\<open>vmextension.FindSeqNum\<close>: the highest number among the globbed files.\<close>

definition vmext_FindSeqNum :: "string \<Rightarrow> string list result \<Rightarrow> int result" where
  "vmext_FindSeqNum configFolder glob =
     (case glob of
        Inl e \<Rightarrow> Inl e
      | Inr g \<Rightarrow>
          (case find (\<lambda>v. is_err (Atoi (remove_first ''.settings'' (path_Base v)))) g of
             Some v \<Rightarrow> Inl (Errorf (''Can't parse int from filename: '' @ path_Base v))
           | None \<Rightarrow>
               (case rev (sort (replicate (length g) 0 @
                    map (\<lambda>v. case Atoi (remove_first ''.settings'' (path_Base v)) of Inr i \<Rightarrow> i | Inl _ \<Rightarrow> 0) g)) of
                  [] \<Rightarrow> Inl (Errorf (''Can't find out seqnum from '' @ configFolder @ '', not enough files.''))
                | i # _ \<Rightarrow> Inr i)))"

definition settingsPath :: "string \<Rightarrow> string list result \<Rightarrow> string result" where
  "settingsPath configFolder glob =
     (case vmext_FindSeqNum configFolder glob of
        Inl e \<Rightarrow> Inl (Errorf (''Cannot find seqnum: '' @ Error e))
      | Inr seq \<Rightarrow> Inr (path_Join [configFolder, Itoa seq @ ''.settings'']))"

text \<open>Decoding errors of \<open>encoding/json\<close>: the first type error is kept while decoding goes on.\<close>

definition kind_of :: "json \<Rightarrow> string" where
  "kind_of v =
     (case v of JNull \<Rightarrow> ''null'' | JBool _ \<Rightarrow> ''bool'' | JNum _ \<Rightarrow> ''number'' | JStr _ \<Rightarrow> ''string''
      | JArr _ \<Rightarrow> ''array'' | JObj _ \<Rightarrow> ''object'')"

definition type_error :: "string \<Rightarrow> string \<Rightarrow> string \<Rightarrow> string \<Rightarrow> go_error" where
  "type_error val struct field ty =
     Errorf (''json: cannot unmarshal '' @ val @ '' into Go struct field '' @ struct @ ''.'' @ field @ '' of type '' @ ty)"

definition keep_first :: "'e option \<Rightarrow> 'e option \<Rightarrow> 'e option" where
  "keep_first a b = (case a of Some e \<Rightarrow> Some e | None \<Rightarrow> b)"

text \<open>A value into a variable of basic type: the new value and the error.\<close>

definition dec_string :: "string \<Rightarrow> string \<Rightarrow> json \<Rightarrow> string \<Rightarrow> string \<times> go_error option" where
  "dec_string struct field v old =
     (case v of JStr s \<Rightarrow> (s, None) | JNull \<Rightarrow> (old, None)
      | _ \<Rightarrow> (old, Some (type_error (kind_of v) struct field ''string'')))"

definition dec_bool :: "string \<Rightarrow> string \<Rightarrow> json \<Rightarrow> bool \<Rightarrow> bool \<times> go_error option" where
  "dec_bool struct field v old =
     (case v of JBool b \<Rightarrow> (b, None) | JNull \<Rightarrow> (old, None)
      | _ \<Rightarrow> (old, Some (type_error (kind_of v) struct field ''bool'')))"

definition dec_int :: "string \<Rightarrow> string \<Rightarrow> string \<Rightarrow> json \<Rightarrow> int \<Rightarrow> int \<times> go_error option" where
  "dec_int ty struct field v old =
     (case v of
        JNum n \<Rightarrow>
          (case json_int n of
             Some i \<Rightarrow> (i, None)
           | None \<Rightarrow> (old, Some (type_error (''number '' @ n) struct field ty)))
      | JNull \<Rightarrow> (old, None)
      | _ \<Rightarrow> (old, Some (type_error (kind_of v) struct field ty)))"

text \<open>An object into a map: new keys are added, old ones replaced.\<close>

fun put_member :: "string \<times> json \<Rightarrow> (string \<times> json) list \<Rightarrow> (string \<times> json) list" where
  "put_member m [] = [m]"
| "put_member m (x # xs) = (if fst x = fst m then m # xs else x # put_member m xs)"

definition merge_members :: "(string \<times> json) list \<Rightarrow> (string \<times> json) list \<Rightarrow> (string \<times> json) list" where
  "merge_members old new = foldl (\<lambda>acc m. put_member m acc) old new"

definition dec_map :: "string \<Rightarrow> string \<Rightarrow> json \<Rightarrow> go_map \<Rightarrow> go_map \<times> go_error option" where
  "dec_map struct field v old =
     (case v of
        JObj ms \<Rightarrow> (Some (merge_members (case old of None \<Rightarrow> [] | Some o' \<Rightarrow> o') ms), None)
      | JNull \<Rightarrow> (None, None)
      | _ \<Rightarrow> (old, Some (type_error (kind_of v) struct field ''map[string]interface {}'')))"

definition dec_strings ::
  "string \<Rightarrow> string \<Rightarrow> json \<Rightarrow> string list option \<Rightarrow> string list option \<times> go_error option" where
  "dec_strings struct field v old =
     (case v of
        JArr vs \<Rightarrow>
          (Some (map (\<lambda>x. fst (dec_string struct field x [])) vs),
           foldl (\<lambda>e x. keep_first e (snd (dec_string struct field x []))) None vs)
      | JNull \<Rightarrow> (None, None)
      | _ \<Rightarrow> (old, Some (type_error (kind_of v) struct field ''[]string'')))"

text \<open>A key selects a field exactly or after folding case; no two fields of a struct fold alike, so
  the folded comparison decides.\<close>

definition is_field :: "string \<Rightarrow> string \<Rightarrow> bool" where
  "is_field field k \<longleftrightarrow> foldName k = foldName field"

section \<open>The structs\<close>

record vmWatchSignalFilters =
  sf_EnabledTags :: "string list option"
  sf_DisabledTags :: "string list option"
  sf_EnabledOptionalSignals :: "string list option"
  sf_DisabledSignals :: "string list option"

record vmWatchSettings =
  vs_Enabled :: bool
  vs_MemoryLimitInBytes :: int
  vs_MaxCpuPercentage :: int
  vs_SignalFilters :: "vmWatchSignalFilters option"
  vs_ParameterOverrides :: go_map
  vs_EnvironmentAttributes :: go_map
  vs_GlobalConfigUrl :: string
  vs_DisableConfigReader :: bool

record publicSettings =
  ps_Protocol :: string
  ps_Port :: int
  ps_RequestPath :: string
  ps_IntervalInSeconds :: int
  ps_NumberOfProbes :: int
  ps_GracePeriod :: int
  ps_VMWatchSettings :: "vmWatchSettings option"

text \<open>The protected settings struct has no field.\<close>

type_synonym handlerSettings = publicSettings

definition zero_filters :: vmWatchSignalFilters where
  "zero_filters = \<lparr>sf_EnabledTags = None, sf_DisabledTags = None, sf_EnabledOptionalSignals = None,
     sf_DisabledSignals = None\<rparr>"

definition zero_vmWatch :: vmWatchSettings where
  "zero_vmWatch = \<lparr>vs_Enabled = False, vs_MemoryLimitInBytes = 0, vs_MaxCpuPercentage = 0,
     vs_SignalFilters = None, vs_ParameterOverrides = None, vs_EnvironmentAttributes = None,
     vs_GlobalConfigUrl = [], vs_DisableConfigReader = False\<rparr>"

definition zero_public :: publicSettings where
  "zero_public = \<lparr>ps_Protocol = [], ps_Port = 0, ps_RequestPath = [], ps_IntervalInSeconds = 0,
     ps_NumberOfProbes = 0, ps_GracePeriod = 0, ps_VMWatchSettings = None\<rparr>"

section \<open>Decoding into the structs\<close>

type_synonym 's dec = "'s \<times> go_error option"

definition dec_filters_member :: "vmWatchSignalFilters dec \<Rightarrow> string \<times> json \<Rightarrow> vmWatchSignalFilters dec" where
  "dec_filters_member d m =
     (let (s, e) = d; (k, v) = m; st = ''vmWatchSignalFilters''; pre = ''vmWatchSettings.signalFilters.'' in
      if is_field ''enabledTags'' k then
        (let (x, e') = dec_strings st (pre @ ''enabledTags'') v (sf_EnabledTags s)
         in (s\<lparr>sf_EnabledTags := x\<rparr>, keep_first e e'))
      else if is_field ''disabledTags'' k then
        (let (x, e') = dec_strings st (pre @ ''disabledTags'') v (sf_DisabledTags s)
         in (s\<lparr>sf_DisabledTags := x\<rparr>, keep_first e e'))
      else if is_field ''enabledOptionalSignals'' k then
        (let (x, e') = dec_strings st (pre @ ''enabledOptionalSignals'') v (sf_EnabledOptionalSignals s)
         in (s\<lparr>sf_EnabledOptionalSignals := x\<rparr>, keep_first e e'))
      else if is_field ''disabledSignals'' k then
        (let (x, e') = dec_strings st (pre @ ''disabledSignals'') v (sf_DisabledSignals s)
         in (s\<lparr>sf_DisabledSignals := x\<rparr>, keep_first e e'))
      else (s, e))"

definition dec_filters ::
  "json \<Rightarrow> vmWatchSignalFilters option \<Rightarrow> vmWatchSignalFilters option \<times> go_error option" where
  "dec_filters v old =
     (case v of
        JObj ms \<Rightarrow>
          (let (s, e) = foldl dec_filters_member ((case old of None \<Rightarrow> zero_filters | Some f \<Rightarrow> f), None) ms
           in (Some s, e))
      | JNull \<Rightarrow> (None, None)
      | _ \<Rightarrow> ((case old of None \<Rightarrow> Some zero_filters | Some f \<Rightarrow> Some f),
              Some (type_error (kind_of v) ''vmWatchSettings'' ''vmWatchSettings.signalFilters''
                      ''main.vmWatchSignalFilters'')))"

definition dec_vmWatch_member :: "vmWatchSettings dec \<Rightarrow> string \<times> json \<Rightarrow> vmWatchSettings dec" where
  "dec_vmWatch_member d m =
     (let (s, e) = d; (k, v) = m; st = ''vmWatchSettings''; pre = ''vmWatchSettings.'' in
      if is_field ''enabled'' k then
        (let (x, e') = dec_bool st (pre @ ''enabled'') v (vs_Enabled s)
         in (s\<lparr>vs_Enabled := x\<rparr>, keep_first e e'))
      else if is_field ''memoryLimitInBytes'' k then
        (let (x, e') = dec_int ''int64'' st (pre @ ''memoryLimitInBytes'') v (vs_MemoryLimitInBytes s)
         in (s\<lparr>vs_MemoryLimitInBytes := x\<rparr>, keep_first e e'))
      else if is_field ''maxCpuPercentage'' k then
        (let (x, e') = dec_int ''int64'' st (pre @ ''maxCpuPercentage'') v (vs_MaxCpuPercentage s)
         in (s\<lparr>vs_MaxCpuPercentage := x\<rparr>, keep_first e e'))
      else if is_field ''signalFilters'' k then
        (let (x, e') = dec_filters v (vs_SignalFilters s)
         in (s\<lparr>vs_SignalFilters := x\<rparr>, keep_first e e'))
      else if is_field ''parameterOverrides'' k then
        (let (x, e') = dec_map st (pre @ ''parameterOverrides'') v (vs_ParameterOverrides s)
         in (s\<lparr>vs_ParameterOverrides := x\<rparr>, keep_first e e'))
      else if is_field ''environmentAttributes'' k then
        (let (x, e') = dec_map st (pre @ ''environmentAttributes'') v (vs_EnvironmentAttributes s)
         in (s\<lparr>vs_EnvironmentAttributes := x\<rparr>, keep_first e e'))
      else if is_field ''globalConfigUrl'' k then
        (let (x, e') = dec_string st (pre @ ''globalConfigUrl'') v (vs_GlobalConfigUrl s)
         in (s\<lparr>vs_GlobalConfigUrl := x\<rparr>, keep_first e e'))
      else if is_field ''disableConfigReader'' k then
        (let (x, e') = dec_bool st (pre @ ''disableConfigReader'') v (vs_DisableConfigReader s)
         in (s\<lparr>vs_DisableConfigReader := x\<rparr>, keep_first e e'))
      else (s, e))"

definition dec_vmWatch :: "json \<Rightarrow> vmWatchSettings option \<Rightarrow> vmWatchSettings option \<times> go_error option" where
  "dec_vmWatch v old =
     (case v of
        JObj ms \<Rightarrow>
          (let (s, e) = foldl dec_vmWatch_member ((case old of None \<Rightarrow> zero_vmWatch | Some f \<Rightarrow> f), None) ms
           in (Some s, e))
      | JNull \<Rightarrow> (None, None)
      | _ \<Rightarrow> ((case old of None \<Rightarrow> Some zero_vmWatch | Some f \<Rightarrow> Some f),
              Some (type_error (kind_of v) ''publicSettings'' ''vmWatchSettings'' ''main.vmWatchSettings'')))"

definition dec_public_member :: "publicSettings dec \<Rightarrow> string \<times> json \<Rightarrow> publicSettings dec" where
  "dec_public_member d m =
     (let (s, e) = d; (k, v) = m; st = ''publicSettings'' in
      if is_field ''protocol'' k then
        (let (x, e') = dec_string st ''protocol'' v (ps_Protocol s)
         in (s\<lparr>ps_Protocol := x\<rparr>, keep_first e e'))
      else if is_field ''port'' k then
        (let (x, e') = dec_int ''int'' st ''port'' v (ps_Port s)
         in (s\<lparr>ps_Port := x\<rparr>, keep_first e e'))
      else if is_field ''requestPath'' k then
        (let (x, e') = dec_string st ''requestPath'' v (ps_RequestPath s)
         in (s\<lparr>ps_RequestPath := x\<rparr>, keep_first e e'))
      else if is_field ''intervalInSeconds'' k then
        (let (x, e') = dec_int ''int'' st ''intervalInSeconds'' v (ps_IntervalInSeconds s)
         in (s\<lparr>ps_IntervalInSeconds := x\<rparr>, keep_first e e'))
      else if is_field ''numberOfProbes'' k then
        (let (x, e') = dec_int ''int'' st ''numberOfProbes'' v (ps_NumberOfProbes s)
         in (s\<lparr>ps_NumberOfProbes := x\<rparr>, keep_first e e'))
      else if is_field ''gracePeriod'' k then
        (let (x, e') = dec_int ''int'' st ''gracePeriod'' v (ps_GracePeriod s)
         in (s\<lparr>ps_GracePeriod := x\<rparr>, keep_first e e'))
      else if is_field ''vmWatchSettings'' k then
        (let (x, e') = dec_vmWatch v (ps_VMWatchSettings s)
         in (s\<lparr>ps_VMWatchSettings := x\<rparr>, keep_first e e'))
      else (s, e))"

text \<open>\<open>unmarshalSettings\<close> writes the map and reads it back into the struct; \<open>null\<close> leaves the struct
  as it is.\<close>

definition unmarshal_public :: "go_map \<Rightarrow> publicSettings result" where
  "unmarshal_public pub =
     (case pub of
        None \<Rightarrow> Inr zero_public
      | Some ms \<Rightarrow>
          (case LoadJSON (marshal_map ms) of
             Inr (JObj ms') \<Rightarrow>
               (case foldl dec_public_member (zero_public, None) ms' of
                  (s, None) \<Rightarrow> Inr s
                | (s, Some e) \<Rightarrow> Inl (Errorf (''failed to unmarshal json: '' @ Error e)))
           | Inr _ \<Rightarrow> Inr zero_public
           | Inl e \<Rightarrow> Inl (Errorf (''failed to unmarshal json: '' @ Error e))))"

definition UnmarshalHandlerSettings :: "go_map \<Rightarrow> go_map \<Rightarrow> handlerSettings result" where
  "UnmarshalHandlerSettings pub prot =
     (case unmarshal_public pub of
        Inl e \<Rightarrow> Inl (Errorf (''failed to unmarshal public settings: '' @ Error e))
      | Inr s \<Rightarrow> Inr s)"

section \<open>Reading\<close>

text \<open>What reading takes from outside: the glob of the folder, the text \<open>json.Marshal\<close> writes for the
  \<open>float64\<close> of a literal, and the decryption of the protected settings with the certificate and
  key at two paths.\<close>

record settings_env =
  se_glob :: "string list result"
  se_num_text :: "string \<Rightarrow> string"
  se_decrypt :: "string \<Rightarrow> string \<Rightarrow> string \<Rightarrow> string result"

text \<open>A document as a generic Go value: numbers become \<open>float64\<close>, the last of equal keys wins.\<close>

fun to_generic :: "(string \<Rightarrow> string) \<Rightarrow> json \<Rightarrow> json" where
  "to_generic nt (JNum n) = JNum (nt n)"
| "to_generic nt (JArr vs) = JArr (map (to_generic nt) vs)"
| "to_generic nt (JObj ms) = JObj (merge_members [] (map (\<lambda>(k, v). (k, to_generic nt v)) ms))"
| "to_generic nt v = v"

record settings_file =
  hs_PublicSettings :: go_map
  hs_ProtectedSettingsBase64 :: string
  hs_SettingsCertThumbprint :: string

definition zero_file :: settings_file where
  "zero_file = \<lparr>hs_PublicSettings = None, hs_ProtectedSettingsBase64 = [], hs_SettingsCertThumbprint = []\<rparr>"

definition float_error :: "json \<Rightarrow> go_error option" where
  "float_error v = (if interface_ok v then None else Some (Errorf ''json: cannot unmarshal number into Go value of type float64''))"

definition dec_file_member :: "(string \<Rightarrow> string) \<Rightarrow> settings_file dec \<Rightarrow> string \<times> json \<Rightarrow> settings_file dec" where
  "dec_file_member nt d m =
     (let (s, e) = d; (k, v) = m; st = ''handlerSettings''; pre = ''runtimeSettings.handlerSettings.'' in
      if is_field ''publicSettings'' k then
        (let (x, e') = dec_map st (pre @ ''publicSettings'') (to_generic nt v) (hs_PublicSettings s)
         in (s\<lparr>hs_PublicSettings := x\<rparr>, keep_first (keep_first e e') (float_error v)))
      else if is_field ''protectedSettings'' k then
        (let (x, e') = dec_string st (pre @ ''protectedSettings'') v (hs_ProtectedSettingsBase64 s)
         in (s\<lparr>hs_ProtectedSettingsBase64 := x\<rparr>, keep_first e e'))
      else if is_field ''protectedSettingsCertThumbprint'' k then
        (let (x, e') = dec_string st (pre @ ''protectedSettingsCertThumbprint'') v (hs_SettingsCertThumbprint s)
         in (s\<lparr>hs_SettingsCertThumbprint := x\<rparr>, keep_first e e'))
      else (s, e))"

definition dec_struct ::
  "('s dec \<Rightarrow> string \<times> json \<Rightarrow> 's dec) \<Rightarrow> go_error \<Rightarrow> 's dec \<Rightarrow> json \<Rightarrow> 's dec" where
  "dec_struct mem err d v =
     (case v of JObj ms \<Rightarrow> foldl mem d ms | JNull \<Rightarrow> d | _ \<Rightarrow> (fst d, keep_first (snd d) (Some err)))"

definition dec_runtime_elem :: "(string \<Rightarrow> string) \<Rightarrow> json \<Rightarrow> settings_file dec" where
  "dec_runtime_elem nt v =
     dec_struct
       (\<lambda>d (k, x). if is_field ''handlerSettings'' k
                   then dec_struct (dec_file_member nt)
                          (type_error (kind_of x) [] ''runtimeSettings.handlerSettings'' ''vmextension.handlerSettings'') d x
                   else d)
       (type_error (kind_of v) ''handlerSettingsFile'' ''runtimeSettings'' ''struct { HandlerSettings vmextension.handlerSettings }'')
       (zero_file, None) v"

definition dec_runtime_member ::
  "(string \<Rightarrow> string) \<Rightarrow> settings_file list dec \<Rightarrow> string \<times> json \<Rightarrow> settings_file list dec" where
  "dec_runtime_member nt d m =
     (let (fs, e) = d; (k, v) = m in
      if is_field ''runtimeSettings'' k then
        (case v of
           JArr vs \<Rightarrow> (map (fst \<circ> dec_runtime_elem nt) vs, foldl keep_first e (map (snd \<circ> dec_runtime_elem nt) vs))
         | JNull \<Rightarrow> ([], e)
         | _ \<Rightarrow> (fs, keep_first e (Some (type_error (kind_of v) ''handlerSettingsFile'' ''runtimeSettings''
                  ''[]struct { HandlerSettings vmextension.handlerSettings }''))))
      else (fs, e))"

definition one_runtime_setting :: "settings_file list dec \<Rightarrow> settings_file result" where
  "one_runtime_setting d =
     (case snd d of
        Some e \<Rightarrow> Inl (Errorf (''error parsing json: '' @ Error e))
      | None \<Rightarrow>
          (case fst d of
             [f] \<Rightarrow> Inr f
           | fs \<Rightarrow> Inl (Errorf (''wrong runtimeSettings count. expected:1, got:'' @ string_of_nat (length fs)))))"

definition parseHandlerSettingsFile :: "(string \<Rightarrow> string) \<Rightarrow> fs \<Rightarrow> string \<Rightarrow> settings_file result" where
  "parseHandlerSettingsFile nt w path =
     (case ReadFile w path of
        Inl e \<Rightarrow> Inl (Errorf (''Error reading '' @ path @ '': '' @ Error (io_go_error e)))
      | Inr [] \<Rightarrow> Inr zero_file
      | Inr b \<Rightarrow>
          (case parse_json b of
             None \<Rightarrow> Inl (Errorf ''error parsing json: invalid character'')
           | Some v \<Rightarrow>
               one_runtime_setting
                 (dec_struct (dec_runtime_member nt)
                    (Errorf (''json: cannot unmarshal '' @ kind_of v @ '' into Go value of type vmextension.handlerSettingsFile''))
                    ([], None) v)))"

definition unmarshalProtectedSettings :: "settings_env \<Rightarrow> string \<Rightarrow> settings_file \<Rightarrow> go_map result" where
  "unmarshalProtectedSettings env configFolder hs =
     (if hs_ProtectedSettingsBase64 hs = [] then Inr None
      else if hs_SettingsCertThumbprint hs = []
      then Inl (Errorf ''HandlerSettings has protected settings but no cert thumbprint'')
      else
        (case se_decrypt env
                (path_Join [configFolder, ''..'', ''..'', hs_SettingsCertThumbprint hs @ ''.crt''])
                (path_Join [configFolder, ''..'', ''..'', hs_SettingsCertThumbprint hs @ ''.prv''])
                (hs_ProtectedSettingsBase64 hs) of
           Inl e \<Rightarrow> Inl e
         | Inr b \<Rightarrow>
             (case parse_json b of
                None \<Rightarrow> Inl (Errorf ''failed to unmarshal decrypted settings json: invalid character'')
              | Some JNull \<Rightarrow> Inr None
              | Some (JObj ms) \<Rightarrow>
                  if interface_ok (JObj ms)
                  then (case to_generic (se_num_text env) (JObj ms) of JObj ms' \<Rightarrow> Inr (Some ms') | _ \<Rightarrow> Inr None)
                  else Inl (Errorf ''failed to unmarshal decrypted settings json: number out of range'')
              | Some v \<Rightarrow>
                  Inl (Errorf (''failed to unmarshal decrypted settings json: json: cannot unmarshal '' @ kind_of v
                    @ '' into Go value of type map[string]interface {}'')))))"

definition ReadSettings :: "settings_env \<Rightarrow> string \<Rightarrow> fs \<Rightarrow> (go_map \<times> go_map) result" where
  "ReadSettings env configFolder w =
     (case settingsPath configFolder (se_glob env) of
        Inl e \<Rightarrow> Inl (Errorf (''canot locate settings file: '' @ Error e))
      | Inr cf \<Rightarrow>
          (case parseHandlerSettingsFile (se_num_text env) w cf of
             Inl e \<Rightarrow> Inl (Errorf (''error parsing settings file: '' @ Error e))
           | Inr hs \<Rightarrow>
               (case unmarshalProtectedSettings env configFolder hs of
                  Inl e \<Rightarrow> Inl (Errorf (''failed to parse protected settings: '' @ Error e))
                | Inr prot \<Rightarrow> Inr (hs_PublicSettings hs, prot))))"

definition readSettings :: "settings_env \<Rightarrow> string \<Rightarrow> fs \<Rightarrow> (go_map \<times> go_map) result" where
  "readSettings env configFolder w =
     (case ReadSettings env configFolder w of
        Inl e \<Rightarrow> Inl (Wrap e ''error reading extension configuration'') | Inr r \<Rightarrow> Inr r)"

section \<open>Accessors\<close>

definition defaultIntervalInSeconds :: int where "defaultIntervalInSeconds = 5"
definition defaultNumberOfProbes :: int where "defaultNumberOfProbes = 1"
definition maximumProbeSettleTime :: int where "maximumProbeSettleTime = 240"

lemmas settings_consts [go_consts] =
  defaultIntervalInSeconds_def defaultNumberOfProbes_def maximumProbeSettleTime_def

definition protocol :: "handlerSettings \<Rightarrow> string" where "protocol s = ps_Protocol s"
definition requestPath :: "handlerSettings \<Rightarrow> string" where "requestPath s = ps_RequestPath s"
definition port :: "handlerSettings \<Rightarrow> int" where "port s = ps_Port s"

definition intervalInSeconds :: "handlerSettings \<Rightarrow> int" where
  "intervalInSeconds s = (if ps_IntervalInSeconds s = 0 then defaultIntervalInSeconds else ps_IntervalInSeconds s)"

definition numberOfProbes :: "handlerSettings \<Rightarrow> int" where
  "numberOfProbes s = (if ps_NumberOfProbes s = 0 then defaultNumberOfProbes else ps_NumberOfProbes s)"

definition gracePeriod :: "handlerSettings \<Rightarrow> int" where
  "gracePeriod s =
     (if ps_GracePeriod s = 0 then imul64 (intervalInSeconds s) (numberOfProbes s) else ps_GracePeriod s)"

definition vmWatchSettings_of :: "handlerSettings \<Rightarrow> vmWatchSettings option" where
  "vmWatchSettings_of s = ps_VMWatchSettings s"

definition errTcpMustNotIncludeRequestPath :: go_error where
  "errTcpMustNotIncludeRequestPath = Sentinel (CHR 0x27 # ''requestPath' cannot be specified when using 'tcp' protocol'')"

definition errTcpConfigurationMustIncludePort :: go_error where
  "errTcpConfigurationMustIncludePort = Sentinel (CHR 0x27 # ''port' must be specified when using 'tcp' protocol'')"

definition errProbeSettleTimeExceedsThreshold :: go_error where
  "errProbeSettleTimeExceedsThreshold =
     Sentinel ''Probe settle time (intervalInSeconds * numberOfProbes) cannot exceed 240 seconds''"

definition validate :: "handlerSettings \<Rightarrow> go_error option" where
  "validate h =
     (if protocol h = ''tcp'' \<and> port h = 0 then Some errTcpConfigurationMustIncludePort
      else if protocol h = ''tcp'' \<and> requestPath h \<noteq> [] then Some errTcpMustNotIncludeRequestPath
      else if imul64 (intervalInSeconds h) (numberOfProbes h) > maximumProbeSettleTime
      then Some errProbeSettleTimeExceedsThreshold
      else None)"

definition TryGetVMWatchCohortId :: "vmWatchSettings \<Rightarrow> string result" where
  "TryGetVMWatchCohortId v =
     (case vs_EnvironmentAttributes v of
        None \<Rightarrow> Inr []
      | Some ms \<Rightarrow>
          (case LoadJSON (marshal_map ms) of
             Inl e \<Rightarrow> Inl (Wrap e ''failed to unmarshal environment attributes'')
           | Inr doc \<Rightarrow>
               (case dec_struct
                       (\<lambda>d (k, x). if is_field ''vmWatchCohortId'' k
                                   then (let (y, e') = dec_string ''environmentAttributes'' ''vmWatchCohortId'' x (fst d)
                                         in (y, keep_first (snd d) e'))
                                   else d)
                       (Errorf (''json: cannot unmarshal '' @ kind_of doc @ '' into Go value of type main.environmentAttributes''))
                       ([], None) doc of
                  (s, None) \<Rightarrow> Inr s
                | (s, Some e) \<Rightarrow> Inl (Wrap e ''failed to unmarshal environment attributes''))))"

section \<open>Printing\<close>

definition json_strings :: "string list option \<Rightarrow> json" where
  "json_strings o' = (case o' of None \<Rightarrow> JNull | Some ss \<Rightarrow> JArr (map JStr ss))"

definition json_map :: "go_map \<Rightarrow> json" where
  "json_map o' = (case o' of None \<Rightarrow> JNull | Some ms \<Rightarrow> sort_keys (JObj ms))"

definition json_filters :: "vmWatchSignalFilters option \<Rightarrow> json" where
  "json_filters o' =
     (case o' of
        None \<Rightarrow> JNull
      | Some f \<Rightarrow>
          JObj [(''enabledTags'', json_strings (sf_EnabledTags f)),
                (''disabledTags'', json_strings (sf_DisabledTags f)),
                (''enabledOptionalSignals'', json_strings (sf_EnabledOptionalSignals f)),
                (''disabledSignals'', json_strings (sf_DisabledSignals f))])"

definition json_vmWatch :: "vmWatchSettings option \<Rightarrow> json" where
  "json_vmWatch o' =
     (case o' of
        None \<Rightarrow> JNull
      | Some v \<Rightarrow>
          JObj [(''enabled'', JBool (vs_Enabled v)),
                (''memoryLimitInBytes'', JNum (Itoa (vs_MemoryLimitInBytes v))),
                (''maxCpuPercentage'', JNum (Itoa (vs_MaxCpuPercentage v))),
                (''signalFilters'', json_filters (vs_SignalFilters v)),
                (''parameterOverrides'', json_map (vs_ParameterOverrides v)),
                (''environmentAttributes'', json_map (vs_EnvironmentAttributes v)),
                (''globalConfigUrl'', JStr (vs_GlobalConfigUrl v)),
                (''disableConfigReader'', JBool (vs_DisableConfigReader v))])"

definition vmWatchSettings_String :: "vmWatchSettings option \<Rightarrow> string" where
  "vmWatchSettings_String v = marshal_indent 0 (json_vmWatch v)"

definition handlerSettings_String :: "handlerSettings \<Rightarrow> string" where
  "handlerSettings_String s =
     marshal_indent 0 (JObj
       [(''protocol'', JStr (ps_Protocol s)), (''port'', JNum (Itoa (ps_Port s))),
        (''requestPath'', JStr (ps_RequestPath s)),
        (''intervalInSeconds'', JNum (Itoa (ps_IntervalInSeconds s))),
        (''numberOfProbes'', JNum (Itoa (ps_NumberOfProbes s))),
        (''gracePeriod'', JNum (Itoa (ps_GracePeriod s))),
        (''vmWatchSettings'', json_vmWatch (ps_VMWatchSettings s))])"

section \<open>The whole\<close>

definition main_event :: "string \<Rightarrow> event" where
  "main_event m = (InfoEvent, MainTask, m)"

definition parseAndValidateSettings ::
  "settings_env \<Rightarrow> string \<Rightarrow> fs \<Rightarrow> handlerSettings result \<times> event list" where
  "parseAndValidateSettings env configFolder w =
     (let e1 = [main_event ''Reading configuration''] in
      case readSettings env configFolder w of
        Inl e \<Rightarrow> (Inl e, e1)
      | Inr (pub, prot) \<Rightarrow>
          (let e2 = e1 @ [main_event ''validating json schema''] in
           case validateSettingsSchema pub prot of
             Some e \<Rightarrow> (Inl (Wrap e ''json validation error''), e2)
           | None \<Rightarrow>
               (let e3 = e2 @ [main_event ''json schema valid'', main_event ''parsing configuration json''] in
                case UnmarshalHandlerSettings pub prot of
                  Inl e \<Rightarrow> (Inl (Wrap e ''json parsing error''), e3)
                | Inr h \<Rightarrow>
                    (let e4 = e3 @ [main_event ''parsed configuration json'', main_event ''validating configuration logically'']
                     in case validate h of
                          Some e \<Rightarrow> (Inl (Wrap e ''invalid configuration''), e4)
                        | None \<Rightarrow> (Inr h, e4 @ [main_event ''validated configuration''])))))"

section \<open>Accepted settings\<close>

definition public_ok :: "publicSettings \<Rightarrow> bool" where
  "public_ok s \<longleftrightarrow>
     ps_Protocol s \<in> {[], ''tcp'', ''http'', ''https''} \<and>
     0 \<le> ps_Port s \<and> ps_Port s \<le> 65535 \<and>
     (ps_IntervalInSeconds s = 0 \<or> 5 \<le> ps_IntervalInSeconds s \<and> ps_IntervalInSeconds s \<le> 60) \<and>
     (ps_NumberOfProbes s = 0 \<or> 1 \<le> ps_NumberOfProbes s \<and> ps_NumberOfProbes s \<le> 24) \<and>
     (ps_GracePeriod s = 0 \<or> 5 \<le> ps_GracePeriod s \<and> ps_GracePeriod s \<le> 14400)"

lemma public_ok_zero: "public_ok zero_public"
  by (simp add: public_ok_def zero_public_def)

lemma field_names [simp]:
  "foldName ''protocol'' = ''PROTOCOL''" "foldName ''port'' = ''PORT''"
  "foldName ''requestPath'' = ''REQUESTPATH''" "foldName ''intervalInSeconds'' = ''INTERVALINSECONDS''"
  "foldName ''numberOfProbes'' = ''NUMBEROFPROBES''" "foldName ''gracePeriod'' = ''GRACEPERIOD''"
  "foldName ''vmWatchSettings'' = ''VMWATCHSETTINGS''"
  by code_simp+

lemma dec_public_member_simps:
  "dec_public_member (s, e) (''protocol'', v) =
     (let (x, e') = dec_string ''publicSettings'' ''protocol'' v (ps_Protocol s) in (s\<lparr>ps_Protocol := x\<rparr>, keep_first e e'))"
  "dec_public_member (s, e) (''port'', v) =
     (let (x, e') = dec_int ''int'' ''publicSettings'' ''port'' v (ps_Port s) in (s\<lparr>ps_Port := x\<rparr>, keep_first e e'))"
  "dec_public_member (s, e) (''requestPath'', v) =
     (let (x, e') = dec_string ''publicSettings'' ''requestPath'' v (ps_RequestPath s) in (s\<lparr>ps_RequestPath := x\<rparr>, keep_first e e'))"
  "dec_public_member (s, e) (''intervalInSeconds'', v) =
     (let (x, e') = dec_int ''int'' ''publicSettings'' ''intervalInSeconds'' v (ps_IntervalInSeconds s)
      in (s\<lparr>ps_IntervalInSeconds := x\<rparr>, keep_first e e'))"
  "dec_public_member (s, e) (''numberOfProbes'', v) =
     (let (x, e') = dec_int ''int'' ''publicSettings'' ''numberOfProbes'' v (ps_NumberOfProbes s)
      in (s\<lparr>ps_NumberOfProbes := x\<rparr>, keep_first e e'))"
  "dec_public_member (s, e) (''gracePeriod'', v) =
     (let (x, e') = dec_int ''int'' ''publicSettings'' ''gracePeriod'' v (ps_GracePeriod s)
      in (s\<lparr>ps_GracePeriod := x\<rparr>, keep_first e e'))"
  "dec_public_member (s, e) (''vmWatchSettings'', v) =
     (let (x, e') = dec_vmWatch v (ps_VMWatchSettings s) in (s\<lparr>ps_VMWatchSettings := x\<rparr>, keep_first e e'))"
  by (simp_all add: dec_public_member_def is_field_def)

lemma valid_protocol:
  assumes "validateRecursive ctx protocol_schema (JStr x) = []"
  shows "marshal_json (JStr x) \<in> {marshal_json (JStr ''tcp''), marshal_json (JStr ''http''), marshal_json (JStr ''https'')}"
  using assms
  by (auto simp: protocol_schema_def validateRecursive.simps [of ctx] type_ok_def type_of_def validateNumber_def
      validateCommon_def Let_def split: if_splits)

lemma marshal_string_inject:
  assumes "valid_utf8 a" "valid_utf8 b" "marshal_json (JStr a) = marshal_json (JStr b)"
  shows "a = b"
proof -
  have "parse_json (marshal_json (JStr a)) = Some (JStr a)" "parse_json (marshal_json (JStr b)) = Some (JStr b)"
    using assms(1,2) by (simp_all add: parse_marshal)
  then have "Some (JStr a) = Some (JStr b)" by (simp only: assms(3))
  then show ?thesis by simp
qed

lemma protocol_member:
  assumes "validateRecursive ctx protocol_schema v = []" "wf_json v"
  shows "\<exists>x. v = JStr x \<and> x \<in> {''tcp'', ''http'', ''https''}"
proof -
  have "types protocol_schema = [''string'']" by (simp add: protocol_schema_def)
  then obtain x where v: "v = JStr x" using valid_string [OF _ assms(1)] by blast
  have ascii: "valid_utf8 ''tcp''" "valid_utf8 ''http''" "valid_utf8 ''https''" by code_simp+
  have x: "valid_utf8 x" using assms(2) v by simp
  have "x = y" if "marshal_json (JStr x) = marshal_json (JStr y)" "valid_utf8 y" for y
    by (rule marshal_string_inject [OF x that(2,1)])
  moreover have "marshal_json (JStr x) = marshal_json (JStr ''tcp'') \<or> marshal_json (JStr x) = marshal_json (JStr ''http'')
      \<or> marshal_json (JStr x) = marshal_json (JStr ''https'')"
    using valid_protocol [OF assms(1) [unfolded v]] by (simp only: insert_iff empty_iff simp_thms)
  ultimately have "x = ''tcp'' \<or> x = ''http'' \<or> x = ''https''" using ascii by iprover
  then show ?thesis using v by simp
qed

lemma bounded_member:
  "validateRecursive ctx (bounded (Some lo) (Some hi)) v = [] \<Longrightarrow>
   \<exists>n i. v = JNum n \<and> json_int n = Some i \<and> lo \<le> i \<and> i \<le> hi"
  by (erule valid_bounded) simp

lemma dec_int_num: "json_int n = Some i \<Longrightarrow> dec_int ty st f (JNum n) old = (i, None)"
  by (simp add: dec_int_def)

text \<open>One member that the schema accepts keeps the bounds, whatever was decoded before.\<close>

lemma dec_protocol_ok:
  assumes "public_ok s" "validateRecursive ctx protocol_schema v = []" "wf_json v"
    "dec_public_member (s, e) (''protocol'', v) = (s', e')"
  shows "public_ok s'"
proof -
  obtain x where x: "v = JStr x" "x \<in> {''tcp'', ''http'', ''https''}"
    using protocol_member [OF assms(2,3)] by blast
  have "s' = s\<lparr>ps_Protocol := x\<rparr>"
    using assms(4) by (simp add: dec_public_member_simps dec_string_def x(1))
  then show ?thesis using assms(1) x(2) by (simp add: public_ok_def)
qed

lemma dec_port_ok:
  assumes "public_ok s" "validateRecursive ctx (bounded (Some 1) (Some 65535)) v = []"
    "dec_public_member (s, e) (''port'', v) = (s', e')"
  shows "public_ok s'"
proof -
  obtain n i where i: "v = JNum n" "json_int n = Some i" "1 \<le> i" "i \<le> 65535"
    using bounded_member [OF assms(2)] by blast
  have "s' = s\<lparr>ps_Port := i\<rparr>"
    using assms(3) by (simp add: dec_public_member_simps dec_int_num [OF i(2)] i(1))
  then show ?thesis using assms(1) i(3,4) by (simp add: public_ok_def)
qed

lemma dec_intervalInSeconds_ok:
  assumes "public_ok s" "validateRecursive ctx (bounded (Some 5) (Some 60)) v = []"
    "dec_public_member (s, e) (''intervalInSeconds'', v) = (s', e')"
  shows "public_ok s'"
proof -
  obtain n i where i: "v = JNum n" "json_int n = Some i" "5 \<le> i" "i \<le> 60"
    using bounded_member [OF assms(2)] by blast
  have "s' = s\<lparr>ps_IntervalInSeconds := i\<rparr>"
    using assms(3) by (simp add: dec_public_member_simps dec_int_num [OF i(2)] i(1))
  then show ?thesis using assms(1) i(3,4) by (simp add: public_ok_def)
qed

lemma dec_numberOfProbes_ok:
  assumes "public_ok s" "validateRecursive ctx (bounded (Some 1) (Some 24)) v = []"
    "dec_public_member (s, e) (''numberOfProbes'', v) = (s', e')"
  shows "public_ok s'"
proof -
  obtain n i where i: "v = JNum n" "json_int n = Some i" "1 \<le> i" "i \<le> 24"
    using bounded_member [OF assms(2)] by blast
  have "s' = s\<lparr>ps_NumberOfProbes := i\<rparr>"
    using assms(3) by (simp add: dec_public_member_simps dec_int_num [OF i(2)] i(1))
  then show ?thesis using assms(1) i(3,4) by (simp add: public_ok_def)
qed

lemma dec_gracePeriod_ok:
  assumes "public_ok s" "validateRecursive ctx (bounded (Some 5) (Some 14400)) v = []"
    "dec_public_member (s, e) (''gracePeriod'', v) = (s', e')"
  shows "public_ok s'"
proof -
  obtain n i where i: "v = JNum n" "json_int n = Some i" "5 \<le> i" "i \<le> 14400"
    using bounded_member [OF assms(2)] by blast
  have "s' = s\<lparr>ps_GracePeriod := i\<rparr>"
    using assms(3) by (simp add: dec_public_member_simps dec_int_num [OF i(2)] i(1))
  then show ?thesis using assms(1) i(3,4) by (simp add: public_ok_def)
qed

lemma dec_requestPath_ok:
  assumes "public_ok s" "dec_public_member (s, e) (''requestPath'', v) = (s', e')"
  shows "public_ok s'"
proof -
  obtain x e1 where x: "dec_string ''publicSettings'' ''requestPath'' v (ps_RequestPath s) = (x, e1)" by force
  have "s' = s\<lparr>ps_RequestPath := x\<rparr>"
    using assms(2) by (simp add: dec_public_member_simps x)
  then show ?thesis using assms(1) by (simp add: public_ok_def)
qed

lemma dec_vmWatchSettings_ok:
  assumes "public_ok s" "dec_public_member (s, e) (''vmWatchSettings'', v) = (s', e')"
  shows "public_ok s'"
proof -
  obtain x e1 where x: "dec_vmWatch v (ps_VMWatchSettings s) = (x, e1)" by force
  have "s' = s\<lparr>ps_VMWatchSettings := x\<rparr>"
    using assms(2) by (simp add: dec_public_member_simps x)
  then show ?thesis using assms(1) by (simp add: public_ok_def)
qed

lemma dec_public_member_ok:
  assumes "public_ok s" "(k, sch) \<in> set (properties publicSettingsSchema)"
    "validateRecursive [k] sch v = []" "wf_json v" "dec_public_member (s, e) (k, v) = (s', e')"
  shows "public_ok s'"
proof -
  have "(k = ''protocol'' \<and> sch = protocol_schema) \<or> (k = ''port'' \<and> sch = bounded (Some 1) (Some 65535)) \<or>
    (k = ''requestPath'' \<and> sch = typed ''string'') \<or>
    (k = ''intervalInSeconds'' \<and> sch = bounded (Some 5) (Some 60)) \<or>
    (k = ''numberOfProbes'' \<and> sch = bounded (Some 1) (Some 24)) \<or>
    (k = ''gracePeriod'' \<and> sch = bounded (Some 5) (Some 14400)) \<or>
    (k = ''vmWatchSettings'' \<and> sch = vmWatchSettings_schema)"
    using assms(2)
    by (simp only: publicSettingsSchema_def object_schema_def subSchema.sel list.set insert_iff empty_iff simp_thms
        prod.inject)
  then show ?thesis
    using assms(1,3-5)
    by (elim disjE conjE; hypsubst)
      (rule dec_protocol_ok dec_port_ok dec_requestPath_ok dec_intervalInSeconds_ok dec_numberOfProbes_ok
        dec_gracePeriod_ok dec_vmWatchSettings_ok, assumption+)+
qed

lemma dec_public_fold_ok:
  assumes "public_ok s" "foldl dec_public_member (s, e) ms = (s', e')"
    "\<And>k v. (k, v) \<in> set ms \<Longrightarrow>
       wf_json v \<and> (\<exists>sch. (k, sch) \<in> set (properties publicSettingsSchema) \<and> validateRecursive [k] sch v = [])"
  shows "public_ok s'"
  using assms
proof (induction ms arbitrary: s e)
  case (Cons m ms)
  obtain k v where m: "m = (k, v)" by force
  obtain s1 e1 where 1: "dec_public_member (s, e) (k, v) = (s1, e1)" by force
  have "public_ok s1" using dec_public_member_ok [OF Cons.prems(1) _ _ _ 1] Cons.prems(3) m by force
  moreover have "foldl dec_public_member (s1, e1) ms = (s', e')" using Cons.prems(2) 1 m by simp
  ultimately show ?case by (rule Cons.IH) (use Cons.prems(3) in auto)
qed simp

lemma distinct_map_sort_key: "distinct (map f xs) \<Longrightarrow> distinct (map f (sort_key g xs))"
  by (simp add: distinct_map)

lemma unmarshal_public_ok:
  assumes "generic (JObj ms)" "validateSettingsSchema (Some ms) prot = None" "unmarshal_public (Some ms) = Inr h"
  shows "public_ok h"
proof -
  obtain ms' where ms': "sort_keys (JObj ms) = JObj ms'" by simp
  have dist: "distinct (map fst ms')"
    using assms(1) ms' by (auto simp: generic_def comp_def split_def intro: distinct_map_sort_key)
  have wf: "wf_json (JObj ms')"
    using assms(1) wf_sort_keys [of "JObj ms"] ms' by (simp add: generic_def)
  have valid: "validateRecursive [] publicSettingsSchema (JObj ms') = []"
    using validateSettingsSchema_public [OF assms(1,2)] ms' by simp
  have mem: "wf_json v \<and> (\<exists>sch. (k, sch) \<in> set (properties publicSettingsSchema) \<and> validateRecursive [k] sch v = [])"
    if kv: "(k, v) \<in> set ms'" for k v
  proof -
    obtain sch where sch: "(k, sch) \<in> set (properties publicSettingsSchema)"
      using valid_keys [of "[]" _ ms' k v] valid kv by (force simp: publicSettingsSchema_def object_schema_def)
    moreover have "map_of ms' k = Some v" using dist kv by simp
    ultimately have "validateRecursive ([] @ [k]) sch v = []"
      using valid_member [of "[]" "properties publicSettingsSchema" False ms' k sch v] valid
      by (simp add: publicSettingsSchema_def object_schema_def)
    with sch wf kv show ?thesis by (fastforce simp: list_all_iff)
  qed
  have "LoadJSON (marshal_map ms) = Inr (JObj ms')"
    using LoadJSON_marshal [OF assms(1)] ms' by (simp add: marshal_map_def)
  then obtain e where "foldl dec_public_member (zero_public, None) ms' = (h, e)"
    using assms(3) by (auto simp: unmarshal_public_def split: prod.splits option.splits)
  then show ?thesis using dec_public_fold_ok [OF public_ok_zero _ mem] by blast
qed

text \<open>What the reader returns is a generic value, if the text of every number is a number.\<close>

definition num_text_ok :: "(string \<Rightarrow> string) \<Rightarrow> bool" where
  "num_text_ok nt \<longleftrightarrow> (\<forall>n. scan_num n = Some (n, []) \<longrightarrow> scan_num (nt n) = Some (nt n, []))"

definition member_ok :: "string \<times> json \<Rightarrow> bool" where
  "member_ok m \<longleftrightarrow> valid_utf8 (fst m) \<and> wf_json (snd m) \<and> distinct_keys (snd m) \<and> depth (snd m) < maxNestingDepth"

lemma generic_JObj: "generic (JObj ms) \<longleftrightarrow> distinct (map fst ms) \<and> (\<forall>m \<in> set ms. member_ok m)"
proof -
  have "depth (JObj ms) \<le> maxNestingDepth \<longleftrightarrow> (\<forall>m \<in> set ms. depth (snd m) < maxNestingDepth)"
  proof
    assume "depth (JObj ms) \<le> maxNestingDepth"
    then show "\<forall>m \<in> set ms. depth (snd m) < maxNestingDepth"
      using depth_mem(2) [of _ _ ms] by (metis less_le_trans prod.collapse)
  next
    assume "\<forall>m \<in> set ms. depth (snd m) < maxNestingDepth"
    then have "fold max (map (\<lambda>(k, v). depth v) ms) 0 \<le> maxNestingDepth - 1"
      by (intro fold_max_le) (auto simp: maxNestingDepth_def split_def)
    then show "depth (JObj ms) \<le> maxNestingDepth" by (simp add: maxNestingDepth_def)
  qed
  then show ?thesis
    by (auto simp: generic_def member_ok_def list_all_iff split_def simp del: depth.simps)
qed

lemma put_member_facts:
  "set (put_member m xs) \<subseteq> insert m (set xs)"
  "fst ` set (put_member m xs) = insert (fst m) (fst ` set xs)"
  "distinct (map fst xs) \<Longrightarrow> distinct (map fst (put_member m xs))"
proof -
  show f: "fst ` set (put_member m xs) = insert (fst m) (fst ` set xs)" for xs
    by (induction xs) auto
  show "set (put_member m xs) \<subseteq> insert m (set xs)" by (induction xs) auto
  show "distinct (map fst xs) \<Longrightarrow> distinct (map fst (put_member m xs))"
    by (induction xs) (simp_all add: f, metis)
qed

lemma merge_members_facts:
  "set (merge_members old new) \<subseteq> set old \<union> set new \<and>
   (distinct (map fst old) \<longrightarrow> distinct (map fst (merge_members old new)))"
proof (induction new arbitrary: old)
  case (Cons m new)
  have "merge_members old (m # new) = merge_members (put_member m old) new" by (simp add: merge_members_def)
  then show ?case using Cons [of "put_member m old"] put_member_facts(1,3) [where m = m and xs = old] by auto
qed (simp add: merge_members_def)

lemma generic_merge:
  assumes "generic (JObj old)" "\<forall>m \<in> set new. member_ok m"
  shows "generic (JObj (merge_members old new))"
  using assms merge_members_facts [of old new] unfolding generic_JObj by auto

lemma depth_to_generic: "depth (to_generic nt v) \<le> depth v"
proof (induction v)
  case (JArr vs)
  have "depth (to_generic nt v) \<le> fold max (map depth vs) 0" if "v \<in> set vs" for v
    using JArr [OF that] that by (force intro: fold_max_mem order_trans)
  then show ?case by (auto intro!: fold_max_le)
next
  case (JObj ms)
  have "depth (to_generic nt v) \<le> fold max (map (\<lambda>(k, v). depth v) ms) 0" if "(k, v) \<in> set ms" for k v
  proof -
    have "depth v \<le> fold max (map (\<lambda>(k, v). depth v) ms) 0"
      using that by (force intro: fold_max_mem)
    then show ?thesis using JObj that by (fastforce dest: order_trans)
  qed
  moreover have "set (merge_members [] (map (\<lambda>(k, v). (k, to_generic nt v)) ms)) \<subseteq> (\<lambda>(k, v). (k, to_generic nt v)) ` set ms"
    using merge_members_facts [of "[]"] by fastforce
  ultimately have "\<forall>m \<in> set (merge_members [] (map (\<lambda>(k, v). (k, to_generic nt v)) ms)).
      depth (snd m) \<le> fold max (map (\<lambda>(k, v). depth v) ms) 0"
    by fastforce
  then show ?case by (auto simp: split_def intro!: fold_max_le)
qed simp_all

lemma to_generic_wf:
  assumes "num_text_ok nt" "wf_json v"
  shows "wf_json (to_generic nt v) \<and> distinct_keys (to_generic nt v)"
  using assms(2)
proof (induction v)
  case (JObj ms)
  have "\<forall>m \<in> set ms. valid_utf8 (fst m) \<and> wf_json (to_generic nt (snd m)) \<and> distinct_keys (to_generic nt (snd m))"
    using JObj by (force simp: list_all_iff)
  moreover have "set (merge_members [] (map (\<lambda>(k, v). (k, to_generic nt v)) ms)) \<subseteq> (\<lambda>(k, v). (k, to_generic nt v)) ` set ms"
    "distinct (map fst (merge_members [] (map (\<lambda>(k, v). (k, to_generic nt v)) ms)))"
    using merge_members_facts [of "[]" "map (\<lambda>(k, v). (k, to_generic nt v)) ms"] by auto
  ultimately show ?case by (fastforce simp: list_all_iff)
qed (use assms(1) in \<open>auto simp: num_text_ok_def list_all_iff\<close>)

text \<open>The public settings of a decoded file are generic: an invariant of the decoding.\<close>

definition file_ok :: "settings_file \<Rightarrow> bool" where
  "file_ok f \<longleftrightarrow> (case hs_PublicSettings f of None \<Rightarrow> True | Some ms \<Rightarrow> generic (JObj ms))"

lemma generic_empty: "generic (JObj [])"
  by (simp add: generic_JObj)

lemma dec_map_generic:
  assumes "dec_map st f (to_generic nt v) old = (Some ms, e)" "num_text_ok nt" "wf_json v"
    "depth v \<le> maxNestingDepth" "\<And>ms. old = Some ms \<Longrightarrow> generic (JObj ms)"
  shows "generic (JObj ms)"
proof (cases "to_generic nt v")
  case (JObj new)
  have "generic (to_generic nt v)"
    using to_generic_wf [OF assms(2,3)] depth_to_generic [of nt v] assms(4) by (simp add: generic_def)
  then have "\<forall>m \<in> set new. member_ok m" by (simp add: JObj generic_JObj)
  moreover have "generic (JObj (case old of None \<Rightarrow> [] | Some o' \<Rightarrow> o'))"
    using assms(5) generic_empty by (auto split: option.split)
  ultimately show ?thesis using assms(1) JObj by (auto simp: dec_map_def intro: generic_merge)
qed (use assms in \<open>auto simp: dec_map_def\<close>)

lemma dec_file_member_ok:
  assumes "num_text_ok nt" "wf_json v" "depth v \<le> maxNestingDepth" "file_ok (fst d)"
  shows "file_ok (fst (dec_file_member nt d (k, v)))"
  using assms
  by (cases d)
    (auto simp: dec_file_member_def file_ok_def Let_def elim!: dec_map_generic [OF _ assms(1-3)]
      split: prod.splits option.splits)

lemma dec_struct_ok:
  assumes "wf_json v" "depth v \<le> maxNestingDepth" "P (fst d)"
    "\<And>d k x. wf_json x \<Longrightarrow> depth x \<le> maxNestingDepth \<Longrightarrow> P (fst d) \<Longrightarrow> P (fst (mem d (k, x)))"
  shows "P (fst (dec_struct mem err d v))"
proof (cases v)
  case (JObj ms)
  have "\<forall>(k, x) \<in> set ms. wf_json x \<and> depth x \<le> maxNestingDepth"
    using assms(1,2) depth_mem(2) [of _ _ ms] JObj by (fastforce simp: list_all_iff simp del: depth.simps)
  then have "P (fst (foldl mem d ms))"
    using assms(3)
  proof (induction ms arbitrary: d)
    case (Cons m ms)
    then have "P (fst (mem d m))" using assms(4) [of "snd m" d "fst m"] by auto
    then have "P (fst (foldl mem (mem d m) ms))" by (rule Cons.IH [rotated]) (use Cons.prems in auto)
    then show ?case by simp
  qed simp
  then show ?thesis by (simp add: JObj dec_struct_def)
qed (use assms(3) in \<open>simp_all add: dec_struct_def\<close>)

lemma file_ok_zero [simp]: "file_ok zero_file"
  by (simp add: file_ok_def zero_file_def)

lemma dec_runtime_elem_ok:
  assumes "num_text_ok nt" "wf_json v" "depth v \<le> maxNestingDepth"
  shows "file_ok (fst (dec_runtime_elem nt v))"
  unfolding dec_runtime_elem_def
  by (rule dec_struct_ok [OF assms(2,3)])
    (auto intro: dec_struct_ok dec_file_member_ok [OF assms(1)])

lemma dec_runtime_member_ok:
  assumes "num_text_ok nt" "wf_json v" "depth v \<le> maxNestingDepth" "list_all file_ok (fst d)"
  shows "list_all file_ok (fst (dec_runtime_member nt d (k, v)))"
proof (cases "is_field ''runtimeSettings'' k \<and> (\<exists>vs. v = JArr vs)")
  case True
  then obtain vs where v: "v = JArr vs" by blast
  then have "\<forall>x \<in> set vs. file_ok (fst (dec_runtime_elem nt x))"
    using assms(1-3) depth_mem(1) [of _ vs] by (fastforce simp: list_all_iff simp del: depth.simps intro: dec_runtime_elem_ok)
  then show ?thesis using True v by (cases d) (simp add: dec_runtime_member_def list_all_iff)
next
  case False
  then show ?thesis using assms(4)
    by (cases d; cases v) (auto simp: dec_runtime_member_def)
qed

lemma parseHandlerSettingsFile_ok:
  assumes "parseHandlerSettingsFile nt w p = Inr f" "num_text_ok nt"
  shows "file_ok f"
proof -
  have "list_all file_ok (fst (dec_struct (dec_runtime_member nt) err ([], None) v))"
    if v: "parse_json b = Some v" for b v err
  proof -
    have "wf_json v \<and> depth v \<le> maxNestingDepth"
      using v parse_wf(1) [of maxNestingDepth b] by (auto simp: parse_json_def split: option.splits if_splits)
    then show ?thesis using dec_struct_ok [of v "list_all file_ok"] dec_runtime_member_ok [OF assms(2)] by simp
  qed
  moreover have "file_ok f" if "one_runtime_setting d = Inr f" "list_all file_ok (fst d)" for d
    using that by (auto simp: one_runtime_setting_def split: option.splits list.splits)
  ultimately show ?thesis using assms(1)
    by (auto simp: parseHandlerSettingsFile_def split: sum.splits list.splits option.splits)
qed

lemma readSettings_generic:
  assumes "readSettings env c w = Inr (Some ms, prot)" "num_text_ok (se_num_text env)"
  shows "generic (JObj ms)"
  using assms parseHandlerSettingsFile_ok [OF _ assms(2)]
  by (fastforce simp: readSettings_def ReadSettings_def file_ok_def split: sum.splits)

lemma unmarshal_accepted_ok:
  assumes "readSettings env c w = Inr (pub, prot)" "num_text_ok (se_num_text env)"
    "validateSettingsSchema pub prot = None" "UnmarshalHandlerSettings pub prot = Inr h"
  shows "public_ok h"
proof (cases pub)
  case None
  with assms(4) show ?thesis by (auto simp: UnmarshalHandlerSettings_def unmarshal_public_def public_ok_zero)
next
  case (Some ms)
  moreover have "generic (JObj ms)" using readSettings_generic assms(1,2) Some by blast
  ultimately show ?thesis
    using unmarshal_public_ok assms(3,4) by (auto simp: UnmarshalHandlerSettings_def split: sum.splits)
qed

lemma parseAndValidateSettings_Inr:
  assumes "parseAndValidateSettings env c w = (Inr h, evs)"
  obtains pub prot where "readSettings env c w = Inr (pub, prot)" "validateSettingsSchema pub prot = None"
    "UnmarshalHandlerSettings pub prot = Inr h" "validate h = None"
  using assms by (auto simp: parseAndValidateSettings_def Let_def split: sum.splits option.splits)

lemma settle_exact:
  assumes "public_ok h"
  shows "5 \<le> intervalInSeconds h \<and> intervalInSeconds h \<le> 60 \<and> 1 \<le> numberOfProbes h \<and> numberOfProbes h \<le> 24 \<and>
    imul64 (intervalInSeconds h) (numberOfProbes h) = intervalInSeconds h * numberOfProbes h"
proof -
  have b: "5 \<le> intervalInSeconds h" "intervalInSeconds h \<le> 60" "1 \<le> numberOfProbes h" "numberOfProbes h \<le> 24"
    using assms by (auto simp: public_ok_def intervalInSeconds_def numberOfProbes_def go_consts)
  moreover from b have "0 \<le> intervalInSeconds h * numberOfProbes h" by simp
  moreover from b have "intervalInSeconds h * numberOfProbes h \<le> 60 * 24" by (intro mult_mono) auto
  ultimately have "in_int64 (intervalInSeconds h * numberOfProbes h)" by (intro in_int64_small) linarith+
  then show ?thesis using b by (simp add: imul64_exact)
qed

section \<open>Properties\<close>

text \<open>C15: Whatever settings file the extension accepts, the values the main loop works with are in
  range: probe interval, number of probes, their product, grace period, port and protocol; TCP
  probes have a port and no path.  The 64-bit products of the code do not overflow.\<close>

theorem accepted_settings_bounds:
  assumes "parseAndValidateSettings env c w = (Inr h, evs)" "num_text_ok (se_num_text env)"
  shows "5 \<le> intervalInSeconds h \<and> intervalInSeconds h \<le> 60 \<and> 1 \<le> numberOfProbes h \<and> numberOfProbes h \<le> 24 \<and>
    intervalInSeconds h * numberOfProbes h \<le> 240 \<and>
    5 \<le> gracePeriod h \<and> gracePeriod h \<le> 14400 \<and>
    (gracePeriod h = ps_GracePeriod h \<or> gracePeriod h = intervalInSeconds h * numberOfProbes h) \<and>
    protocol h \<in> {[], ''tcp'', ''http'', ''https''} \<and> 0 \<le> port h \<and> port h \<le> 65535 \<and>
    (protocol h = ''tcp'' \<longrightarrow> 1 \<le> port h \<and> requestPath h = [])"
proof -
  obtain pub prot where "readSettings env c w = Inr (pub, prot)" "validateSettingsSchema pub prot = None"
    "UnmarshalHandlerSettings pub prot = Inr h" and v: "validate h = None"
    using assms(1) by (rule parseAndValidateSettings_Inr)
  then have ok: "public_ok h" using unmarshal_accepted_ok assms(2) by blast
  note b = settle_exact [OF ok]
  have "intervalInSeconds h * numberOfProbes h \<le> 240"
    using v b by (auto simp: validate_def go_consts split: if_splits)
  moreover have "5 * 1 \<le> intervalInSeconds h * numberOfProbes h"
    using b by (intro mult_mono) auto
  ultimately have "5 \<le> gracePeriod h \<and> gracePeriod h \<le> 14400 \<and> intervalInSeconds h * numberOfProbes h \<le> 240"
    using ok b by (auto simp: gracePeriod_def public_ok_def)
  moreover have "protocol h = ''tcp'' \<longrightarrow> 1 \<le> port h \<and> requestPath h = []"
    using v ok by (auto simp: validate_def public_ok_def port_def split: if_splits)
  ultimately show ?thesis
    using b ok by (simp add: public_ok_def protocol_def port_def gracePeriod_def)
qed

definition sample_env :: settings_env where
  "sample_env = \<lparr>se_glob = Inr [''/c/0.settings''], se_num_text = id, se_decrypt = (\<lambda>_ _ _. Inl (Errorf ''no key''))\<rparr>"

definition sample_public :: "(string \<times> json) list" where
  "sample_public = [(''protocol'', JStr ''http''), (''numberOfProbes'', JNum ''3''), (''requestPath'', JStr ''/health'')]"

definition sample_doc :: json where
  "sample_doc = JObj [(''runtimeSettings'', JArr [JObj [(''handlerSettings'', JObj
     [(''publicSettings'', JObj sample_public)])]])]"

definition sample_fs :: fs where
  "sample_fs = plain_fs [(''/c/0.settings'', marshal_json sample_doc)]"

definition sample_result :: handlerSettings where
  "sample_result = zero_public\<lparr>ps_Protocol := ''http'', ps_NumberOfProbes := 3, ps_RequestPath := ''/health''\<rparr>"

lemma sample_file:
  "parseHandlerSettingsFile id sample_fs ''/c/0.settings'' = Inr (zero_file\<lparr>hs_PublicSettings := Some sample_public\<rparr>)"
proof -
  have wf: "wf_json sample_doc" "depth sample_doc \<le> maxNestingDepth" by code_simp+
  have "ReadFile sample_fs ''/c/0.settings'' = Inr (marshal_json sample_doc)"
    by (simp add: sample_fs_def plain_fs_def ReadFile_def)
  moreover obtain c r where "marshal_json sample_doc = c # r"
    by (simp add: marshal_json_def sample_doc_def)
  moreover have "one_runtime_setting (dec_struct (dec_runtime_member id)
      (Errorf (''json: cannot unmarshal '' @ kind_of sample_doc @ '' into Go value of type vmextension.handlerSettingsFile''))
      ([], None) sample_doc) = Inr (zero_file\<lparr>hs_PublicSettings := Some sample_public\<rparr>)"
    by code_simp
  ultimately show ?thesis using parse_marshal(1) [OF wf] by (simp add: parseHandlerSettingsFile_def)
qed

lemma sample_read: "readSettings sample_env ''/c'' sample_fs = Inr (Some sample_public, None)"
proof -
  have "settingsPath ''/c'' (Inr [''/c/0.settings'']) = Inr ''/c/0.settings''" by code_simp
  then show ?thesis
    using sample_file
    by (simp add: readSettings_def ReadSettings_def sample_env_def unmarshalProtectedSettings_def zero_file_def)
qed

lemma sample_accepted:
  "validateSettingsSchema (Some sample_public) None = None"
  "UnmarshalHandlerSettings (Some sample_public) None = Inr sample_result"
  "validate sample_result = None"
  by code_simp+

theorem accepted_settings_bounds_witness:
  "intervalInSeconds sample_result * numberOfProbes sample_result \<le> 240"
proof -
  have "fst (parseAndValidateSettings sample_env ''/c'' sample_fs) = Inr sample_result"
    by (simp add: parseAndValidateSettings_def sample_read sample_accepted)
  then have "parseAndValidateSettings sample_env ''/c'' sample_fs =
     (Inr sample_result, snd (parseAndValidateSettings sample_env ''/c'' sample_fs))"
    by (metis prod.collapse)
  moreover have "num_text_ok (se_num_text sample_env)" by (simp add: num_text_ok_def sample_env_def)
  ultimately show ?thesis using accepted_settings_bounds by blast
qed

text \<open>The schema knows the limits of the VMWatch settings only under the exact spelling of their keys: it admits
  further properties, and the decoder matches field names without regard to case, so a respelled key carries
  a value past the schema that it rejects under the documented key.  The value is then rejected when VMWatch
  is set up, with every attempt, instead of when the settings are read.\<close>

lemma vmWatch_limits_bypass:
  "validateSettingsSchema (Some [(''vmWatchSettings'', JObj [(''maxCpuPercentage'', JNum ''5000'')])]) None \<noteq> None \<and>
   validateSettingsSchema (Some [(''vmWatchSettings'', JObj [(''MaxCpuPercentage'', JNum ''5000'')])]) None = None \<and>
   UnmarshalHandlerSettings (Some [(''vmWatchSettings'', JObj [(''MaxCpuPercentage'', JNum ''5000'')])]) None =
     Inr (zero_public\<lparr>ps_VMWatchSettings := Some (zero_vmWatch\<lparr>vs_MaxCpuPercentage := 5000\<rparr>)\<rparr>)"
  by code_simp

text \<open>The settings are read from the file with the highest number in the configuration folder: every other
  file's number is at most the one in the path.\<close>

lemma settingsPath_max:
  assumes "settingsPath c (Inr g) = Inr p"
  shows "\<exists>n. p = path_Join [c, Itoa n @ ''.settings''] \<and>
    (\<forall>v \<in> set g. \<exists>i. Atoi (remove_first ''.settings'' (path_Base v)) = Inr i \<and> i \<le> n)"
proof -
  let ?num = "\<lambda>v. Atoi (remove_first ''.settings'' (path_Base v))"
  let ?val = "\<lambda>v. case ?num v of Inr i \<Rightarrow> i | Inl _ \<Rightarrow> 0"
  obtain n where n: "vmext_FindSeqNum c (Inr g) = Inr n" "p = path_Join [c, Itoa n @ ''.settings'']"
    using assms by (auto simp: settingsPath_def split: sum.splits)
  have none: "find (\<lambda>v. is_err (?num v)) g = None"
    using n(1) by (auto simp: vmext_FindSeqNum_def split: option.splits)
  let ?xs = "replicate (length g) 0 @ map ?val g"
  obtain rest where "rev (sort ?xs) = n # rest"
    using n(1) none by (auto simp: vmext_FindSeqNum_def split: list.splits)
  then have "sort ?xs = rev rest @ [n]" by (metis rev_rev_ident rev.simps(2))
  moreover have "sorted (sort ?xs)" by simp
  ultimately have "\<forall>x \<in> set (sort ?xs). x \<le> n" by (auto simp: sorted_append)
  then have "\<forall>v \<in> set g. ?val v \<le> n" by auto
  moreover have "\<forall>v \<in> set g. \<exists>i. ?num v = Inr i"
    using none unfolding find_None_iff is_err_def by (metis old.sum.exhaust old.sum.simps(5))
  ultimately show ?thesis using n(2) by fastforce
qed

end
