(* ===== verification/Health.thy ===== *)
theory Health
  imports Settings Status
begin

text \<open>
  Health probes (\<open>main/health.go\<close>, \<open>main/probeResponse.go\<close>): the health states and what they report,
  the probe response and its validation, the TCP, HTTP and default probes, the address they target,
  and the heart beat.  What a probe meets outside (the dial, the HTTP exchange) is a record given to
  \<open>evaluate\<close>.  The locale \<open>health_probe\<close> states what the main loop relies on.
\<close>

section \<open>Health states\<close>

type_synonym HealthStatus = string

definition Initializing :: HealthStatus where "Initializing = ''Initializing''"
definition Healthy :: HealthStatus where "Healthy = ''Healthy''"
definition Unhealthy :: HealthStatus where "Unhealthy = ''Unhealthy''"
definition Unknown :: HealthStatus where "Unknown = ''Unknown''"
definition Empty :: string where "Empty = []"

lemmas state_defs = Initializing_def Healthy_def Unhealthy_def Unknown_def Empty_def

lemma states_distinct [simp]:
  "Initializing \<noteq> Healthy" "Healthy \<noteq> Initializing" "Initializing \<noteq> Unhealthy" "Unhealthy \<noteq> Initializing"
  "Initializing \<noteq> Unknown" "Unknown \<noteq> Initializing" "Healthy \<noteq> Unhealthy" "Unhealthy \<noteq> Healthy"
  "Healthy \<noteq> Unknown" "Unknown \<noteq> Healthy" "Unhealthy \<noteq> Unknown" "Unknown \<noteq> Unhealthy"
  "Empty \<noteq> Initializing" "Initializing \<noteq> Empty" "Empty \<noteq> Healthy" "Healthy \<noteq> Empty"
  "Empty \<noteq> Unhealthy" "Unhealthy \<noteq> Empty" "Empty \<noteq> Unknown" "Unknown \<noteq> Empty"
  by (simp_all add: state_defs)

definition GetStatusType :: "HealthStatus \<Rightarrow> StatusType" where
  "GetStatusType p =
     (if p = Initializing then StatusTransitioning else if p = Unknown then StatusError else StatusSuccess)"

definition GetStatusTypeForAppHealthStatus :: "HealthStatus \<Rightarrow> StatusType" where
  "GetStatusTypeForAppHealthStatus p = (if p = Unhealthy \<or> p = Unknown then StatusError else StatusSuccess)"

definition GetMessageForAppHealthStatus :: "HealthStatus \<Rightarrow> string" where
  "GetMessageForAppHealthStatus p =
     (if GetStatusTypeForAppHealthStatus p = StatusError then ''Application found to be unhealthy''
      else ''Application found to be healthy'')"

section \<open>The probe response\<close>

record ProbeResponse =
  pr_ApplicationHealthState :: HealthStatus
  pr_CustomMetrics :: string

definition zero_response :: ProbeResponse where
  "zero_response = \<lparr>pr_ApplicationHealthState = [], pr_CustomMetrics = []\<rparr>"

definition allowedHealthStatuses :: "HealthStatus \<Rightarrow> bool" where
  "allowedHealthStatuses s \<longleftrightarrow> s = Healthy \<or> s = Unhealthy"

definition validateApplicationHealthState :: "ProbeResponse \<Rightarrow> go_error option" where
  "validateApplicationHealthState p =
     (if \<not> allowedHealthStatuses (pr_ApplicationHealthState p)
      then Some (Errorf (''Response body key 'ApplicationHealthState' has invalid value '' @ [CHR 0x27]
             @ pr_ApplicationHealthState p @ [CHR 0x27]))
      else None)"

text \<open>\<open>json.Unmarshal\<close> into a \<open>map[string]interface{}\<close> variable: the members, if there is no error.\<close>

definition unmarshal_object :: "string \<Rightarrow> (string \<times> json) list option" where
  "unmarshal_object s =
     (case parse_json s of
        Some (JObj ms) \<Rightarrow> if interface_ok (JObj ms) then Some ms else None
      | Some JNull \<Rightarrow> Some []
      | _ \<Rightarrow> None)"

definition validateCustomMetrics :: "ProbeResponse \<Rightarrow> go_error option" where
  "validateCustomMetrics p =
     (if pr_CustomMetrics p \<noteq> [] then
        (case unmarshal_object (pr_CustomMetrics p) of
           None \<Rightarrow>
             Some (Errorf (''Response body key 'CustomMetrics' value is not a valid json object: '' @ [CHR 0x27]
               @ pr_CustomMetrics p @ [CHR 0x27]))
         | Some [] \<Rightarrow>
             Some (Errorf (''Response body key 'CustomMetrics' value must not be an empty json object: '' @ [CHR 0x27]
               @ pr_CustomMetrics p @ [CHR 0x27]))
         | Some _ \<Rightarrow> None)
      else None)"

definition dec_response_member :: "ProbeResponse dec \<Rightarrow> string \<times> json \<Rightarrow> ProbeResponse dec" where
  "dec_response_member d m =
     (let (s, e) = d; (k, v) = m; st = ''ProbeResponse'' in
      if is_field ''applicationHealthState'' k then
        (let (x, e') = dec_string st ''applicationHealthState'' v (pr_ApplicationHealthState s)
         in (s\<lparr>pr_ApplicationHealthState := x\<rparr>, keep_first e e'))
      else if is_field ''customMetrics'' k then
        (let (x, e') = dec_string st ''customMetrics'' v (pr_CustomMetrics s)
         in (s\<lparr>pr_CustomMetrics := x\<rparr>, keep_first e e'))
      else (s, e))"

definition unmarshal_response :: "string \<Rightarrow> ProbeResponse dec" where
  "unmarshal_response b =
     (case parse_json b of
        None \<Rightarrow> (zero_response, Some (Errorf ''invalid character in JSON input''))
      | Some v \<Rightarrow>
          dec_struct dec_response_member
            (Errorf (''json: cannot unmarshal '' @ kind_of v @ '' into Go value of type main.ProbeResponse''))
            (zero_response, None) v)"

section \<open>Probes\<close>

datatype HealthProbe =
    TcpHealthProbe string
  | HttpHealthProbe bool string  \<comment> \<open>with the TLS transport or the default one; address\<close>
  | DefaultHealthProbe

text \<open>The state each kind of probe imposes when the grace period expires, and the address it targets.\<close>

definition tcp_afterGracePeriod :: HealthStatus where [simp]: "tcp_afterGracePeriod = Unhealthy"
definition http_afterGracePeriod :: HealthStatus where [simp]: "http_afterGracePeriod = Unknown"
definition default_afterGracePeriod :: HealthStatus where [simp]: "default_afterGracePeriod = Unhealthy"
definition default_address :: string where [simp]: "default_address = []"

fun address :: "HealthProbe \<Rightarrow> string" where
  "address (TcpHealthProbe a) = a"
| "address (HttpHealthProbe tls a) = a"
| "address DefaultHealthProbe = default_address"

fun healthStatusAfterGracePeriodExpires :: "HealthProbe \<Rightarrow> HealthStatus" where
  "healthStatusAfterGracePeriodExpires (TcpHealthProbe a) = tcp_afterGracePeriod"
| "healthStatusAfterGracePeriodExpires (HttpHealthProbe tls a) = http_afterGracePeriod"
| "healthStatusAfterGracePeriodExpires DefaultHealthProbe = default_afterGracePeriod"

text \<open>\<open>url.URL.String\<close> for a scheme, a host that needs no escaping and a path.\<close>

definition hex_upper :: "nat \<Rightarrow> char" where
  "hex_upper n = (if n < 10 then char_of (48 + n) else char_of (55 + n))"

definition path_plain :: "char \<Rightarrow> bool" where
  "path_plain c \<longleftrightarrow>
     is_digit c \<or> (65 \<le> bval c \<and> bval c \<le> 90) \<or> (97 \<le> bval c \<and> bval c \<le> 122) \<or> c \<in> set ''-_.~$&+,/:;=@''"

definition escape_path :: "string \<Rightarrow> string" where
  "escape_path p =
     concat (map (\<lambda>c. if path_plain c then [c] else [CHR ''%'', hex_upper (bval c div 16), hex_upper (bval c mod 16)]) p)"

definition url_String :: "string \<Rightarrow> string \<Rightarrow> string \<Rightarrow> string" where
  "url_String scheme host path =
     (let p = (if path = ''*'' then ''*'' else escape_path path)
      in scheme @ ''://'' @ host @ (if p \<noteq> [] \<and> hd p \<noteq> CHR ''/'' then ''/'' else []) @ p)"

definition constructAddress :: "string \<Rightarrow> int \<Rightarrow> string \<Rightarrow> string" where
  "constructAddress prot prt reqPath =
     (let portString =
        (if prot = ''http'' \<and> prt \<noteq> 0 \<and> prt \<noteq> 80 then '':'' @ Itoa prt
         else if prot = ''https'' \<and> prt \<noteq> 0 \<and> prt \<noteq> 443 then '':'' @ Itoa prt
         else [])
      in url_String prot (''localhost'' @ portString) reqPath)"

definition NewHttpHealthProbe :: "string \<Rightarrow> string \<Rightarrow> int \<Rightarrow> HealthProbe" where
  "NewHttpHealthProbe prot reqPath prt =
     HttpHealthProbe (prot = ''https'') (constructAddress prot prt reqPath)"

definition probe_event :: "string \<Rightarrow> event" where
  "probe_event m = (InfoEvent, AppHealthProbeTask, m)"

definition creating_probe :: "handlerSettings \<Rightarrow> HealthProbe \<Rightarrow> event" where
  "creating_probe cfg p = probe_event (''Creating '' @ protocol cfg @ '' probe targeting '' @ address p)"

definition NewHealthProbe :: "handlerSettings \<Rightarrow> HealthProbe \<times> event list" where
  "NewHealthProbe cfg =
     (if protocol cfg = ''tcp'' then
        (let p = TcpHealthProbe (''localhost:'' @ Itoa (port cfg)) in (p, [creating_probe cfg p]))
      else if protocol cfg = ''http'' \<or> protocol cfg = ''https'' then
        (let p = NewHttpHealthProbe (protocol cfg) (requestPath cfg) (port cfg) in (p, [creating_probe cfg p]))
      else (DefaultHealthProbe, [probe_event ''Configuration not provided. Using default reporting.'']))"

section \<open>Evaluation\<close>

definition errNoRedirect :: go_error where "errNoRedirect = Sentinel ''No redirect allowed''"
definition errUnableToConvertType :: go_error where "errUnableToConvertType = Sentinel ''Unable to convert type''"

definition noRedirect :: "go_error option" where "noRedirect = Some errNoRedirect"

text \<open>What the network answers: the dial, and the HTTP exchange with the status code, the target of
  a redirect (empty without a \<open>Location\<close> header) and what reading the body gives.\<close>

datatype dial = DialError go_error | DialTcp | DialOther

datatype exchange = TransportError go_error | Reply int string "string result"

record probe_env =
  pe_dial :: dial
  pe_request :: "go_error option"
  pe_exchange :: exchange

text \<open>\<open>http.Client.Do\<close> follows a redirect only if \<open>CheckRedirect\<close> allows it.\<close>

definition is_redirect :: "int \<Rightarrow> bool" where
  "is_redirect code \<longleftrightarrow> code \<in> {301, 302, 303, 307, 308}"

definition HttpClient_Do :: "exchange \<Rightarrow> (int \<times> string result) result" where
  "HttpClient_Do x =
     (case x of
        TransportError e \<Rightarrow> Inl e
      | Reply code loc body \<Rightarrow>
          if is_redirect code \<and> loc \<noteq> [] then
            (case noRedirect of
               Some e \<Rightarrow> Inl (ErrorfW (''Get '' @ [CHR 0x22] @ loc @ [CHR 0x22] @ '': '' @ Error e) e)
             | None \<Rightarrow> Inr (code, body))
          else Inr (code, body))"

definition fail_state :: "ProbeResponse \<Rightarrow> HealthStatus \<Rightarrow> go_error \<Rightarrow> ProbeResponse \<times> go_error option" where
  "fail_state p s e = (p\<lparr>pr_ApplicationHealthState := s\<rparr>, Some e)"

definition tcp_evaluate :: "probe_env \<Rightarrow> ProbeResponse \<times> go_error option" where
  "tcp_evaluate env =
     (case pe_dial env of
        DialError e \<Rightarrow> fail_state zero_response Unhealthy e
      | DialOther \<Rightarrow> fail_state zero_response Unhealthy errUnableToConvertType
      | DialTcp \<Rightarrow> (zero_response\<lparr>pr_ApplicationHealthState := Healthy\<rparr>, None))"

definition http_evaluate :: "probe_env \<Rightarrow> (ProbeResponse \<times> go_error option) \<times> event list" where
  "http_evaluate env =
     (case pe_request env of
        Some e \<Rightarrow> (fail_state zero_response Unknown e, [])
      | None \<Rightarrow>
          (case HttpClient_Do (pe_exchange env) of
             Inl e \<Rightarrow> (fail_state zero_response Unknown e, [])
           | Inr (code, body) \<Rightarrow>
               if code < 200 \<or> code > 299
               then (fail_state zero_response Unknown (Errorf (''Unsuccessful response status code '' @ Itoa code)), [])
               else
                 (case body of
                    Inl e \<Rightarrow> (fail_state zero_response Unknown e, [])
                  | Inr b \<Rightarrow>
                      (case unmarshal_response b of
                         (p, Some e) \<Rightarrow> (fail_state p Unknown e, [])
                       | (p, None) \<Rightarrow>
                           (let evs = (case validateCustomMetrics p of
                                         Some e \<Rightarrow> [(ErrorEvent, AppHealthProbeTask, Error e)] | None \<Rightarrow> [])
                            in case validateApplicationHealthState p of
                                 Some e \<Rightarrow> (fail_state p Unknown e, evs)
                               | None \<Rightarrow> ((p, None), evs))))))"

definition default_evaluate :: "ProbeResponse \<times> go_error option" where
  "default_evaluate = (zero_response\<lparr>pr_ApplicationHealthState := Healthy\<rparr>, None)"

fun evaluate :: "probe_env \<Rightarrow> HealthProbe \<Rightarrow> (ProbeResponse \<times> go_error option) \<times> event list" where
  "evaluate env (TcpHealthProbe a) = (tcp_evaluate env, [])"
| "evaluate env (HttpHealthProbe tls a) = http_evaluate env"
| "evaluate env DefaultHealthProbe = (default_evaluate, [])"

section \<open>Heart beat\<close>

definition RecordAppHealthHeartBeatIntervalInMinutes :: int where
  "RecordAppHealthHeartBeatIntervalInMinutes = 5"

text \<open>The two clock readings of the function, and the time of the last beat.\<close>

definition LogHeartBeat :: "go_time \<Rightarrow> go_time \<Rightarrow> go_time \<Rightarrow> go_time \<times> event list" where
  "LogHeartBeat t_since t_now lastLog =
     (if time_Sub t_since lastLog \<ge> imul64 RecordAppHealthHeartBeatIntervalInMinutes minute
      then (t_now, [(InfoEvent, ReportHeatBeatTask, ''AppHealthExtension is running'')])
      else (lastLog, []))"

section \<open>The interface\<close>

locale health_probe =
  fixes eval :: "'env \<Rightarrow> 'p \<Rightarrow> (ProbeResponse \<times> go_error option) \<times> event list"
    and after_grace :: "'p \<Rightarrow> HealthStatus"
  assumes eval_state: "eval env p = ((r, e), evs) \<Longrightarrow> pr_ApplicationHealthState r \<in> {Healthy, Unhealthy, Unknown}"
    and eval_error: "eval env p = ((r, Some e0), evs) \<Longrightarrow> pr_ApplicationHealthState r \<noteq> Healthy"
    and after_grace_state: "after_grace p \<in> {Unhealthy, Unknown}"
begin

lemma eval_reportable:
  "eval env p = ((r, e), evs) \<Longrightarrow>
   pr_ApplicationHealthState r \<noteq> Empty \<and> pr_ApplicationHealthState r \<noteq> Initializing"
  using eval_state by fastforce

lemma after_grace_reportable:
  "after_grace p \<noteq> Empty" "after_grace p \<noteq> Initializing" "after_grace p \<noteq> Healthy"
  using after_grace_state [of p] by auto

end

lemma http_evaluate_cases:
  assumes "http_evaluate env = ((r, e), evs)"
  shows "(e = None \<and> (pr_ApplicationHealthState r = Healthy \<or> pr_ApplicationHealthState r = Unhealthy)) \<or>
    (e \<noteq> None \<and> pr_ApplicationHealthState r = Unknown)"
  using assms
  by (auto simp: http_evaluate_def fail_state_def validateApplicationHealthState_def allowedHealthStatuses_def
      Let_def split: option.splits sum.splits prod.splits if_splits)

interpretation hp: health_probe evaluate healthStatusAfterGracePeriodExpires
proof (unfold_locales, goal_cases)
  case (1 env p r e evs)
  then show ?case
    by (cases p)
      (auto simp: tcp_evaluate_def fail_state_def default_evaluate_def dest: http_evaluate_cases split: dial.splits)
next
  case (2 env p r e0 evs)
  then show ?case
    by (cases p)
      (auto simp: tcp_evaluate_def fail_state_def default_evaluate_def dest: http_evaluate_cases split: dial.splits)
next
  case (3 p)
  then show ?case by (cases p) auto
qed

section \<open>Properties\<close>

definition dec_port :: "int \<Rightarrow> string" where
  "dec_port n = '':'' @ Itoa n"

lemma constructAddress_default:
  "prot = ''http'' \<Longrightarrow> constructAddress prot n q = url_String prot (''localhost'' @ (if n \<in> {0, 80} then [] else dec_port n)) q"
  "prot = ''https'' \<Longrightarrow> constructAddress prot n q = url_String prot (''localhost'' @ (if n \<in> {0, 443} then [] else dec_port n)) q"
  by (simp_all add: constructAddress_def dec_port_def)

lemma url_String_path:
  "\<exists>path. (path = [] \<or> hd path = CHR ''/'') \<and> url_String s h q = s @ ''://'' @ h @ path"
  by (rule exI [of _ "(let p = (if q = ''*'' then ''*'' else escape_path q)
        in (if p \<noteq> [] \<and> hd p \<noteq> CHR ''/'' then ''/'' else []) @ p)"])
    (simp add: url_String_def Let_def)

lemma NewHealthProbe_http:
  "protocol cfg = ''http'' \<Longrightarrow>
   fst (NewHealthProbe cfg) = HttpHealthProbe False (constructAddress (protocol cfg) (port cfg) (requestPath cfg))"
  "protocol cfg = ''https'' \<Longrightarrow>
   fst (NewHealthProbe cfg) = HttpHealthProbe True (constructAddress (protocol cfg) (port cfg) (requestPath cfg))"
  by (simp_all add: NewHealthProbe_def NewHttpHealthProbe_def Let_def)

text \<open>C18: Whatever the settings, the probe that is built targets this machine: a TCP address is
  \<open>localhost:port\<close>; an HTTP(S) address is the scheme, the host \<open>localhost\<close>, the port if it is neither 0
  nor the scheme's default, and nothing or a path that begins with a slash.  No request path can
  change the host.\<close>

theorem probe_targets_localhost:
  "(case fst (NewHealthProbe cfg) of
      TcpHealthProbe a \<Rightarrow> protocol cfg = ''tcp'' \<and> a = ''localhost'' @ dec_port (port cfg)
    | HttpHealthProbe tls a \<Rightarrow>
        protocol cfg \<in> {''http'', ''https''} \<and> (tls \<longleftrightarrow> protocol cfg = ''https'') \<and>
        (\<exists>path. (path = [] \<or> hd path = CHR ''/'') \<and>
           a = protocol cfg @ ''://localhost'' @
             (if port cfg \<in> {0, if tls then 443 else 80} then [] else dec_port (port cfg)) @ path)
    | DefaultHealthProbe \<Rightarrow> protocol cfg \<notin> {''tcp'', ''http'', ''https''})"
proof -
  consider (http) "protocol cfg = ''http''" | (https) "protocol cfg = ''https''"
    | (other) "protocol cfg \<noteq> ''http''" "protocol cfg \<noteq> ''https''"
    by (cases "protocol cfg = ''http''"; cases "protocol cfg = ''https''") iprover+
  then show ?thesis
  proof cases
    case http
    obtain path where "path = [] \<or> hd path = CHR ''/''"
      "constructAddress (protocol cfg) (port cfg) (requestPath cfg) =
         protocol cfg @ ''://'' @ (''localhost'' @ (if port cfg \<in> {0, 80} then [] else dec_port (port cfg))) @ path"
      unfolding constructAddress_default(1) [OF http] using url_String_path by blast
    with http show ?thesis by (simp add: NewHealthProbe_http)
  next
    case https
    obtain path where "path = [] \<or> hd path = CHR ''/''"
      "constructAddress (protocol cfg) (port cfg) (requestPath cfg) =
         protocol cfg @ ''://'' @ (''localhost'' @ (if port cfg \<in> {0, 443} then [] else dec_port (port cfg))) @ path"
      unfolding constructAddress_default(2) [OF https] using url_String_path by blast
    with https show ?thesis by (simp add: NewHealthProbe_http)
  next
    case other
    then show ?thesis by (simp add: NewHealthProbe_def dec_port_def Let_def)
  qed
qed

text \<open>C16: The HTTP probe reports a healthy application exactly when the request could be made
  and answered without an error or a redirect, the status code is a 2xx, the body could be read and
  decodes as a probe response without a type error, and its state is \<open>Healthy\<close>.  In every other case
  the state is \<open>Unhealthy\<close>, if the body says so, or \<open>Unknown\<close> with an error.\<close>

theorem http_healthy_iff:
  "pr_ApplicationHealthState (fst (fst (http_evaluate env))) = Healthy \<longleftrightarrow>
     pe_request env = None \<and>
     (\<exists>code loc b p. pe_exchange env = Reply code loc (Inr b) \<and> 200 \<le> code \<and> code \<le> 299 \<and>
        unmarshal_response b = (p, None) \<and> pr_ApplicationHealthState p = Healthy)"
proof
  assume "pr_ApplicationHealthState (fst (fst (http_evaluate env))) = Healthy"
  then show "pe_request env = None \<and> (\<exists>code loc b p. pe_exchange env = Reply code loc (Inr b) \<and> 200 \<le> code \<and>
      code \<le> 299 \<and> unmarshal_response b = (p, None) \<and> pr_ApplicationHealthState p = Healthy)"
    by (auto simp: http_evaluate_def HttpClient_Do_def noRedirect_def fail_state_def Let_def
        split: option.splits sum.splits prod.splits if_splits exchange.splits)
next
  assume "pe_request env = None \<and> (\<exists>code loc b p. pe_exchange env = Reply code loc (Inr b) \<and> 200 \<le> code \<and>
      code \<le> 299 \<and> unmarshal_response b = (p, None) \<and> pr_ApplicationHealthState p = Healthy)"
  then obtain code loc b p where 1: "pe_request env = None" "pe_exchange env = Reply code loc (Inr b)"
    "200 \<le> code" "code \<le> 299" "unmarshal_response b = (p, None)" "pr_ApplicationHealthState p = Healthy"
    by blast
  then have "\<not> is_redirect code" by (auto simp: is_redirect_def)
  with 1 show "pr_ApplicationHealthState (fst (fst (http_evaluate env))) = Healthy"
    by (simp add: http_evaluate_def HttpClient_Do_def Let_def validateApplicationHealthState_def
        allowedHealthStatuses_def)
qed

text \<open>C17: Every probe, in every environment, answers with one of the three reportable states, never
  reports an error together with \<open>Healthy\<close>, and the state a probe imposes when the grace period
  expires is never \<open>Healthy\<close>.\<close>

theorem probe_contract:
  "pr_ApplicationHealthState (fst (fst (evaluate env p))) \<in> {Healthy, Unhealthy, Unknown} \<and>
   (snd (fst (evaluate env p)) \<noteq> None \<longrightarrow> pr_ApplicationHealthState (fst (fst (evaluate env p))) \<noteq> Healthy) \<and>
   healthStatusAfterGracePeriodExpires p \<in> {Unhealthy, Unknown}"
proof -
  obtain r e evs where "evaluate env p = ((r, e), evs)" by (metis prod.collapse)
  then show ?thesis
    using hp.eval_state [of env p r e evs] hp.eval_error [of env p r _ evs] hp.after_grace_state [of p] by auto
qed

definition refused_env :: probe_env where
  "refused_env = \<lparr>pe_dial = DialError (Errorf ''connection refused''), pe_request = None,
     pe_exchange = TransportError (Errorf ''connection refused'')\<rparr>"

theorem probe_contract_witness:
  "pr_ApplicationHealthState (fst (fst (evaluate refused_env (TcpHealthProbe ''localhost:80'')))) \<noteq> Healthy"
  using probe_contract [of refused_env "TcpHealthProbe ''localhost:80''"]
  by (simp add: tcp_evaluate_def refused_env_def fail_state_def)

end
