(* ===== verification/Redact.thy ===== *)
theory Redact
  imports Prelude
begin

text \<open>
  Package \<open>pkg/redact\<close>: scrubbing secrets from text before it is logged.  The three regular
  expressions are written as matchers on byte strings.  Each of them is deterministic: the character
  classes it repeats exclude the character that must follow, so the leftmost match is the only one.
  \<open>ReplaceAllString\<close> is the scan that tries the matcher at every position, from the left, and goes on
  behind a match.
\<close>

section \<open>Patterns\<close>

definition Placeholder :: string where "Placeholder = ''<redacted>''"

text \<open>The keywords: letters, and the optional separator \<open>[_-]?\<close>.\<close>

datatype kw_elem = Lit char | OptSep

definition lits :: "string \<Rightarrow> kw_elem list" where
  "lits s = map Lit s"

definition sensitiveKeywords :: "kw_elem list list" where
  "sensitiveKeywords =
     [lits ''sas'', lits ''token'', lits ''secret'', lits ''password'', lits ''passwd'', lits ''pwd'', lits ''credential'',
      lits ''connection'' @ [OptSep] @ lits ''string'', lits ''account'' @ [OptSep] @ lits ''key'',
      lits ''api'' @ [OptSep] @ lits ''key'', lits ''access'' @ [OptSep] @ lits ''key'']"

text \<open>One letter under \<open>(?i)\<close>: either case, and the two letters outside ASCII that fold to \<open>s\<close>
  (U+017F) and \<open>k\<close> (U+212A).  The value is what is left of the text.\<close>

definition fold_letter :: "char \<Rightarrow> string \<Rightarrow> string option" where
  "fold_letter c s =
     (case s of
        [] \<Rightarrow> None
      | x # xs \<Rightarrow>
          if lower_char x = c then Some xs
          else if c = CHR ''s'' \<and> prefix [CHR 0xC5, CHR 0xBF] s then Some (drop 2 s)
          else if c = CHR ''k'' \<and> prefix [CHR 0xE2, CHR 0x84, CHR 0xAA] s then Some (drop 3 s)
          else None)"

fun kw_at :: "kw_elem list \<Rightarrow> string \<Rightarrow> bool" where
  "kw_at [] s = True"
| "kw_at (Lit c # es) s = (case fold_letter c s of None \<Rightarrow> False | Some s' \<Rightarrow> kw_at es s')"
| "kw_at (OptSep # es) s =
     ((s \<noteq> [] \<and> (hd s = CHR ''_'' \<or> hd s = CHR ''-'') \<and> kw_at es (tl s)) \<or> kw_at es s)"

definition sensitiveKeyPattern :: "string \<Rightarrow> bool" where
  "sensitiveKeyPattern s \<longleftrightarrow> list_ex (\<lambda>t. list_ex (\<lambda>es. kw_at es t) sensitiveKeywords) (suffixes s)"

definition is_space :: "char \<Rightarrow> bool" where
  "is_space c \<longleftrightarrow> c \<in> set [CHR 0x09, CHR 0x0A, CHR 0x0C, CHR 0x0D, CHR 0x20]"

text \<open>The string body of a JSON value from behind its opening quote: what follows the closing
  quote, if there is one.\<close>

fun string_end :: "string \<Rightarrow> string option" where
  "string_end [] = None"
| "string_end (c # s) =
     (if c = CHR 0x22 then Some s
      else if c = CHR 0x5C then (case s of [] \<Rightarrow> None | d # s' \<Rightarrow> if d = NL then None else string_end s')
      else string_end s)"

text \<open>\<open>jsonSensitiveFieldPattern\<close> at the start of a text: the first group and the rest.\<close>

definition jsonSensitiveFieldPattern :: "string \<Rightarrow> (string \<times> string) option" where
  "jsonSensitiveFieldPattern s =
     (case s of
        [] \<Rightarrow> None
      | c # s1 \<Rightarrow>
          if c \<noteq> CHR 0x22 then None
          else
            let key = takeWhile (\<lambda>x. x \<noteq> CHR 0x22) s1; s2 = drop (length key) s1; s3 = dropWhile is_space (tl s2);
                s4 = dropWhile is_space (tl s3)
            in if s2 \<noteq> [] \<and> sensitiveKeyPattern key \<and> s3 \<noteq> [] \<and> hd s3 = CHR '':'' \<and> s4 \<noteq> [] \<and> hd s4 = CHR 0x22
               then (case string_end (tl s4) of
                       None \<Rightarrow> None
                     | Some rest \<Rightarrow> Some (take (length s - length s4) s, rest))
               else None)"

definition host_char :: "char \<Rightarrow> bool" where
  "host_char c \<longleftrightarrow> \<not> is_space c \<and> c \<notin> set [CHR ''?'', CHR 0x22, CHR 0x27, CHR ''<'', CHR ''>'']"

definition query_char :: "char \<Rightarrow> bool" where
  "query_char c \<longleftrightarrow> \<not> is_space c \<and> c \<notin> set [CHR 0x22, CHR 0x27, CHR ''<'', CHR ''>'']"

definition scheme_of :: "string \<Rightarrow> string option" where
  "scheme_of s =
     (if prefix ''https://'' s then Some ''https://'' else if prefix ''http://'' s then Some ''http://'' else None)"

text \<open>\<open>urlQueryPattern\<close> at the start of a text: the first group, the query and the rest.\<close>

definition urlQueryPattern :: "string \<Rightarrow> (string \<times> string \<times> string) option" where
  "urlQueryPattern s =
     (case scheme_of s of
        None \<Rightarrow> None
      | Some p \<Rightarrow>
          let t = drop (length p) s; h = takeWhile host_char t; r = dropWhile host_char t
          in if h \<noteq> [] \<and> r \<noteq> [] \<and> hd r = CHR ''?''
             then Some (p @ h, takeWhile query_char (tl r), dropWhile query_char (tl r))
             else None)"

section \<open>Replacing\<close>

lemma string_end_length: "string_end s = Some r \<Longrightarrow> length r < length s"
  by (induction s arbitrary: r rule: string_end.induct) (fastforce split: if_splits list.splits)+

lemma length_dropWhile_tl: "length (dropWhile P (tl s)) \<le> length s"
  by (metis diff_le_self le_trans length_dropWhile_le length_tl)

lemma jsonSensitiveFieldPattern_length:
  assumes "jsonSensitiveFieldPattern s = Some (g, r)"
  shows "length r < length s"
proof -
  obtain c s1 where s: "s = c # s1" using assms by (cases s) (auto simp: jsonSensitiveFieldPattern_def)
  let ?s2 = "drop (length (takeWhile (\<lambda>x. x \<noteq> CHR 0x22) s1)) s1"
  let ?s3 = "dropWhile is_space (tl ?s2)"
  let ?s4 = "dropWhile is_space (tl ?s3)"
  have "string_end (tl ?s4) = Some r"
    using assms by (auto simp: s jsonSensitiveFieldPattern_def Let_def split: if_splits option.splits)
  then have "length r < length (tl ?s4)" by (rule string_end_length)
  moreover have "length (tl ?s4) \<le> length ?s3"
    using length_dropWhile_tl [of is_space ?s3] by simp
  moreover have "length ?s3 \<le> length ?s2" by (rule length_dropWhile_tl)
  moreover have "length ?s2 \<le> length s1" by simp
  ultimately show ?thesis unfolding s by (simp only: list.size)
qed

lemma urlQueryPattern_parts:
  assumes "urlQueryPattern s = Some (g, q, r)"
  obtains p h where "scheme_of s = Some p" "h \<noteq> []" "\<forall>c \<in> set h. host_char c" "g = p @ h"
    "s = p @ h @ CHR ''?'' # q @ r"
proof -
  obtain p where p: "scheme_of s = Some p"
    using assms by (auto simp: urlQueryPattern_def split: option.splits)
  let ?t = "drop (length p) s" let ?h = "takeWhile host_char ?t" let ?r = "dropWhile host_char ?t"
  have c: "?h \<noteq> [] \<and> ?r \<noteq> [] \<and> hd ?r = CHR ''?''"
    using assms p by (simp add: urlQueryPattern_def Let_def split: if_splits)
  then have v: "g = p @ ?h" "q = takeWhile query_char (tl ?r)" "r = dropWhile query_char (tl ?r)"
    using assms p by (simp_all add: urlQueryPattern_def Let_def)
  have r: "?r = CHR ''?'' # tl ?r" using c list.collapse [of ?r] by argo
  have qr: "q @ r = tl ?r" unfolding v by (rule takeWhile_dropWhile_id)
  have "s = p @ ?t" using p by (auto simp: scheme_of_def prefix_def split: if_splits)
  also have "?t = ?h @ ?r" by simp
  also have "?r = CHR ''?'' # q @ r" unfolding qr by (rule r)
  finally show thesis using p c v(1) by (intro that [of p ?h]) (auto dest: set_takeWhileD)
qed

lemma urlQueryPattern_length:
  "urlQueryPattern s = Some (g, q, r) \<Longrightarrow> length r < length s"
  by (erule urlQueryPattern_parts) (metis length_append length_Cons less_add_Suc2 trans_less_add2 add_Suc_right)

function Text :: "string \<Rightarrow> string" where
  "Text [] = []"
| "Text (c # s) =
     (case urlQueryPattern (c # s) of
        Some (g, q, r) \<Rightarrow> g @ ''?'' @ Placeholder @ Text r
      | None \<Rightarrow> c # Text s)"
  by pat_completeness auto
termination
  by (relation "measure length") (auto dest: urlQueryPattern_length)

function redact_fields :: "string \<Rightarrow> string" where
  "redact_fields [] = []"
| "redact_fields (c # s) =
     (case jsonSensitiveFieldPattern (c # s) of
        Some (g, r) \<Rightarrow> g @ [CHR 0x22] @ Placeholder @ [CHR 0x22] @ redact_fields r
      | None \<Rightarrow> c # redact_fields s)"
  by pat_completeness auto
termination
  by (relation "measure length") (auto dest: jsonSensitiveFieldPattern_length)

definition JSON :: "string \<Rightarrow> string" where
  "JSON s = Text (redact_fields s)"

definition Value :: "string \<Rightarrow> string" where
  "Value s =
     (let key = takeWhile (\<lambda>c. c \<noteq> CHR ''='') s in
      if length key < length s \<and> key \<noteq> [] \<and> sensitiveKeyPattern key then key @ ''='' @ Placeholder
      else Text s)"

definition Slice :: "string list \<Rightarrow> string list" where
  "Slice values = map Value values"

section \<open>What is left of a URL\<close>

lemma Text_match: "urlQueryPattern s = Some (g, q, r) \<Longrightarrow> Text s = g @ ''?'' @ Placeholder @ Text r"
  by (cases s) (simp_all add: urlQueryPattern_def scheme_of_def)

lemma Text_no_match: "urlQueryPattern (c # s) = None \<Longrightarrow> Text (c # s) = c # Text s"
  by simp

declare Text.simps(2) [simp del]

text \<open>The characters that end a URL, as the specification of what a query is.\<close>

definition url_delimiters :: "char set" where
  "url_delimiters = {CHR 0x09, CHR 0x0A, CHR 0x0C, CHR 0x0D, CHR '' '', CHR 0x22, CHR 0x27, CHR ''<'', CHR ''>''}"

lemma query_char_iff: "query_char c \<longleftrightarrow> c \<notin> url_delimiters"
  by (auto simp: query_char_def is_space_def url_delimiters_def)

lemma host_char_iff: "host_char c \<longleftrightarrow> c \<notin> url_delimiters \<and> c \<noteq> CHR ''?''"
  by (auto simp: host_char_def is_space_def url_delimiters_def)

text \<open>A URL with a query, and what follows it.\<close>

definition with_query :: "string \<Rightarrow> string \<Rightarrow> string \<Rightarrow> string \<Rightarrow> string" where
  "with_query sch h q z = sch @ h @ ''?'' @ q @ z"

definition url_parts :: "string \<Rightarrow> string \<Rightarrow> string \<Rightarrow> string \<Rightarrow> bool" where
  "url_parts sch h q z \<longleftrightarrow> sch \<in> {''http://'', ''https://''} \<and> h \<noteq> [] \<and> set h \<inter> (url_delimiters \<union> {CHR ''?''}) = {} \<and>
     set q \<inter> url_delimiters = {} \<and> (z = [] \<or> hd z \<in> url_delimiters)"

lemma url_run:
  assumes "url_parts sch h q z" "list_all host_char y"
  shows "takeWhile host_char (y @ with_query sch h q z) = y @ sch @ h" "dropWhile host_char (y @ with_query sch h q z) = CHR ''?'' # q @ z"
proof -
  have "\<forall>c \<in> set sch. host_char c" using assms(1) by (auto simp: url_parts_def host_char_def is_space_def)
  moreover have "\<forall>c \<in> set h. host_char c" using assms(1) by (auto simp: url_parts_def host_char_iff)
  ultimately have "\<forall>c \<in> set (y @ sch @ h). host_char c" using assms(2) by (auto simp: list_all_iff)
  moreover have "\<not> host_char (CHR ''?'')" by (simp add: host_char_iff)
  ultimately show "takeWhile host_char (y @ with_query sch h q z) = y @ sch @ h" "dropWhile host_char (y @ with_query sch h q z) = CHR ''?'' # q @ z"
    using takeWhile_append2 [of "y @ sch @ h" host_char] dropWhile_append2 [of "y @ sch @ h" host_char] by (simp_all add: with_query_def)
qed

lemma query_run:
  assumes "set q \<inter> url_delimiters = {}" "z = [] \<or> hd z \<in> url_delimiters"
  shows "takeWhile query_char (q @ z) = q" "dropWhile query_char (q @ z) = z"
proof -
  have "\<forall>c \<in> set q. query_char c" using assms(1) by (auto simp: query_char_iff)
  moreover have "takeWhile query_char z = []" "dropWhile query_char z = z"
    using assms(2) by (cases z; simp add: query_char_iff)+
  ultimately show "takeWhile query_char (q @ z) = q" "dropWhile query_char (q @ z) = z"
    by (simp_all add: takeWhile_append2 dropWhile_append2)
qed

lemma url_swallowed:
  assumes "url_parts sch h q z" "list_all query_char y"
  shows "dropWhile query_char (y @ with_query sch h q z) = z"
proof -
  have "set sch \<inter> url_delimiters = {}" using assms(1) by (auto simp: url_parts_def url_delimiters_def)
  then have "set (y @ sch @ h @ ''?'' @ q) \<inter> url_delimiters = {}"
    using assms by (auto simp: url_parts_def list_all_iff query_char_iff url_delimiters_def)
  then show ?thesis using query_run(2) [of "y @ sch @ h @ ''?'' @ q" z] assms(1) by (simp add: with_query_def url_parts_def)
qed

text \<open>A scheme that starts before the URL ends before it.\<close>

lemma prefix_before: "d \<notin> set p \<Longrightarrow> prefix p (x @ d # u) \<longleftrightarrow> prefix p x"
proof (induction p arbitrary: x)
  case (Cons c p)
  then show ?case by (cases x) auto
qed simp

lemma scheme_before:
  assumes "url_parts sch h q z" "x \<noteq> []"
  shows "scheme_of (x @ with_query sch h q z) = scheme_of x"
proof -
  obtain u where u: "with_query sch h q z = CHR ''h'' # u" using assms(1) by (auto simp: with_query_def url_parts_def)
  obtain c x' where x: "x = c # x'" using assms(2) by (cases x) auto
  have "prefix (CHR ''h'' # p) (x @ CHR ''h'' # u) \<longleftrightarrow> prefix (CHR ''h'' # p) x" if "CHR ''h'' \<notin> set p" for p
    using prefix_before [OF that, of x' u] by (simp add: x)
  from this [of "''ttps://''"] this [of "''ttp://''"] show ?thesis unfolding scheme_of_def u by simp
qed

lemma takeWhile_split: "takeWhile P xs \<noteq> xs \<Longrightarrow> \<exists>a d b. xs = a @ d # b \<and> list_all P a \<and> \<not> P d"
  by (metis dropWhile_eq_Nil_conv hd_dropWhile list.collapse list_all_iff set_takeWhileD takeWhile_dropWhile_id takeWhile_eq_all_conv)

lemma run_cut:
  assumes "list_all P a" "\<not> P d"
  shows "takeWhile P ((a @ d # b) @ u) = a" "dropWhile P ((a @ d # b) @ u) = d # b @ u"
  using assms by (simp_all add: takeWhile_append2 dropWhile_append2 list_all_iff)

text \<open>At a position before the URL the pattern matches independently of the query: not at all, or with the
  query in what it drops, or short of the URL.\<close>

lemma match_before:
  assumes "x \<noteq> []"
  shows "(\<forall>q. url_parts sch h q z \<longrightarrow> urlQueryPattern (x @ with_query sch h q z) = None) \<or>
    (\<exists>g. \<forall>q. url_parts sch h q z \<longrightarrow> (\<exists>d. urlQueryPattern (x @ with_query sch h q z) = Some (g, d, z))) \<or>
    (\<exists>g y. length y < length x \<and> (\<forall>q. url_parts sch h q z \<longrightarrow>
       (\<exists>d. urlQueryPattern (x @ with_query sch h q z) = Some (g, d, y @ with_query sch h q z))))"
proof (cases "scheme_of x")
  case None
  then show ?thesis using scheme_before [OF _ assms] by (auto simp: urlQueryPattern_def)
next
  case (Some p)
  then obtain y where x: "x = p @ y" "p \<noteq> []" by (auto simp: scheme_of_def prefix_def split: if_splits)
  have m: "urlQueryPattern (x @ with_query sch h q z) =
      (let t = y @ with_query sch h q z; k = takeWhile host_char t; r = dropWhile host_char t
       in if k \<noteq> [] \<and> r \<noteq> [] \<and> hd r = CHR ''?'' then Some (p @ k, takeWhile query_char (tl r), dropWhile query_char (tl r)) else None)"
    if "url_parts sch h q z" for q
    using scheme_before [OF that assms] Some by (simp add: urlQueryPattern_def x(1))
  show ?thesis
  proof (cases "list_all host_char y")
    case True
    have "urlQueryPattern (x @ with_query sch h q z) = Some (p @ y @ sch @ h, q, z)" if u: "url_parts sch h q z" for q
      unfolding m [OF u] url_run [OF u True] Let_def list.sel using query_run [of q z] u by (simp add: url_parts_def)
    then show ?thesis by blast
  next
    case False
    then obtain a d b where y: "y = a @ d # b" "list_all host_char a" "\<not> host_char d"
      using takeWhile_split [of host_char y] by (auto simp: list_all_iff takeWhile_eq_all_conv)
    note cut = run_cut [OF y(2,3), of b]
    show ?thesis
    proof (cases "a \<noteq> [] \<and> d = CHR ''?''")
      case False
      have "urlQueryPattern (x @ with_query sch h q z) = None" if "url_parts sch h q z" for q
        unfolding m [OF that] y(1) cut Let_def list.sel using False by simp
      then show ?thesis by blast
    next
      case True
      have m': "urlQueryPattern (x @ with_query sch h q z) =
          Some (p @ a, takeWhile query_char (b @ with_query sch h q z), dropWhile query_char (b @ with_query sch h q z))"
        if "url_parts sch h q z" for q
        unfolding m [OF that] y(1) cut Let_def list.sel using True by simp
      show ?thesis
      proof (cases "list_all query_char b")
        case True
        then show ?thesis using m' url_swallowed by metis
      next
        case False
        then obtain a' d' b' where b: "b = a' @ d' # b'" "list_all query_char a'" "\<not> query_char d'"
          using takeWhile_split [of query_char b] by (auto simp: list_all_iff takeWhile_eq_all_conv)
        have "length (d' # b') < length x" by (simp add: x y b(1))
        moreover have "\<exists>e. urlQueryPattern (x @ with_query sch h q z) = Some (p @ a, e, (d' # b') @ with_query sch h q z)"
          if "url_parts sch h q z" for q
          using m' [OF that] run_cut [OF b(2,3), of b'] by (simp add: b(1))
        ultimately show ?thesis by blast
      qed
    qed
  qed
qed

lemma Text_url: "url_parts sch h q z \<Longrightarrow> Text (with_query sch h q z) = sch @ h @ ''?'' @ Placeholder @ Text z"
proof -
  assume u: "url_parts sch h q z"
  have "scheme_of (with_query sch h q z) = Some sch" using u by (auto simp: url_parts_def with_query_def scheme_of_def)
  moreover have "drop (length sch) (with_query sch h q z) = h @ CHR ''?'' # q @ z" by (simp add: with_query_def)
  moreover have "\<forall>c \<in> set h. host_char c" "\<not> host_char (CHR ''?'')" "h \<noteq> []" using u by (auto simp: url_parts_def host_char_iff)
  ultimately have "urlQueryPattern (with_query sch h q z) = Some (sch @ h, q, z)"
    using query_run [of q z] u by (simp add: urlQueryPattern_def Let_def url_parts_def takeWhile_append2 dropWhile_append2)
  then show ?thesis by (simp add: Text_match)
qed

lemma Text_query_hidden:
  assumes "url_parts sch h q z" "url_parts sch h q' z"
  shows "Text (x @ with_query sch h q z) = Text (x @ with_query sch h q' z)"
proof (induction x rule: length_induct)
  case (1 x)
  show ?case
  proof (cases x)
    case Nil
    then show ?thesis using Text_url assms by simp
  next
    case (Cons c x')
    then have ne: "x \<noteq> []" by simp
    show ?thesis
      using match_before [OF ne, of sch h z]
    proof (elim disjE exE conjE)
      assume n: "\<forall>q. url_parts sch h q z \<longrightarrow> urlQueryPattern (x @ with_query sch h q z) = None"
      have "Text (x' @ with_query sch h q z) = Text (x' @ with_query sch h q' z)" using 1 Cons by simp
      then show ?thesis
        using n [rule_format, OF assms(1)] n [rule_format, OF assms(2)] Cons by (simp add: Text_no_match)
    next
      fix g
      assume n: "\<forall>q. url_parts sch h q z \<longrightarrow> (\<exists>d. urlQueryPattern (x @ with_query sch h q z) = Some (g, d, z))"
      show ?thesis
        using n [rule_format, OF assms(1)] n [rule_format, OF assms(2)] by (auto simp: Text_match)
    next
      fix g y
      assume y: "length y < length x" and n: "\<forall>q. url_parts sch h q z \<longrightarrow>
        (\<exists>d. urlQueryPattern (x @ with_query sch h q z) = Some (g, d, y @ with_query sch h q z))"
      have "Text (y @ with_query sch h q z) = Text (y @ with_query sch h q' z)" using 1 y by blast
      then show ?thesis
        using n [rule_format, OF assms(1)] n [rule_format, OF assms(2)] by (auto simp: Text_match)
    qed
  qed
qed

section \<open>Properties\<close>

text \<open>C26: The query of a URL does not reach the log.  Wherever in a text a URL with the scheme \<open>http\<close> or \<open>https\<close>
  in lower case stands, its query, up to white space, a quote, an angle bracket or the end of the text,
  has no influence on the scrubbed text; and a URL at the front keeps its scheme, host and path, with the
  placeholder in place of the query.\<close>

theorem query_hidden:
  assumes "sch \<in> {''http://'', ''https://''}" "h \<noteq> []" "set h \<inter> (url_delimiters \<union> {CHR ''?''}) = {}"
    "set q \<inter> url_delimiters = {}" "set q' \<inter> url_delimiters = {}" "z = [] \<or> hd z \<in> url_delimiters"
  shows "Text (x @ sch @ h @ ''?'' @ q @ z) = Text (x @ sch @ h @ ''?'' @ q' @ z) \<and>
    Text (sch @ h @ ''?'' @ q @ z) = sch @ h @ ''?<redacted>'' @ Text z"
proof -
  have "url_parts sch h q z" "url_parts sch h q' z" using assms by (simp_all add: url_parts_def)
  then show ?thesis
    using Text_query_hidden [of sch h q z q' x] Text_url [of sch h q z] by (simp add: with_query_def Placeholder_def)
qed

theorem query_hidden_witness:
  "Text ''get https://a/b?sv=1&sig=S x'' = Text ''get https://a/b? x''"
  using query_hidden [of "''https://''" "''a/b''" "''sv=1&sig=S''" "[]" "'' x''" "''get ''"]
  by (simp add: url_delimiters_def)

text \<open>C27: A value passed under a name that looks sensitive never reaches the log: the scrubbed
  \<open>KEY=VALUE\<close> text is the key and the placeholder, the same for all values; it does so for every element
  of a scrubbed argument list.\<close>

theorem secret_value_redacted:
  assumes "CHR ''='' \<notin> set k" "sensitiveKeyPattern k" "i < length xs" "xs ! i = k @ ''='' @ v"
  shows "Slice xs ! i = k @ ''='' @ Placeholder \<and> length (Slice xs) = length xs"
proof -
  have "k \<noteq> []" using assms(2) by (rule contrapos_pn) (simp add: sensitiveKeyPattern_def, code_simp)
  moreover have "takeWhile (\<lambda>c. c \<noteq> CHR ''='') (k @ ''='' @ v) = k"
    using assms(1) by (subst takeWhile_append2) auto
  ultimately have "Value (k @ ''='' @ v) = k @ ''='' @ Placeholder"
    using assms(2) by (simp add: Value_def Let_def)
  then show ?thesis using assms(3,4) by (simp add: Slice_def)
qed

theorem secret_value_redacted_witness:
  "Slice [''--setenv'', ''DB_PASSWORD=hunter2''] ! 1 = ''DB_PASSWORD=<redacted>''"
proof -
  have "sensitiveKeyPattern ''DB_PASSWORD''" by code_simp
  then show ?thesis
    using secret_value_redacted [of "''DB_PASSWORD''" 1 "[''--setenv'', ''DB_PASSWORD=hunter2'']" "''hunter2''"]
    by (simp add: Placeholder_def)
qed

end
