(* ===== verification/Handler_Env.thy ===== *)
theory Handler_Env
  imports Settings Redact
begin

text \<open>
  What the handler is told about itself: its version (\<open>main/version.go\<close>), the extension manifest
  (\<open>internal/manifest\<close> and the copy in \<open>main/handlersettings.go\<close>) and the handler environment
  (\<open>internal/handlerenv\<close> over the vendored package of the same name).  The XML decoder of the standard
  library is an argument, \<open>xml\<close>: what decoding a text into the manifest's struct gives.
\<close>

section \<open>The version\<close>

text \<open>The strings the linker sets, and the version of the Go run time.\<close>

record build_info =
  b_Version :: string
  b_GitCommit :: string
  b_BuildDate :: string
  b_GitState :: string
  b_runtime :: string

definition VersionString :: "build_info \<Rightarrow> string" where
  "VersionString b = ''v'' @ b_Version b @ ''/git@'' @ b_GitCommit b @ ''-'' @ b_GitState b"

definition DetailedVersionString :: "build_info \<Rightarrow> string" where
  "DetailedVersionString b =
     ''v'' @ b_Version b @ '' git:'' @ b_GitCommit b @ ''-'' @ b_GitState b @ '' build:'' @ b_BuildDate b @ '' '' @ b_runtime b"

definition GetExtensionVersion :: "build_info \<Rightarrow> string" where
  "GetExtensionVersion b = b_Version b"

section \<open>The directory of the executable\<close>

text \<open>\<open>os.Args[0]\<close> and what \<open>os.Getwd\<close> gives; \<open>filepath.Abs\<close> needs the latter for a relative path only.\<close>

record exec_path =
  ex_args0 :: string
  ex_getwd :: "string result"

definition filepath_Abs :: "exec_path \<Rightarrow> string result" where
  "filepath_Abs x =
     (if is_rooted (ex_args0 x) then Inr (Clean (ex_args0 x))
      else (case ex_getwd x of Inl e \<Rightarrow> Inl e | Inr wd \<Rightarrow> Inr (path_Join [wd, ex_args0 x])))"

definition GetProcessDirectory :: "exec_path \<Rightarrow> string result" where
  "GetProcessDirectory x = (case filepath_Abs x of Inl e \<Rightarrow> Inl e | Inr p \<Rightarrow> Inr (path_Dir p))"

definition GetCurrentProcessWorkingDir :: "exec_path \<Rightarrow> string result" where
  "GetCurrentProcessWorkingDir x = (case filepath_Abs x of Inl e \<Rightarrow> Inl e | Inr p \<Rightarrow> Inr (path_Dir p))"

section \<open>The manifest\<close>

record ExtensionManifest =
  em_ProviderNameSpace :: string
  em_Type :: string
  em_Version :: string
  em_Label :: string
  em_HostingResources :: string
  em_MediaLink :: string
  em_Description :: string
  em_IsInternalExtension :: bool
  em_IsJsonExtension :: bool
  em_SupportedOS :: string
  em_CompanyName :: string

type_synonym xml_decoder = "string \<Rightarrow> ExtensionManifest result"

definition manifest_Name :: "ExtensionManifest \<Rightarrow> string" where
  "manifest_Name em = em_ProviderNameSpace em @ ''.'' @ em_Type em"

definition manifestFileName :: string where "manifestFileName = ''manifest.xml''"

text \<open>The first of the given paths that can be read; a path that exists and cannot be read ends the
  search.\<close>

fun first_readable :: "fs \<Rightarrow> (string \<Rightarrow> go_error \<Rightarrow> go_error) \<Rightarrow> string list \<Rightarrow> (string \<times> string) option result" where
  "first_readable w err [] = Inr None"
| "first_readable w err (p # ps) =
     (case ReadFile w p of
        Inl (IOError m) \<Rightarrow> Inl (err p (io_go_error (IOError m)))
      | Inl (NotExist q) \<Rightarrow> first_readable w err ps
      | Inr b \<Rightarrow> Inr (Some (p, b)))"

definition manifest_paths :: "string \<Rightarrow> string list" where
  "manifest_paths dir = [path_Join [dir, manifestFileName], path_Join [dir, ''..'', manifestFileName]]"

definition findManifestFilePath :: "fs \<Rightarrow> string \<Rightarrow> string result" where
  "findManifestFilePath w dir =
     (case first_readable w (\<lambda>p e. Errorf (''cannot read file at path '' @ p @ '': '' @ Error e)) (manifest_paths dir) of
        Inl e \<Rightarrow> Inl e
      | Inr (Some (p, b)) \<Rightarrow> Inr p
      | Inr None \<Rightarrow> Inl (Errorf (''cannot find HandlerEnvironment at paths: '' @ Join (manifest_paths dir) '', '')))"

text \<open>Opening and decoding a manifest file; both packages have the same code.\<close>

definition GetExtensionManifest_at :: "xml_decoder \<Rightarrow> fs \<Rightarrow> string \<Rightarrow> ExtensionManifest result" where
  "GetExtensionManifest_at xml w fp =
     (case ReadFile w fp of Inl e \<Rightarrow> Inl (io_go_error e) | Inr b \<Rightarrow> xml b)"

definition GetExtensionManifest :: "xml_decoder \<Rightarrow> exec_path \<Rightarrow> fs \<Rightarrow> ExtensionManifest result" where
  "GetExtensionManifest xml x w =
     (case GetCurrentProcessWorkingDir x of
        Inl e \<Rightarrow> Inl e
      | Inr dir \<Rightarrow>
          (case findManifestFilePath w dir of
             Inl e \<Rightarrow> Inl e
           | Inr fp \<Rightarrow> GetExtensionManifest_at xml w fp))"

definition ExtensionManifestFileName :: string where "ExtensionManifestFileName = ''manifest.xml''"

definition GetExtensionManifestVersion :: "build_info \<Rightarrow> xml_decoder \<Rightarrow> exec_path \<Rightarrow> fs \<Rightarrow> string result" where
  "GetExtensionManifestVersion b xml x w =
     (if GetExtensionVersion b \<noteq> [] then Inr (GetExtensionVersion b)
      else
        (case GetProcessDirectory x of
           Inl e \<Rightarrow> Inl e
         | Inr d \<Rightarrow>
             (case GetExtensionManifest_at xml w (path_Join [path_Dir d, ExtensionManifestFileName]) of
                Inl e \<Rightarrow> Inl e
              | Inr m \<Rightarrow> Inr (em_Version m))))"

section \<open>The handler environment\<close>

record HandlerEnvironment =
  he_HeartbeatFile :: string
  he_StatusFolder :: string
  he_ConfigFolder :: string
  he_LogFolder :: string
  he_DataFolder :: string
  he_EventsFolder :: string
  he_DeploymentID :: string
  he_RoleName :: string
  he_Instance :: string
  he_HostResolverAddress :: string

text \<open>The file: the members of \<open>HandlerEnvironment\<close> (the version and the name of the file are decoded
  and not used).\<close>

record handler_env_file =
  hf_env :: HandlerEnvironment
  hf_EventsFolderPreview :: string

definition zero_env :: HandlerEnvironment where
  "zero_env = \<lparr>he_HeartbeatFile = [], he_StatusFolder = [], he_ConfigFolder = [], he_LogFolder = [], he_DataFolder = [],
     he_EventsFolder = [], he_DeploymentID = [], he_RoleName = [], he_Instance = [], he_HostResolverAddress = []\<rparr>"

definition zero_env_file :: handler_env_file where
  "zero_env_file = \<lparr>hf_env = zero_env, hf_EventsFolderPreview = []\<rparr>"

definition env_fields :: "(string \<times> (handler_env_file \<Rightarrow> string) \<times> (string \<Rightarrow> handler_env_file \<Rightarrow> handler_env_file)) list" where
  "env_fields =
     [(''heartbeatFile'', he_HeartbeatFile \<circ> hf_env, \<lambda>x f. f\<lparr>hf_env := (hf_env f)\<lparr>he_HeartbeatFile := x\<rparr>\<rparr>),
      (''statusFolder'', he_StatusFolder \<circ> hf_env, \<lambda>x f. f\<lparr>hf_env := (hf_env f)\<lparr>he_StatusFolder := x\<rparr>\<rparr>),
      (''configFolder'', he_ConfigFolder \<circ> hf_env, \<lambda>x f. f\<lparr>hf_env := (hf_env f)\<lparr>he_ConfigFolder := x\<rparr>\<rparr>),
      (''logFolder'', he_LogFolder \<circ> hf_env, \<lambda>x f. f\<lparr>hf_env := (hf_env f)\<lparr>he_LogFolder := x\<rparr>\<rparr>),
      (''eventsFolder'', he_EventsFolder \<circ> hf_env, \<lambda>x f. f\<lparr>hf_env := (hf_env f)\<lparr>he_EventsFolder := x\<rparr>\<rparr>),
      (''eventsFolder_preview'', hf_EventsFolderPreview, \<lambda>x f. f\<lparr>hf_EventsFolderPreview := x\<rparr>),
      (''deploymentid'', he_DeploymentID \<circ> hf_env, \<lambda>x f. f\<lparr>hf_env := (hf_env f)\<lparr>he_DeploymentID := x\<rparr>\<rparr>),
      (''rolename'', he_RoleName \<circ> hf_env, \<lambda>x f. f\<lparr>hf_env := (hf_env f)\<lparr>he_RoleName := x\<rparr>\<rparr>),
      (''instance'', he_Instance \<circ> hf_env, \<lambda>x f. f\<lparr>hf_env := (hf_env f)\<lparr>he_Instance := x\<rparr>\<rparr>),
      (''hostResolverAddress'', he_HostResolverAddress \<circ> hf_env, \<lambda>x f. f\<lparr>hf_env := (hf_env f)\<lparr>he_HostResolverAddress := x\<rparr>\<rparr>)]"

definition dec_env_member :: "handler_env_file dec \<Rightarrow> string \<times> json \<Rightarrow> handler_env_file dec" where
  "dec_env_member d m =
     (let (s, e) = d; (k, v) = m in
      case List.find (\<lambda>fd. is_field (fst fd) k) env_fields of
        None \<Rightarrow> (s, e)
      | Some (name, get, put) \<Rightarrow>
          (let (x, e') = dec_string [] (''HandlerEnvironment.'' @ name) v (get s) in (put x s, keep_first e e')))"

definition dec_version :: "json \<Rightarrow> go_error option" where
  "dec_version v =
     (case v of
        JNum n \<Rightarrow> if float_overflows n then Some (type_error (''number '' @ n) ''handlerEnvironmentInternal'' ''version'' ''float64'') else None
      | JNull \<Rightarrow> None
      | _ \<Rightarrow> Some (type_error (kind_of v) ''handlerEnvironmentInternal'' ''version'' ''float64''))"

definition dec_outer_member :: "handler_env_file dec \<Rightarrow> string \<times> json \<Rightarrow> handler_env_file dec" where
  "dec_outer_member d m =
     (let (s, e) = d; (k, v) = m in
      if is_field ''version'' k then (s, keep_first e (dec_version v))
      else if is_field ''name'' k then (s, keep_first e (snd (dec_string ''handlerEnvironmentInternal'' ''name'' v [])))
      else if is_field ''HandlerEnvironment'' k then
        dec_struct dec_env_member (type_error (kind_of v) ''handlerEnvironmentInternal'' ''HandlerEnvironment'' ''struct'') (s, e) v
      else (s, e))"

definition dec_env_elem :: "json \<Rightarrow> handler_env_file dec" where
  "dec_env_elem v =
     dec_struct dec_outer_member
       (Errorf (''json: cannot unmarshal '' @ kind_of v @ '' into Go value of type handlerenv.handlerEnvironmentInternal''))
       (zero_env_file, None) v"

definition dec_env_list :: "json \<Rightarrow> handler_env_file list dec" where
  "dec_env_list v =
     (case v of
        JArr vs \<Rightarrow> (map (fst \<circ> dec_env_elem) vs, foldl keep_first None (map (snd \<circ> dec_env_elem) vs))
      | JNull \<Rightarrow> ([], None)
      | _ \<Rightarrow> ([], Some (Errorf (''json: cannot unmarshal '' @ kind_of v @ '' into Go value of type []handlerenv.handlerEnvironmentInternal''))))"

definition parseHandlerEnv :: "string \<Rightarrow> handler_env_file result" where
  "parseHandlerEnv b =
     (case parse_json b of
        None \<Rightarrow> Inl (Errorf ''vmextension: failed to parse handler env: invalid character'')
      | Some v \<Rightarrow>
          (case dec_env_list v of
             (fs, Some e) \<Rightarrow> Inl (Errorf (''vmextension: failed to parse handler env: '' @ Error e))
           | ([f], None) \<Rightarrow> Inr f
           | (fs, None) \<Rightarrow>
               Inl (Errorf (''vmextension: expected 1 config in parsed HandlerEnvironment, found: '' @ string_of_nat (length fs)))))"

definition handlerEnvFileName :: string where "handlerEnvFileName = ''HandlerEnvironment.json''"

definition platform_ErrNotFound :: go_error where "platform_ErrNotFound = Sentinel ''NotFound''"

definition findAndReadFile :: "exec_path \<Rightarrow> fs \<Rightarrow> string \<Rightarrow> (string \<times> string) result" where
  "findAndReadFile x w fileName =
     (case GetCurrentProcessWorkingDir x of
        Inl e \<Rightarrow> Inl (Errorf (''vmextension: cannot find base directory of the running process: '' @ Error e))
      | Inr dir \<Rightarrow>
          (case first_readable w
                  (\<lambda>p e. Errorf (''vmextension: error examining '' @ [CHR 0x27] @ fileName @ [CHR 0x27] @ '' at '' @ [CHR 0x27]
                     @ p @ [CHR 0x27] @ '': '' @ Error e))
                  [path_Join [dir, fileName], path_Join [dir, ''..'', fileName]] of
             Inl e \<Rightarrow> Inl e
           | Inr (Some (p, b)) \<Rightarrow> Inr (b, p)
           | Inr None \<Rightarrow> Inl platform_ErrNotFound))"

definition GetDataFolder :: "string \<Rightarrow> string \<Rightarrow> string" where
  "GetDataFolder name version = path_Join [''/var/lib/waagent'', name]"

definition GetHandlerEnvironment :: "exec_path \<Rightarrow> fs \<Rightarrow> string \<Rightarrow> string \<Rightarrow> HandlerEnvironment result" where
  "GetHandlerEnvironment x w name version =
     (case findAndReadFile x w handlerEnvFileName of
        Inl e \<Rightarrow> Inl e
      | Inr (contents, p) \<Rightarrow>
          (case parseHandlerEnv contents of
             Inl e \<Rightarrow> Inl e
           | Inr f \<Rightarrow>
               Inr ((hf_env f)\<lparr>he_EventsFolder :=
                        (if he_EventsFolder (hf_env f) = [] then hf_EventsFolderPreview f else he_EventsFolder (hf_env f)),
                      he_DataFolder := GetDataFolder name version\<rparr>)))"

text \<open>The error of \<open>GetHandlerEnvironment\<close> is dropped and its nil pointer dereferenced.\<close>

definition GetHandlerEnviroment :: "xml_decoder \<Rightarrow> exec_path \<Rightarrow> fs \<Rightarrow> HandlerEnvironment result" where
  "GetHandlerEnviroment xml x w =
     (case GetExtensionManifest xml x w of
        Inl e \<Rightarrow> Inl e
      | Inr em \<Rightarrow>
          (case GetHandlerEnvironment x w (manifest_Name em) (em_Version em) of
             Inl e \<Rightarrow> Inl (RuntimePanic ''invalid memory address or nil pointer dereference'')
           | Inr env \<Rightarrow> Inr env))"

definition HandlerEnvironment_String :: "HandlerEnvironment \<Rightarrow> string" where
  "HandlerEnvironment_String he =
     marshal_indent 0 (JObj
       [(''HeartbeatFile'', JStr (he_HeartbeatFile he)), (''StatusFolder'', JStr (he_StatusFolder he)),
        (''ConfigFolder'', JStr (he_ConfigFolder he)), (''LogFolder'', JStr (he_LogFolder he)),
        (''DataFolder'', JStr (he_DataFolder he)), (''EventsFolder'', JStr (he_EventsFolder he)),
        (''DeploymentID'', JStr (he_DeploymentID he)), (''RoleName'', JStr (he_RoleName he)),
        (''Instance'', JStr (he_Instance he)), (''HostResolverAddress'', JStr (he_HostResolverAddress he))])"

section \<open>Reading the agent's file\<close>

text \<open>The file the guest agent writes for an environment.\<close>

definition env_doc :: "string \<Rightarrow> string \<Rightarrow> handler_env_file \<Rightarrow> json" where
  "env_doc version name f =
     JArr [JObj [(''version'', JNum version), (''name'', JStr name),
       (''handlerEnvironment'', JObj (map (\<lambda>fd. (fst fd, JStr (fst (snd fd) f))) env_fields))]]"

definition valid_env_file :: "handler_env_file \<Rightarrow> bool" where
  "valid_env_file f \<longleftrightarrow> list_all (\<lambda>fd. valid_utf8 (fst (snd fd) f)) env_fields"

lemma find_unique: "distinct (map f xs) \<Longrightarrow> x \<in> set xs \<Longrightarrow> List.find (\<lambda>y. f x = f y) xs = Some x"
  by (induction xs) (auto simp: rev_image_eqI)

lemma env_fields_names:
  "distinct (map (foldName \<circ> fst) env_fields)" "list_all valid_utf8 (map fst env_fields)"
  by code_simp+

lemma dec_env_member_field:
  assumes "fd \<in> set env_fields"
  shows "dec_env_member (s, e) (fst fd, JStr v) = (snd (snd fd) v s, e)"
  using find_unique [OF env_fields_names(1) assms]
  by (simp add: dec_env_member_def is_field_def dec_string_def keep_first_def split: prod.splits option.splits)

lemma dec_env_members:
  "set fds \<subseteq> set env_fields \<Longrightarrow>
   foldl dec_env_member (s, e) (map (\<lambda>fd. (fst fd, JStr (fst (snd fd) f))) fds) =
     (foldl (\<lambda>s fd. snd (snd fd) (fst (snd fd) f) s) s fds, e)"
  by (induction fds arbitrary: s) (simp_all add: dec_env_member_field)

lemma env_fields_complete: "foldl (\<lambda>s fd. snd (snd fd) (fst (snd fd) f) s) zero_env_file env_fields =
    f\<lparr>hf_env := (hf_env f)\<lparr>he_DataFolder := []\<rparr>\<rparr>"
  by (cases f) (simp add: env_fields_def zero_env_file_def zero_env_def)

lemma env_doc_decoded:
  assumes "\<not> float_overflows version"
  shows "dec_env_list (env_doc version name f) = ([f\<lparr>hf_env := (hf_env f)\<lparr>he_DataFolder := []\<rparr>\<rparr>], None)"
proof -
  have k: "is_field ''version'' ''version''" "\<not> is_field ''version'' ''name''" "is_field ''name'' ''name''"
    "\<not> is_field ''version'' ''handlerEnvironment''" "\<not> is_field ''name'' ''handlerEnvironment''"
    "is_field ''HandlerEnvironment'' ''handlerEnvironment''"
    by code_simp+
  have "dec_env_elem (JObj [(''version'', JNum version), (''name'', JStr name),
      (''handlerEnvironment'', JObj (map (\<lambda>fd. (fst fd, JStr (fst (snd fd) f))) env_fields))]) =
      (f\<lparr>hf_env := (hf_env f)\<lparr>he_DataFolder := []\<rparr>\<rparr>, None)"
    using dec_env_members [of env_fields zero_env_file None f] assms
    by (simp add: dec_env_elem_def dec_struct_def dec_outer_member_def k dec_version_def dec_string_def keep_first_def
        env_fields_complete)
  then show ?thesis by (simp add: dec_env_list_def env_doc_def keep_first_def)
qed

lemma env_doc_wf:
  assumes "valid_env_file f" "scan_num version = Some (version, [])" "valid_utf8 name"
  shows "wf_json (env_doc version name f)" "depth (env_doc version name f) \<le> maxNestingDepth"
proof -
  have "valid_utf8 ''version''" "valid_utf8 ''name''" "valid_utf8 ''handlerEnvironment''" by code_simp+
  then show "wf_json (env_doc version name f)"
    using assms env_fields_names(2) by (auto simp: env_doc_def valid_env_file_def list_all_iff)
  have "fold max (map (\<lambda>(k, v). depth v) (map (\<lambda>fd. (fst fd, JStr (fst (snd fd) f))) env_fields)) 0 \<le> 9000"
    by (simp add: env_fields_def)
  then show "depth (env_doc version name f) \<le> maxNestingDepth" by (simp add: env_doc_def maxNestingDepth_def)
qed


definition sample_env_file :: handler_env_file where
  "sample_env_file = zero_env_file\<lparr>hf_env := zero_env\<lparr>he_StatusFolder := ''/s'', he_ConfigFolder := ''/c''\<rparr>,
     hf_EventsFolderPreview := ''/e''\<rparr>"

definition sample_manifest :: ExtensionManifest where
  "sample_manifest = \<lparr>em_ProviderNameSpace = ''Microsoft'', em_Type = ''Health'', em_Version = ''1'', em_Label = [], em_HostingResources = [],
     em_MediaLink = [], em_Description = [], em_IsInternalExtension = False, em_IsJsonExtension = False, em_SupportedOS = [],
     em_CompanyName = []\<rparr>"


end
