(* ===== verification/VMWatch_Setup.thy ===== *)
theory VMWatch_Setup
  imports Handler_Env Status
begin

text \<open>
  Starting VMWatch (\<open>main/vmWatch.go\<close>): the status it reports, the command line and the environment
  it is given, its resource limits through \<open>systemd-run\<close> or control groups, and killing it.  The host
  (environment variables, \<open>systemd\<close>, the control group library, the order in which Go ranges over a
  map) is a record the functions take.
\<close>

section \<open>Status\<close>

datatype VMWatchStatus = NotRunning | Disabled | Running | Failed

fun VMWatchStatus_GetStatusType :: "VMWatchStatus \<Rightarrow> StatusType" where
  "VMWatchStatus_GetStatusType Disabled = StatusWarning"
| "VMWatchStatus_GetStatusType Failed = StatusError"
| "VMWatchStatus_GetStatusType NotRunning = StatusSuccess"
| "VMWatchStatus_GetStatusType Running = StatusSuccess"

record VMWatchResult =
  vw_Status :: VMWatchStatus
  vw_Error :: "go_error option"

definition fmt_err :: "go_error option \<Rightarrow> string" where
  "fmt_err e = (case e of None \<Rightarrow> ''<nil>'' | Some x \<Rightarrow> Error x)"

definition GetMessage :: "VMWatchResult \<Rightarrow> string" where
  "GetMessage r =
     (case vw_Status r of
        Disabled \<Rightarrow> ''VMWatch is disabled''
      | Failed \<Rightarrow> ''VMWatch failed: '' @ fmt_err (vw_Error r)
      | NotRunning \<Rightarrow> ''VMWatch is not running''
      | Running \<Rightarrow> ''VMWatch is running'')"

section \<open>Constants\<close>

definition DefaultMaxCpuPercentage :: int where "DefaultMaxCpuPercentage = 1"
definition DefaultMaxMemoryInBytes :: int where "DefaultMaxMemoryInBytes = 200000000"
definition CGroupV2PeriodMs :: int where "CGroupV2PeriodMs = 1000000"
definition AppHealthPublisherNameTest :: string where "AppHealthPublisherNameTest = ''Microsoft.ManagedServices.Edp''"
definition VMWatchBinaryNameAmd64 :: string where "VMWatchBinaryNameAmd64 = ''vmwatch_linux_amd64''"
definition VMWatchBinaryNameArm64 :: string where "VMWatchBinaryNameArm64 = ''vmwatch_linux_arm64''"
definition VMWatchConfigFileName :: string where "VMWatchConfigFileName = ''vmwatch.conf''"
definition VMWatchVerboseLogFileName :: string where "VMWatchVerboseLogFileName = ''vmwatch.log''"

lemmas vmWatch_consts [go_consts] = DefaultMaxCpuPercentage_def DefaultMaxMemoryInBytes_def CGroupV2PeriodMs_def

section \<open>The host\<close>

text \<open>The calls of the control group library: whether the unified hierarchy is mounted, creating a
  group with limits, adding a process.  An error \<open>RuntimePanic\<close> is a panic of the call.\<close>

record cgroup_lib =
  cg_Unified :: bool
  cg2_NewManager :: "string \<Rightarrow> string \<Rightarrow> string \<Rightarrow> int \<Rightarrow> go_error option"
  cg2_AddProc :: "uint \<Rightarrow> go_error option"
  cg1_PidPath :: "int \<Rightarrow> string \<Rightarrow> string result"
  cg1_New :: "string \<Rightarrow> int \<Rightarrow> int \<Rightarrow> go_error option"
  cg1_AddProc :: "uint \<Rightarrow> go_error option"

datatype cg_action = CG2_New string string string int | CG2_Add uint | CG1_New string int int | CG1_Add uint | CG1_Delete

text \<open>\<open>vh_systemdDir\<close>: what \<open>os.Stat\<close> of \<open>/run/systemd/system\<close> gives (whether it is a directory);
  \<open>vh_systemdRun\<close>: the output of \<open>systemd-run --version\<close>; \<open>vh_lookPath\<close>: the path \<open>exec.Command\<close> resolves a
  bare name to; \<open>vh_float\<close>: the \<open>%v\<close> text of the number a JSON number text stands for; \<open>vh_range\<close>: the
  order in which a map is ranged over.\<close>

record vm_host =
  vh_exec :: exec_path
  vh_build :: build_info
  vh_xml :: xml_decoder
  vh_fs :: fs
  vh_pid :: int
  vh_devContainer :: string
  vh_allowFailure :: string
  vh_systemdDir :: "bool option"
  vh_systemdRun :: "string result"
  vh_lookPath :: "string \<Rightarrow> string"
  vh_float :: "string \<Rightarrow> string"
  vh_range :: "(string \<times> json) list \<Rightarrow> (string \<times> json) list"
  vh_cgroups :: cgroup_lib

section \<open>Formatting\<close>

definition fmt_bool :: "bool \<Rightarrow> string" where
  "fmt_bool b = (if b then ''true'' else ''false'')"

definition fmt_list :: "string list \<Rightarrow> string" where
  "fmt_list xs = ''['' @ Join xs '' '' @ '']''"

text \<open>\<open>%v\<close> and \<open>%s\<close> of a decoded JSON value; maps are printed by key.\<close>

fun fmt_v :: "(string \<Rightarrow> string) \<Rightarrow> json \<Rightarrow> string" where
  "fmt_v ft JNull = ''<nil>''"
| "fmt_v ft (JBool b) = fmt_bool b"
| "fmt_v ft (JNum n) = ft n"
| "fmt_v ft (JStr s) = s"
| "fmt_v ft (JArr vs) = fmt_list (map (fmt_v ft) vs)"
| "fmt_v ft (JObj ms) = ''map'' @ fmt_list (map (\<lambda>(k, v). k @ '':'' @ v) (sort_key fst (map (\<lambda>(k, v). (k, fmt_v ft v)) ms)))"

fun fmt_s_in :: "(string \<Rightarrow> string) \<Rightarrow> json \<Rightarrow> string" where
  "fmt_s_in ft JNull = ''<nil>''"
| "fmt_s_in ft (JBool b) = ''%!s(bool='' @ fmt_bool b @ '')''"
| "fmt_s_in ft (JNum n) = ''%!s(float64='' @ ft n @ '')''"
| "fmt_s_in ft (JStr s) = s"
| "fmt_s_in ft (JArr vs) = fmt_list (map (fmt_s_in ft) vs)"
| "fmt_s_in ft (JObj ms) = ''map'' @ fmt_list (map (\<lambda>(k, v). k @ '':'' @ v) (sort_key fst (map (\<lambda>(k, v). (k, fmt_s_in ft v)) ms)))"

definition fmt_s :: "(string \<Rightarrow> string) \<Rightarrow> json \<Rightarrow> string" where
  "fmt_s ft v = (if v = JNull then ''%!s(<nil>)'' else fmt_s_in ft v)"

section \<open>Paths and environment\<close>

definition GetVMWatchHeartbeatFilePath :: "HandlerEnvironment \<Rightarrow> string" where
  "GetVMWatchHeartbeatFilePath hEnv = path_Join [he_LogFolder hEnv, ''vmwatch-heartbeat.txt'']"

definition GetExecutionEnvironment :: "HandlerEnvironment \<Rightarrow> string" where
  "GetExecutionEnvironment hEnv =
     (if Contains (he_LogFolder hEnv) AppHealthPublisherNameTest then ''Test'' else ''Prod'')"

definition GetVMWatchConfigFullPath :: "string \<Rightarrow> string" where
  "GetVMWatchConfigFullPath processDirectory = path_Join [processDirectory, ''VMWatch'', VMWatchConfigFileName]"

definition GetVMWatchBinaryFullPath :: "string \<Rightarrow> string \<Rightarrow> string" where
  "GetVMWatchBinaryFullPath args0 processDirectory =
     (let binaryName = (if Contains args0 ''applicationhealth-extension-arm64'' then VMWatchBinaryNameArm64
                        else VMWatchBinaryNameAmd64)
      in path_Join [processDirectory, ''VMWatch'', binaryName])"

definition overrides :: "go_map \<Rightarrow> (string \<times> json) list" where
  "overrides m = (case m of None \<Rightarrow> [] | Some ms \<Rightarrow> sort_key fst ms)"

definition GetVMWatchEnvironmentVariables :: "(string \<Rightarrow> string) \<Rightarrow> go_map \<Rightarrow> HandlerEnvironment \<Rightarrow> string list" where
  "GetVMWatchEnvironmentVariables ft parameterOverrides hEnv =
     map (\<lambda>(k, v). k @ ''='' @ fmt_s ft v) (overrides parameterOverrides)
     @ [''SIGNAL_FOLDER='' @ he_EventsFolder hEnv,
        ''VERBOSE_LOG_FILE_FULL_PATH='' @ path_Join [he_LogFolder hEnv, VMWatchVerboseLogFileName]]"

section \<open>systemd\<close>

definition isSystemdAvailable :: "vm_host \<Rightarrow> bool" where
  "isSystemdAvailable h = (vh_systemdDir h = Some True)"

text \<open>\<open>strings.Fields\<close> and \<open>strings.TrimSpace\<close> on ASCII text.\<close>

definition white :: "char \<Rightarrow> bool" where
  "white c \<longleftrightarrow> c \<in> set [CHR 0x09, CHR 0x0A, CHR 0x0B, CHR 0x0C, CHR 0x0D, CHR 0x20]"

function Fields :: "string \<Rightarrow> string list" where
  "Fields [] = []"
| "Fields (c # s) =
     (if white c then Fields s
      else (c # takeWhile (\<lambda>x. \<not> white x) s) # Fields (dropWhile (\<lambda>x. \<not> white x) s))"
  by pat_completeness auto
termination
  by (relation "measure length") (auto simp: le_imp_less_Suc length_dropWhile_le)

definition blank :: "string \<Rightarrow> bool" where
  "blank s \<longleftrightarrow> list_all white s"

fun version_in :: "string list \<Rightarrow> int" where
  "version_in [] = 0"
| "version_in (line # lines) =
     (if HasPrefix line ''systemd'' then
        (case Fields line of
           p0 # p1 # ps \<Rightarrow> (case Atoi p1 of Inr ret \<Rightarrow> ret | Inl e \<Rightarrow> 0)
         | _ \<Rightarrow> version_in lines)
      else version_in lines)"

definition extractVersion :: "string \<Rightarrow> int" where
  "extractVersion output = version_in (Split output NL)"

definition getSystemdVersion :: "vm_host \<Rightarrow> int" where
  "getSystemdVersion h = (case vh_systemdRun h of Inl e \<Rightarrow> 0 | Inr output \<Rightarrow> extractVersion output)"

section \<open>The command\<close>

record vm_cmd =
  vc_Path :: string
  vc_Args :: "string list"
  vc_Env :: "string list option"

definition exec_Command :: "vm_host \<Rightarrow> string \<Rightarrow> string list \<Rightarrow> vm_cmd" where
  "exec_Command h name args =
     \<lparr>vc_Path = (if path_Base name = name then vh_lookPath h name else name), vc_Args = name # args, vc_Env = None\<rparr>"

definition joined :: "string \<Rightarrow> string list option \<Rightarrow> string list" where
  "joined flag o' = (case o' of None \<Rightarrow> [] | Some [] \<Rightarrow> [] | Some xs \<Rightarrow> [flag, Join xs '':''])"

definition filter_args :: "vmWatchSignalFilters option \<Rightarrow> string list" where
  "filter_args f =
     (case f of
        None \<Rightarrow> []
      | Some sf \<Rightarrow>
          joined ''--disabled-signals'' (sf_DisabledSignals sf) @ joined ''--disabled-tags'' (sf_DisabledTags sf)
          @ joined ''--enabled-tags'' (sf_EnabledTags sf) @ joined ''--enabled-optional-signals'' (sf_EnabledOptionalSignals sf))"

definition attribute_args :: "vm_host \<Rightarrow> go_map \<Rightarrow> string list" where
  "attribute_args h m =
     (case m of
        None \<Rightarrow> [] | Some [] \<Rightarrow> []
      | Some ms \<Rightarrow> [''--env-attributes'', Join (map (\<lambda>(k, v). k @ ''='' @ fmt_v (vh_float h) v) (vh_range h ms)) '':''])"

definition vmWatch_args :: "vm_host \<Rightarrow> HandlerEnvironment \<Rightarrow> string \<Rightarrow> vmWatchSettings \<Rightarrow> string list" where
  "vmWatch_args h hEnv processDirectory s =
     [''--config'', GetVMWatchConfigFullPath processDirectory, ''--debug'',
      ''--heartbeat-file'', GetVMWatchHeartbeatFilePath hEnv, ''--execution-environment'', GetExecutionEnvironment hEnv,
      ''--memory-limit-bytes'', Itoa (vs_MemoryLimitInBytes s)]
     @ filter_args (vs_SignalFilters s)
     @ (if \<not> blank (vs_GlobalConfigUrl s) then [''--global-config-url'', vs_GlobalConfigUrl s] else [])
     @ [''--disable-config-reader'', fmt_bool (vs_DisableConfigReader s)]
     @ attribute_args h (vs_EnvironmentAttributes s)
     @ (if vh_devContainer h \<noteq> [] then [''--local''] else [])
     @ (case GetExtensionManifestVersion (vh_build h) (vh_xml h) (vh_exec h) (vh_fs h) of
          Inr v \<Rightarrow> [''--apphealth-version'', v] | Inl e \<Rightarrow> [])"

definition systemd_args :: "vm_host \<Rightarrow> HandlerEnvironment \<Rightarrow> vmWatchSettings \<Rightarrow> string list" where
  "systemd_args h hEnv s =
     [''--scope'', ''-p'', ''CPUQuota='' @ Itoa (vs_MaxCpuPercentage s) @ ''%'',
      ''-p'', (if getSystemdVersion h < 246 then ''MemoryLimit='' else ''MemoryMax='') @ Itoa (vs_MemoryLimitInBytes s)]
     @ concat (map (\<lambda>v. [''--setenv'', v])
         (GetVMWatchEnvironmentVariables (vh_float h) (vs_ParameterOverrides s) hEnv))"

text \<open>The defaults written into the settings, which are shared with the caller.\<close>

definition default_memory :: "vmWatchSettings \<Rightarrow> vmWatchSettings" where
  "default_memory s =
     (if vs_MemoryLimitInBytes s = 0 then s\<lparr>vs_MemoryLimitInBytes := DefaultMaxMemoryInBytes\<rparr> else s)"

definition default_cpu :: "vmWatchSettings \<Rightarrow> vmWatchSettings" where
  "default_cpu s =
     (if vs_MaxCpuPercentage s = 0 then s\<lparr>vs_MaxCpuPercentage := DefaultMaxCpuPercentage\<rparr> else s)"

definition setupVMWatchCommand ::
  "vm_host \<Rightarrow> string \<Rightarrow> vmWatchSettings \<Rightarrow> HandlerEnvironment \<Rightarrow> (vm_cmd \<times> bool) result \<times> vmWatchSettings" where
  "setupVMWatchCommand h now s0 hEnv =
     (case GetProcessDirectory (vh_exec h) of
        Inl e \<Rightarrow> (Inl e, s0)
      | Inr processDirectory \<Rightarrow>
          (let s1 = default_memory s0 in
           if vs_MemoryLimitInBytes s1 < 30000000 then
             (Inl (Errorf (''['' @ now @ ''] Invalid MemoryLimitInBytes specified must be at least 30000000'')), s1)
           else
             let s = default_cpu s1 in
             if vs_MaxCpuPercentage s < 0 \<or> vs_MaxCpuPercentage s > 100 then
               (Inl (Errorf (''['' @ now @ ''] Invalid maxCpuPercentage specified must be between 0 and 100'')), s)
             else
               let args = vmWatch_args h hEnv processDirectory s;
                   binary = GetVMWatchBinaryFullPath (ex_args0 (vh_exec h)) processDirectory
               in if isSystemdAvailable h
                  then (Inr (exec_Command h ''systemd-run'' (systemd_args h hEnv s @ [binary] @ args), False), s)
                  else (Inr ((exec_Command h binary args)
                          \<lparr>vc_Env := Some (GetVMWatchEnvironmentVariables (vh_float h) (vs_ParameterOverrides s) hEnv)\<rparr>,
                        True), s)))"

section \<open>Control groups\<close>

definition NewCPUMax :: "int \<Rightarrow> int \<Rightarrow> string" where
  "NewCPUMax quota period = Join [Itoa quota, Itoa period] '' ''"

definition watch_event :: "EventLevel \<Rightarrow> string \<Rightarrow> event" where
  "watch_event l m = (l, StartVMWatchTask, m)"

definition createAndAssignCgroups ::
  "vm_host \<Rightarrow> vmWatchSettings \<Rightarrow> int \<Rightarrow> go_error option \<times> event list \<times> cg_action list" where
  "createAndAssignCgroups h s vmWatchPid =
     (let lib = vh_cgroups h; mem = vs_MemoryLimitInBytes s; proc = word_of_int vmWatchPid;
          e1 = watch_event InfoEvent ''Assigning VMWatch process to cgroup'' in
      if cg_Unified lib then
        (let evs = [e1, watch_event InfoEvent ''cgroups v2 detected''];
             cpuMax = NewCPUMax (imul64 (vs_MaxCpuPercentage s) 10000) CGroupV2PeriodMs;
             new = CG2_New ''/sys/fs/cgroup'' ''/vmwatch.slice'' cpuMax mem in
         case cg2_NewManager lib ''/sys/fs/cgroup'' ''/vmwatch.slice'' cpuMax mem of
           Some e \<Rightarrow> (Some e, evs, [new])
         | None \<Rightarrow> (cg2_AddProc lib proc, evs, [new, CG2_Add proc]))
      else
        (let evs = [e1, watch_event InfoEvent ''cgroups v1 detected''] in
         case cg1_PidPath lib (vh_pid h) ''cpu'' of
           Inl e \<Rightarrow> (Some e, evs, [])
         | Inr cpuPath \<Rightarrow>
             (let cpuQuota = imul64 (vs_MaxCpuPercentage s) 1000; path = cpuPath @ ''/vmwatch.slice'';
                  new = CG1_New path cpuQuota mem in
              case cg1_New lib path cpuQuota mem of
                Some e \<Rightarrow> (Some e, evs, [new])
              | None \<Rightarrow>
                  (case cg1_AddProc lib proc of
                     Some e \<Rightarrow> (Some e, evs, [new, CG1_Add proc])
                   | None \<Rightarrow> (None, evs, [new, CG1_Add proc, CG1_Delete])))))"

section \<open>Killing\<close>

text \<open>An \<open>exec.Cmd\<close> that was set up: the process once it is started, and whether it has been waited
  for.\<close>

record cmd_state =
  cs_Process :: "int option"
  cs_exited :: bool

definition kill_event :: "EventLevel \<Rightarrow> string \<Rightarrow> event" where
  "kill_event l m = (l, KillVMWatchTask, m)"

definition not_running :: "event list" where
  "not_running = [kill_event InfoEvent ''VMWatch is not running, killing process is not necessary.'']"

text \<open>\<open>kill\<close> is what \<open>Process.Kill\<close> gives; the last component is the process it was called for.\<close>

definition killVMWatch ::
  "(int \<Rightarrow> go_error option) \<Rightarrow> cmd_state option \<Rightarrow> go_error option \<times> event list \<times> int list" where
  "killVMWatch kill cmd =
     (case cmd of
        None \<Rightarrow> (None, not_running, [])
      | Some c \<Rightarrow>
          (case cs_Process c of
             None \<Rightarrow> (None, not_running, [])
           | Some pid \<Rightarrow>
               if cs_exited c then (None, not_running, [])
               else
                 (case kill pid of
                    Some e \<Rightarrow>
                      (Some e, [kill_event ErrorEvent (''Failed to kill VMWatch process with PID '' @ Itoa pid @ ''. Error: '' @ Error e)],
                       [pid])
                  | None \<Rightarrow>
                      (None, [kill_event InfoEvent (''Successfully killed VMWatch process with PID '' @ Itoa pid)], [pid]))))"

section \<open>Resource governance\<close>

definition tolerates_failure :: "vm_host \<Rightarrow> bool" where
  "tolerates_failure h \<longleftrightarrow> vh_allowFailure h \<noteq> [] \<and> vh_devContainer h \<noteq> []"

fun is_panic :: "go_error \<Rightarrow> bool" where
  "is_panic (RuntimePanic m) = True"
| "is_panic (Sentinel m) = False"
| "is_panic (Errorf m) = False"
| "is_panic (Wrap e m) = False"
| "is_panic (ErrorfW m e) = False"

definition applyResourceGovernance ::
  "vm_host \<Rightarrow> string \<Rightarrow> (int \<Rightarrow> go_error option) \<Rightarrow> vmWatchSettings \<Rightarrow> int
   \<Rightarrow> go_error option \<times> event list \<times> cg_action list \<times> int list" where
  "applyResourceGovernance h now kill s pid =
     (let e0 = watch_event InfoEvent (''Applying resource governance to PID '' @ Itoa pid) in
      case createAndAssignCgroups h s pid of
        (None, evs, cgs) \<Rightarrow> (None, e0 # evs, cgs, [])
      | (Some e, evs, cgs) \<Rightarrow>
          if is_panic e then (Some e, e0 # evs, cgs, [])
          else
            let m = ''['' @ now @ ''][PID '' @ Itoa pid @ ''] Failed to assign VMWatch process to cgroup. Error: '' @ Error e;
                evs' = e0 # evs @ [watch_event ErrorEvent m]
            in if \<not> tolerates_failure h
               then (case killVMWatch kill (Some \<lparr>cs_Process = Some pid, cs_exited = False\<rparr>) of
                       (_, kevs, ks) \<Rightarrow> (Some (ErrorfW m e), evs' @ kevs, cgs, ks))
               else (None, evs', cgs, []))"

section \<open>Facts\<close>

lemma setup_cases:
  assumes "setupVMWatchCommand h now s0 hEnv = (Inr (cmd, gov), s)"
  obtains d where "GetProcessDirectory (vh_exec h) = Inr d" "s = default_cpu (default_memory s0)"
    "30000000 \<le> vs_MemoryLimitInBytes s" "0 \<le> vs_MaxCpuPercentage s" "vs_MaxCpuPercentage s \<le> 100"
    "gov \<longleftrightarrow> \<not> isSystemdAvailable h"
    "cmd = (if gov
            then (exec_Command h (GetVMWatchBinaryFullPath (ex_args0 (vh_exec h)) d) (vmWatch_args h hEnv d s))
                   \<lparr>vc_Env := Some (GetVMWatchEnvironmentVariables (vh_float h) (vs_ParameterOverrides s) hEnv)\<rparr>
            else exec_Command h ''systemd-run''
                   (systemd_args h hEnv s @ [GetVMWatchBinaryFullPath (ex_args0 (vh_exec h)) d] @ vmWatch_args h hEnv d s))"
proof -
  obtain d where d: "GetProcessDirectory (vh_exec h) = Inr d"
    using assms by (auto simp: setupVMWatchCommand_def split: sum.splits)
  let ?s = "default_cpu (default_memory s0)"
  have mem: "vs_MemoryLimitInBytes ?s = vs_MemoryLimitInBytes (default_memory s0)" by (simp add: default_cpu_def)
  have 1: "\<not> vs_MemoryLimitInBytes (default_memory s0) < 30000000"
    "\<not> (vs_MaxCpuPercentage ?s < 0 \<or> 100 < vs_MaxCpuPercentage ?s)"
    using assms by (simp_all only: setupVMWatchCommand_def Let_def d sum.case) (simp_all split: if_splits)
  show thesis
    using assms 1 mem by (intro that [OF d]) (auto simp: setupVMWatchCommand_def Let_def d split: if_splits)
qed

lemma default_cpu_positive: "0 \<le> vs_MaxCpuPercentage (default_cpu s) \<Longrightarrow> 1 \<le> vs_MaxCpuPercentage (default_cpu s)"
  by (auto simp: default_cpu_def DefaultMaxCpuPercentage_def)

text \<open>The process is confined: a group with the memory limit and a CPU quota of the configured
  percentage of the period was created and the process put into it.  The period of version 1 is the
  kernel's default of 100000 microseconds.\<close>

definition confined :: "vmWatchSettings \<Rightarrow> int \<Rightarrow> cg_action list \<Rightarrow> bool" where
  "confined s pid cgs \<longleftrightarrow>
     (\<exists>root slice quota period. CG2_New root slice (NewCPUMax quota period) (vs_MemoryLimitInBytes s) \<in> set cgs \<and>
        CG2_Add (word_of_int pid) \<in> set cgs \<and> 100 * quota = vs_MaxCpuPercentage s * period) \<or>
     (\<exists>path quota. CG1_New path quota (vs_MemoryLimitInBytes s) \<in> set cgs \<and> CG1_Add (word_of_int pid) \<in> set cgs \<and>
        100 * quota = vs_MaxCpuPercentage s * 100000)"

lemma cpu_quota_exact:
  "0 \<le> c \<Longrightarrow> c \<le> 100 \<Longrightarrow> imul64 c 10000 = c * 10000" "0 \<le> c \<Longrightarrow> c \<le> 100 \<Longrightarrow> imul64 c 1000 = c * 1000"
  by (rule imul64_exact; simp add: in_int64_def)+

lemma createAndAssignCgroups_confined:
  assumes "createAndAssignCgroups h s pid = (None, evs, cgs)" "0 \<le> vs_MaxCpuPercentage s" "vs_MaxCpuPercentage s \<le> 100"
  shows "confined s pid cgs"
proof (cases "cg_Unified (vh_cgroups h)")
  case True
  let ?q = "vs_MaxCpuPercentage s * 10000"
  have "CG2_New ''/sys/fs/cgroup'' ''/vmwatch.slice'' (NewCPUMax ?q CGroupV2PeriodMs) (vs_MemoryLimitInBytes s) \<in> set cgs \<and>
      CG2_Add (word_of_int pid) \<in> set cgs"
    using assms(1) True
    by (simp add: createAndAssignCgroups_def Let_def cpu_quota_exact [OF assms(2,3)] split: option.splits) auto
  moreover have "100 * ?q = vs_MaxCpuPercentage s * CGroupV2PeriodMs" by (simp add: CGroupV2PeriodMs_def)
  ultimately show ?thesis unfolding confined_def by blast
next
  case False
  let ?q = "vs_MaxCpuPercentage s * 1000"
  obtain path where "CG1_New path ?q (vs_MemoryLimitInBytes s) \<in> set cgs \<and> CG1_Add (word_of_int pid) \<in> set cgs"
    using assms(1) False
    by (auto simp: createAndAssignCgroups_def Let_def cpu_quota_exact [OF assms(2,3)] split: option.splits sum.splits)
  moreover have "100 * ?q = vs_MaxCpuPercentage s * 100000" by simp
  ultimately show ?thesis unfolding confined_def by blast
qed

lemma applyResourceGovernance_outcome:
  assumes "applyResourceGovernance h now kill s pid = (e, evs, cgs, ks)" "\<not> tolerates_failure h"
    "0 \<le> vs_MaxCpuPercentage s" "vs_MaxCpuPercentage s \<le> 100"
  shows "e = None \<and> confined s pid cgs \<or> e \<noteq> None \<and> ks = [pid] \<or> (\<exists>m. e = Some (RuntimePanic m))"
proof (cases "createAndAssignCgroups h s pid")
  case (fields e' evs' cgs')
  show ?thesis
  proof (cases e')
    case None
    then show ?thesis
      using assms fields createAndAssignCgroups_confined [of h s pid evs' cgs']
      by (simp add: applyResourceGovernance_def Let_def)
  next
    case (Some x)
    show ?thesis
    proof (cases x)
      case (RuntimePanic m)
      then show ?thesis using assms(1) fields Some by (auto simp: applyResourceGovernance_def Let_def)
    qed (use assms(1,2) fields Some in
        \<open>auto simp: applyResourceGovernance_def Let_def killVMWatch_def split: option.splits\<close>)
  qed
qed

section \<open>Properties\<close>


text \<open>A host without systemd, with the unified control group hierarchy.\<close>

definition sample_lib :: cgroup_lib where
  "sample_lib = \<lparr>cg_Unified = True, cg2_NewManager = (\<lambda>_ _ _ _. None), cg2_AddProc = (\<lambda>_. None),
     cg1_PidPath = (\<lambda>_ _. Inr ''/''), cg1_New = (\<lambda>_ _ _. None), cg1_AddProc = (\<lambda>_. None)\<rparr>"

definition sample_host :: vm_host where
  "sample_host = \<lparr>vh_exec = \<lparr>ex_args0 = ''/ahe/bin/applicationhealth-extension'', ex_getwd = Inr ''/''\<rparr>,
     vh_build = \<lparr>b_Version = ''2.1'', b_GitCommit = [], b_BuildDate = [], b_GitState = [], b_runtime = []\<rparr>,
     vh_xml = (\<lambda>_. Inl (Errorf ''EOF'')), vh_fs = plain_fs [], vh_pid = 10, vh_devContainer = [], vh_allowFailure = [],
     vh_systemdDir = None, vh_systemdRun = Inr [], vh_lookPath = id, vh_float = id, vh_range = id, vh_cgroups = sample_lib\<rparr>"

definition sample_hEnv :: HandlerEnvironment where
  "sample_hEnv = zero_env\<lparr>he_LogFolder := ''/log'', he_EventsFolder := ''/events'', he_StatusFolder := ''/status'', he_ConfigFolder := ''/c''\<rparr>"

lemma sample_setup:
  "\<exists>cmd s. setupVMWatchCommand sample_host [] zero_vmWatch sample_hEnv = (Inr (cmd, True), s) \<and>
     vs_MemoryLimitInBytes s = 200000000 \<and> vs_MaxCpuPercentage s = 1"
proof -
  let ?r = "setupVMWatchCommand sample_host [] zero_vmWatch sample_hEnv"
  have "(case fst ?r of Inl e \<Rightarrow> False | Inr (c, gov) \<Rightarrow> gov)" "vs_MemoryLimitInBytes (snd ?r) = 200000000"
    "vs_MaxCpuPercentage (snd ?r) = 1"
    by code_simp+
  then show ?thesis by (cases ?r) (auto split: sum.splits)
qed


text \<open>C24: Launching through systemd and launching directly.  On the same host, \<open>systemd-run\<close> is called in a scope
  with the two limits as properties, then with one \<open>--setenv\<close> for each of the variables that the direct launch
  sets, in the same order, then with the binary and the arguments of the direct launch, and nothing else.
  The variables are the parameter overrides ordered by name, and the two folders.  The direct launch gives
  VMWatch these variables only; \<open>systemd-run\<close> itself is started with the environment of the extension.\<close>

theorem launches_equivalent:
  assumes "isSystemdAvailable h" "\<not> isSystemdAvailable (h\<lparr>vh_systemdDir := x\<rparr>)"
    "setupVMWatchCommand h now s0 hEnv = (Inr (cmd, gov), s)"
  shows "\<exists>cmd' env.
    setupVMWatchCommand (h\<lparr>vh_systemdDir := x\<rparr>) now s0 hEnv = (Inr (cmd', True), s) \<and> \<not> gov \<and>
    vc_Args cmd = [''systemd-run'', ''--scope'', ''-p'', ''CPUQuota='' @ Itoa (vs_MaxCpuPercentage s) @ ''%'', ''-p'',
        (if getSystemdVersion h < 246 then ''MemoryLimit='' else ''MemoryMax='') @ Itoa (vs_MemoryLimitInBytes s)]
      @ concat (map (\<lambda>v. [''--setenv'', v]) env) @ vc_Args cmd' \<and>
    vc_Env cmd = None \<and> vc_Env cmd' = Some env \<and>
    env = map (\<lambda>(k, v). k @ ''='' @ fmt_s (vh_float h) v) (overrides (vs_ParameterOverrides s0))
      @ [''SIGNAL_FOLDER='' @ he_EventsFolder hEnv,
         ''VERBOSE_LOG_FILE_FULL_PATH='' @ path_Join [he_LogFolder hEnv, VMWatchVerboseLogFileName]] \<and>
    sorted (map fst (overrides (vs_ParameterOverrides s0)))"
proof -
  let ?h = "h\<lparr>vh_systemdDir := x\<rparr>"
  obtain d where d: "GetProcessDirectory (vh_exec h) = Inr d" "s = default_cpu (default_memory s0)"
    "30000000 \<le> vs_MemoryLimitInBytes s" "0 \<le> vs_MaxCpuPercentage s" "vs_MaxCpuPercentage s \<le> 100" "\<not> gov"
    "cmd = exec_Command h ''systemd-run''
       (systemd_args h hEnv s @ [GetVMWatchBinaryFullPath (ex_args0 (vh_exec h)) d] @ vmWatch_args h hEnv d s)"
    using assms(1) by (rule_tac setup_cases [OF assms(3)]) auto
  let ?env = "GetVMWatchEnvironmentVariables (vh_float h) (vs_ParameterOverrides s) hEnv"
  let ?cmd = "(exec_Command ?h (GetVMWatchBinaryFullPath (ex_args0 (vh_exec h)) d) (vmWatch_args h hEnv d s))\<lparr>vc_Env := Some ?env\<rparr>"
  have "vmWatch_args ?h hEnv d s = vmWatch_args h hEnv d s"
    by (simp add: vmWatch_args_def attribute_args_def split: option.split list.split)
  moreover have "vs_MemoryLimitInBytes s = vs_MemoryLimitInBytes (default_memory s0)" using d(2) by (simp add: default_cpu_def)
  ultimately have "setupVMWatchCommand ?h now s0 hEnv = (Inr (?cmd, True), s)"
    using assms(2) d(1-5) unfolding setupVMWatchCommand_def Let_def by simp
  moreover have "vc_Args cmd = [''systemd-run'', ''--scope'', ''-p'', ''CPUQuota='' @ Itoa (vs_MaxCpuPercentage s) @ ''%'', ''-p'',
        (if getSystemdVersion h < 246 then ''MemoryLimit='' else ''MemoryMax='') @ Itoa (vs_MemoryLimitInBytes s)]
      @ concat (map (\<lambda>v. [''--setenv'', v]) ?env) @ vc_Args ?cmd" "vc_Env cmd = None"
    by (simp_all add: d(7) exec_Command_def systemd_args_def)
  moreover have "vs_ParameterOverrides s = vs_ParameterOverrides s0"
    using d(2) by (simp add: default_cpu_def default_memory_def)
  then have "?env = map (\<lambda>(k, v). k @ ''='' @ fmt_s (vh_float h) v) (overrides (vs_ParameterOverrides s0))
      @ [''SIGNAL_FOLDER='' @ he_EventsFolder hEnv,
         ''VERBOSE_LOG_FILE_FULL_PATH='' @ path_Join [he_LogFolder hEnv, VMWatchVerboseLogFileName]]"
    by (simp add: GetVMWatchEnvironmentVariables_def)
  moreover have "sorted (map fst (overrides (vs_ParameterOverrides s0)))"
    by (simp add: overrides_def split: option.splits)
  ultimately show ?thesis using d(6) by (intro exI [of _ ?cmd] exI [of _ ?env]) simp
qed

theorem launches_equivalent_witness:
  "\<exists>cmd' s. setupVMWatchCommand sample_host [] zero_vmWatch sample_hEnv = (Inr (cmd', True), s) \<and>
     vc_Env cmd' = Some [''SIGNAL_FOLDER=/events'', ''VERBOSE_LOG_FILE_FULL_PATH=/log/vmwatch.log'']"
proof -
  let ?h = "sample_host\<lparr>vh_systemdDir := Some True\<rparr>"
  have h: "?h\<lparr>vh_systemdDir := None\<rparr> = sample_host" by (simp add: sample_host_def)
  let ?r = "setupVMWatchCommand ?h [] zero_vmWatch sample_hEnv"
  have "(case fst ?r of Inl e \<Rightarrow> False | Inr _ \<Rightarrow> True)" by code_simp
  then obtain cmd gov s where "?r = (Inr (cmd, gov), s)" by (cases ?r) (auto split: sum.splits)
  moreover have "path_Join [he_LogFolder sample_hEnv, VMWatchVerboseLogFileName] = ''/log/vmwatch.log''" by code_simp
  moreover have "isSystemdAvailable ?h" "\<not> isSystemdAvailable (?h\<lparr>vh_systemdDir := None\<rparr>)"
    by (simp_all add: isSystemdAvailable_def)
  ultimately show ?thesis
    using launches_equivalent [of ?h None "[]" zero_vmWatch sample_hEnv cmd gov s]
    unfolding h by (auto simp: overrides_def zero_vmWatch_def sample_hEnv_def)
qed

lemma Fields_word:
  assumes "w \<noteq> []" "\<forall>c \<in> set w. \<not> white c" "white d"
  shows "Fields (w @ d # s) = w # Fields s"
proof -
  obtain c u where w: "w = c # u" using assms(1) by (cases w) auto
  have u: "\<forall>c \<in> set u. \<not> white c" using assms(2) w by simp
  have "takeWhile (\<lambda>x. \<not> white x) (u @ d # s) = u" "dropWhile (\<lambda>x. \<not> white x) (u @ d # s) = d # s"
    using u assms(3) by (simp_all add: takeWhile_append2 dropWhile_append2)
  then show ?thesis using assms(2,3) w by simp
qed

lemma digit_not_white: "is_digit c \<Longrightarrow> \<not> white c"
  by (auto simp: is_digit_def white_def)

lemma Itoa_word: "Itoa n \<noteq> []" "\<forall>c \<in> set (Itoa n). \<not> white c \<and> c \<noteq> NL"
proof -
  have "\<forall>c \<in> set (string_of_nat m). \<not> white c \<and> c \<noteq> NL" for m
    using string_of_nat_chars [of _ m] digit_not_white by (auto simp: white_def)
  then show "\<forall>c \<in> set (Itoa n). \<not> white c \<and> c \<noteq> NL" by (auto simp: Itoa_def white_def)
qed (simp add: Itoa_def)

text \<open>C38: The version of systemd is read off its banner: on a first line \<open>systemd <n> ...\<close> the number is
  found whatever follows, for every number Go can hold.\<close>

theorem extractVersion_banner:
  assumes "in_int64 n"
  shows "extractVersion (''systemd '' @ Itoa n @ '' '' @ rest) = n"
proof -
  obtain l ls where sp: "Split ('' '' @ rest) NL = (CHR '' '' # l) # ls"
    by (cases "Split rest NL") auto
  have pre: "Split (w @ t) NL = (w @ hd (Split t NL)) # tl (Split t NL)" if "NL \<notin> set w" for w t
    using that by (induction w) (auto split: list.splits simp: neq_Nil_conv)
  let ?w = "''systemd '' @ Itoa n"
  have "NL \<notin> set ?w" using Itoa_word(2) [of n] by auto
  then have "Split (?w @ '' '' @ rest) NL = (?w @ CHR '' '' # l) # ls" using pre [of ?w "'' '' @ rest"] sp by simp
  moreover have "Fields (?w @ CHR '' '' # l) = ''systemd'' # Itoa n # Fields l"
    using Fields_word [of "''systemd''" "CHR '' ''" "Itoa n @ CHR '' '' # l"] Fields_word [of "Itoa n" "CHR '' ''" l] Itoa_word [of n]
    by (simp add: white_def)
  moreover have "HasPrefix (?w @ CHR '' '' # l) ''systemd''" by (simp add: HasPrefix_def)
  ultimately have "version_in (Split (?w @ '' '' @ rest) NL) = n"
    using assms by (simp only: version_in.simps if_True list.case Atoi_Itoa sum.case)
  then show ?thesis by (simp add: extractVersion_def)
qed

theorem extractVersion_banner_witness: "extractVersion (''systemd 249 (249.11-0ubuntu3)'') = 249"
proof -
  have "Itoa 249 = ''249''" by code_simp
  then show ?thesis using extractVersion_banner [of 249 "''(249.11-0ubuntu3)''"] by (simp add: in_int64_def)
qed

end
