(* ===== verification/Durations.thy ===== *)
theory Durations
  imports Prelude
begin

text \<open>
  Printing and rounding of \<open>time.Duration\<close> as the messages of the program use them.
\<close>

section \<open>Printing\<close>

text \<open>The digits of the fraction of \<open>v\<close> over \<open>10 ^ prec\<close> with trailing zeros removed, and the point
  before them.\<close>

fun pad_digits :: "nat \<Rightarrow> nat \<Rightarrow> string" where
  "pad_digits 0 v = []"
| "pad_digits (Suc n) v = pad_digits n (v div 10) @ [digit_char (v mod 10)]"

definition fmtFrac :: "nat \<Rightarrow> nat \<Rightarrow> string" where
  "fmtFrac v prec =
     (let ds = rev (dropWhile (\<lambda>c. c = CHR ''0'') (rev (pad_digits prec (v mod 10 ^ prec))))
      in if ds = [] then [] else CHR ''.'' # ds)"

definition scaled :: "nat \<Rightarrow> nat \<Rightarrow> string \<Rightarrow> string" where
  "scaled u prec unit = string_of_nat (u div 10 ^ prec) @ fmtFrac u prec @ unit"

definition duration_text :: "nat \<Rightarrow> string" where
  "duration_text u =
     (if u = 0 then ''0s''
      else if u < 1000 then scaled u 0 ''ns''
      else if u < 1000000 then scaled u 3 [CHR 0xC2, CHR 0xB5, CHR ''s'']
      else if u < 1000000000 then scaled u 6 ''ms''
      else
        let secs = u div 1000000000; mins = secs div 60; hrs = mins div 60;
            s = string_of_nat (secs mod 60) @ fmtFrac u 9 @ ''s''
        in if mins = 0 then s
           else if hrs = 0 then string_of_nat (mins mod 60) @ ''m'' @ s
           else string_of_nat hrs @ ''h'' @ string_of_nat (mins mod 60) @ ''m'' @ s)"

definition duration_String :: "duration \<Rightarrow> string" where
  "duration_String d = (if d < 0 then CHR ''-'' # duration_text (nat (- d)) else duration_text (nat d))"

section \<open>Rounding\<close>

definition duration_Round :: "duration \<Rightarrow> duration \<Rightarrow> duration" where
  "duration_Round d m =
     (if m \<le> 0 then d
      else
        let r = \<bar>d\<bar> mod m in
        if d < 0 then
          (if r + r < m then d + r
           else let d1 = iadd64 (isub64 d m) r in if d1 < d then d1 else - (2 ^ 63))
        else
          (if r + r < m then d - r
           else let d1 = isub64 (iadd64 d m) r in if d1 > d then d1 else 2 ^ 63 - 1))"

text \<open>Rounding moves a duration by at most half the unit and gives a multiple of it.\<close>

lemma duration_Round_near:
  assumes "0 \<le> d" "0 < m" "in_int64 (d + m)" "m < 2 ^ 62"
  shows "m dvd duration_Round d m" "2 * \<bar>duration_Round d m - d\<bar> \<le> m"
proof -
  let ?r = "d mod m"
  have r: "0 \<le> ?r" "?r < m" using assms(2) by simp_all
  have e: "isub64 (iadd64 d m) ?r = d + m - ?r"
    using assms r by (simp add: isub64_def iadd64_def in_int64_def)
  have dvd: "m dvd d - ?r" by (simp add: minus_mod_eq_mult_div)
  then have "m dvd d + m - ?r" by (metis add_diff_eq add.commute dvd_add_triv_left_iff)
  with dvd show "m dvd duration_Round d m"
    using assms(1,2) e r by (simp add: duration_Round_def Let_def)
  show "2 * \<bar>duration_Round d m - d\<bar> \<le> m"
    using assms(1,2) e r by (simp add: duration_Round_def Let_def)
qed

end
