(* ===== verification/VMWatch.thy ===== *)
theory VMWatch
  imports VMWatch_Setup Durations
begin

text \<open>
  Running VMWatch (\<open>main/vmWatch.go\<close>): one attempt, the watch on its heart beat, the retry schedule
  and the goroutine that ties them together.  The goroutine's state is the record \<open>watch\<close>: the two
  global retry counters, the shared settings, the command variable, the results sent to the main
  loop and what was done to the outside, over a world from which each attempt draws its
  circumstances.  The locale \<open>watch_helper\<close> is what the retry logic knows of an attempt.
\<close>

section \<open>The state\<close>

record 'w watch =
  wt_world :: 'w
  wt_cycle :: int         \<comment> \<open>vmWatchCurrentCycle\<close>
  wt_attempts :: int      \<comment> \<open>vmWatchTotalAttempts\<close>
  wt_settings :: vmWatchSettings
  wt_command :: "vm_cmd option"
  wt_events :: "event list"
  wt_sent :: "VMWatchResult list"
  wt_sleeps :: "duration list"
  wt_cgroups :: "cg_action list"
  wt_kills :: "int list"

definition w_emit :: "event list \<Rightarrow> 'w watch \<Rightarrow> 'w watch" where
  "w_emit evs w = w\<lparr>wt_events := wt_events w @ evs\<rparr>"

definition w_send :: "VMWatchResult \<Rightarrow> 'w watch \<Rightarrow> 'w watch" where
  "w_send r w = w\<lparr>wt_sent := wt_sent w @ [r]\<rparr>"

definition time_Sleep :: "duration \<Rightarrow> 'w watch \<Rightarrow> 'w watch" where
  "time_Sleep d w = w\<lparr>wt_sleeps := wt_sleeps w @ [d]\<rparr>"

lemma w_simps [simp]:
  "wt_sent (w_emit evs w) = wt_sent w" "wt_sleeps (w_emit evs w) = wt_sleeps w"
  "wt_events (w_emit evs w) = wt_events w @ evs"
  "wt_sent (w_send r w) = wt_sent w @ [r]" "wt_sleeps (w_send r w) = wt_sleeps w"
  "wt_sent (time_Sleep d w) = wt_sent w" "wt_sleeps (time_Sleep d w) = wt_sleeps w @ [d]"
  "wt_cycle (w_emit evs w) = wt_cycle w" "wt_attempts (w_emit evs w) = wt_attempts w"
  by (simp_all add: w_emit_def w_send_def time_Sleep_def)

section \<open>The retry counters\<close>

definition resetVMWatchRetryCounters :: "'w watch \<Rightarrow> 'w watch" where
  "resetVMWatchRetryCounters w = w\<lparr>wt_cycle := 1, wt_attempts := 0\<rparr>"

definition updateVMWatchRetryCounters :: "int \<Rightarrow> int \<Rightarrow> 'w watch \<Rightarrow> 'w watch" where
  "updateVMWatchRetryCounters cycle totalAttempts w = w\<lparr>wt_cycle := cycle, wt_attempts := totalAttempts\<rparr>"

definition getVMWatchRetryCounters :: "'w watch \<Rightarrow> int \<times> int" where
  "getVMWatchRetryCounters w = (wt_cycle w, wt_attempts w)"

section \<open>The watch on the heart beat\<close>

text \<open>What one tick of the ticker meets: the modification time of the heart beat file, the clock
  readings in the order the code takes them, the two time stamps of messages, whether the process
  has been waited for, and the answer of a kill.\<close>

record tick =
  tk_stat :: "go_time result"
  tk_nowStat :: go_time
  tk_nowRun :: go_time
  tk_nowMsg :: go_time
  tk_stampHung :: string
  tk_stampKill :: string
  tk_exited :: bool
  tk_kill :: "int \<Rightarrow> go_error option"

record process_done =
  pd_nowRun :: go_time
  pd_nowMsg :: go_time

definition successThreshold :: duration where "successThreshold = hour"

text \<open>\<open>Seconds() < 180\<close> on the duration as a floating point number agrees with the comparison of the
  duration with 180 seconds.\<close>

definition maxTimeBetweenHeartBeats :: duration where "maxTimeBetweenHeartBeats = 180 * second"

definition beat_event :: "EventLevel \<Rightarrow> string \<Rightarrow> event" where
  "beat_event l m = (l, ReportHeatBeatTask, m)"

definition alive :: "tick \<Rightarrow> bool" where
  "alive t \<longleftrightarrow> (case tk_stat t of Inl e \<Rightarrow> False | Inr modTime \<Rightarrow> time_Sub (tk_nowStat t) modTime < maxTimeBetweenHeartBeats)"

definition monitor_tick :: "int \<Rightarrow> go_time \<Rightarrow> tick \<Rightarrow> bool \<times> 'w watch \<Rightarrow> bool \<times> 'w watch" where
  "monitor_tick pid startTime t st =
     (let (retryResetDone, w) = st in
      if alive t then
        (if \<not> retryResetDone \<and> time_Sub (tk_nowRun t) startTime \<ge> successThreshold then
           (True,
            w_emit [watch_event InfoEvent (''VMWatch PID '' @ Itoa pid @ '' has been running successfully for ''
                     @ duration_String (duration_Round (time_Sub (tk_nowMsg t) startTime) minute) @ '', retry counters reset'')]
              (resetVMWatchRetryCounters w))
         else (retryResetDone, w))
      else
        (let w1 = w_emit [beat_event ErrorEvent (''['' @ tk_stampHung t @ ''][PID '' @ Itoa pid
                    @ ''] VMWatch process did not update heartbeat file within the time limit, killing the process'')] w in
         case killVMWatch (tk_kill t) (Some \<lparr>cs_Process = Some pid, cs_exited = tk_exited t\<rparr>) of
           (e, evs, ks) \<Rightarrow>
             (let w2 = (w_emit evs w1)\<lparr>wt_kills := wt_kills w1 @ ks\<rparr> in
              (retryResetDone,
               if e = None then w2
               else w_emit [beat_event ErrorEvent (''['' @ tk_stampKill t @ ''][PID '' @ Itoa pid @ ''] Failed to kill vmwatch process'')] w2))))"

definition monitor_done :: "int \<Rightarrow> go_time \<Rightarrow> process_done \<Rightarrow> bool \<times> 'w watch \<Rightarrow> 'w watch" where
  "monitor_done pid startTime d st =
     (let (retryResetDone, w) = st in
      if \<not> retryResetDone \<and> time_Sub (pd_nowRun d) startTime \<ge> successThreshold then
        w_emit [watch_event InfoEvent (''VMWatch PID '' @ Itoa pid @ '' ran successfully for ''
                 @ duration_String (duration_Round (time_Sub (pd_nowMsg d) startTime) minute) @ '' before exit, retry counters reset'')]
          (resetVMWatchRetryCounters w)
      else w)"

definition monitorHeartBeat :: "int \<Rightarrow> go_time \<Rightarrow> tick list \<Rightarrow> process_done \<Rightarrow> 'w watch \<Rightarrow> 'w watch" where
  "monitorHeartBeat pid startTime ticks d w =
     monitor_done pid startTime d (foldl (\<lambda>st t. monitor_tick pid startTime t st) (False, w) ticks)"

section \<open>One attempt\<close>

text \<open>What an attempt meets: the host, time stamps, whether the process starts, its output, how it
  ends, the ticks until then.\<close>

record attempt_env =
  ae_host :: vm_host
  ae_stampSetup :: string
  ae_stampGov :: string
  ae_stamp :: string
  ae_start :: "int result"
  ae_output :: string
  ae_kill :: "int \<Rightarrow> go_error option"
  ae_startTime :: go_time
  ae_ticks :: "tick list"
  ae_done :: process_done
  ae_wait :: "go_error option"

text \<open>\<open>fmt.Errorf\<close> with \<open>%w\<close> between two texts; a nil error is printed as \<open>%!w(<nil>)\<close>.\<close>

definition wrapf :: "string \<Rightarrow> go_error option \<Rightarrow> string \<Rightarrow> go_error" where
  "wrapf pre e post =
     (case e of None \<Rightarrow> Errorf (pre @ ''%!w(<nil>)'' @ post) | Some x \<Rightarrow> ErrorfW (pre @ Error x @ post) x)"

definition at_attempt :: "string \<Rightarrow> int \<Rightarrow> int \<Rightarrow> string" where
  "at_attempt stamp pid attempt = ''['' @ stamp @ ''][PID '' @ Itoa pid @ ''] Attempt '' @ Itoa attempt @ '': ''"

definition output_text :: "string \<Rightarrow> string" where
  "output_text output = NL # ''Output: '' @ Text output"

definition setup_text :: "int \<Rightarrow> vm_cmd \<Rightarrow> string" where
  "setup_text attempt c =
     ''Attempt '' @ Itoa attempt @ '': Setup VMWatch command: '' @ vc_Path c @ [NL] @ ''Args: '' @ fmt_list (Slice (vc_Args c)) @ [NL]
     @ ''Dir: '' @ [NL] @ ''Env: '' @ fmt_list (Slice (case vc_Env c of None \<Rightarrow> [] | Some e \<Rightarrow> e)) @ [NL]"

definition exited_error :: "attempt_env \<Rightarrow> int \<Rightarrow> int \<Rightarrow> go_error option \<Rightarrow> go_error" where
  "exited_error a pid attempt e =
     wrapf (at_attempt (ae_stamp a) pid attempt @ ''VMWatch process exited. Error: '') e (output_text (ae_output a))"

definition stop_event :: "EventLevel \<Rightarrow> string \<Rightarrow> event" where
  "stop_event l m = (l, StopVMWatchTask, m)"

text \<open>The attempt after the process has started and is governed: wait for it while its heart beat is
  watched.\<close>

definition run_attempt :: "attempt_env \<Rightarrow> int \<Rightarrow> int \<Rightarrow> 'w watch \<Rightarrow> go_error option \<times> 'w watch" where
  "run_attempt a pid attempt w =
     (let w1 = monitorHeartBeat pid (ae_startTime a) (ae_ticks a) (ae_done a) w;
          err = exited_error a pid attempt (ae_wait a)
      in (Some err, w_emit [stop_event ErrorEvent (Error err)] w1))"

definition governed_attempt :: "attempt_env \<Rightarrow> int \<Rightarrow> int \<Rightarrow> 'w watch \<Rightarrow> go_error option \<times> 'w watch" where
  "governed_attempt a pid attempt w =
     (case applyResourceGovernance (ae_host a) (ae_stampGov a) (ae_kill a) (wt_settings w) pid of
        (e, evs, cgs, ks) \<Rightarrow>
          (let w1 = (w_emit evs w)\<lparr>wt_cgroups := wt_cgroups w @ cgs, wt_kills := wt_kills w @ ks\<rparr> in
           case e of
             None \<Rightarrow> run_attempt a pid attempt w1
           | Some (RuntimePanic m) \<Rightarrow>
               (Some (wrapf ''error: '' None (NL # '' Additonal Details: '' @ m)), w_emit [watch_event ErrorEvent (''Recovered '' @ m)] w1)
           | Some x \<Rightarrow>
               (let err = exited_error a pid attempt (Some x) in (Some err, w_emit [stop_event ErrorEvent (Error err)] w1))))"

definition executeVMWatchHelper ::
  "('w \<Rightarrow> attempt_env \<times> 'w) \<Rightarrow> HandlerEnvironment \<Rightarrow> int \<Rightarrow> 'w watch \<Rightarrow> go_error option \<times> 'w watch" where
  "executeVMWatchHelper nxt hEnv attempt w0 =
     (case nxt (wt_world w0) of
        (a, wd) \<Rightarrow>
          (case setupVMWatchCommand (ae_host a) (ae_stampSetup a) (wt_settings w0) hEnv of
             (Inl e, s) \<Rightarrow>
               (let w = w0\<lparr>wt_world := wd, wt_settings := s, wt_command := None\<rparr>;
                    err = wrapf (at_attempt (ae_stamp a) (-1) attempt @ ''VMWatch setup failed. Error: '') (Some e) []
                in (Some err, w_emit [(ErrorEvent, SetupVMWatchTask, Error err)] w))
           | (Inr (cmd, resourceGovernanceRequired), s) \<Rightarrow>
               (let w = w_emit [(InfoEvent, SetupVMWatchTask, setup_text attempt cmd)]
                          (w0\<lparr>wt_world := wd, wt_settings := s, wt_command := Some cmd\<rparr>) in
                case ae_start a of
                  Inl e \<Rightarrow>
                    (let err = wrapf (at_attempt (ae_stamp a) (-1) attempt @ ''VMWatch failed to start. Error: '') (Some e)
                                 (output_text (ae_output a))
                     in (Some err, w_emit [watch_event ErrorEvent (Error err)] w))
                | Inr pid \<Rightarrow>
                    (let w1 = w_emit [watch_event InfoEvent (''Attempt '' @ Itoa attempt @ '': Started VMWatch with PID '' @ Itoa pid)] w in
                     if \<not> resourceGovernanceRequired then
                       run_attempt a pid attempt
                         (w_emit [watch_event InfoEvent (''Resource governance was already applied at process launch of PID '' @ Itoa pid)] w1)
                     else governed_attempt a pid attempt w1))))"

section \<open>The retry schedule\<close>

record RetryConfig =
  MaxCycles :: int
  AttemptsPerCycle :: int
  BaseWaitHours :: int

record RetryResult =
  TotalAttempts :: int
  CyclesRun :: int
  LastError :: "go_error option"
  Success :: bool

text \<open>The functions the logic is given; \<open>rf_channel\<close> says whether there is a result channel.\<close>

record 'w retry_funs =
  rf_helper :: "int \<Rightarrow> 'w watch \<Rightarrow> go_error option \<times> 'w watch"
  rf_sleep :: "duration \<Rightarrow> 'w watch \<Rightarrow> 'w watch"
  rf_shutdown :: "'w watch \<Rightarrow> bool \<times> 'w watch"
  rf_channel :: bool

definition report :: "'w retry_funs \<Rightarrow> VMWatchStatus \<Rightarrow> go_error option \<Rightarrow> 'w watch \<Rightarrow> 'w watch" where
  "report f st e w = (if rf_channel f then w_send \<lparr>vw_Status = st, vw_Error = e\<rparr> w else w)"

text \<open>The attempts of a cycle: whether one succeeded, the attempts made so far, the last error.  The
  loop counters stay at most one above the configured numbers.\<close>

function attempts_loop ::
  "RetryConfig \<Rightarrow> 'w retry_funs \<Rightarrow> int \<Rightarrow> int \<Rightarrow> go_error option \<Rightarrow> 'w watch
   \<Rightarrow> (bool \<times> int \<times> go_error option) \<times> 'w watch" where
  "attempts_loop cfg f attempt tot lastErr w =
     (if attempt > AttemptsPerCycle cfg then ((False, tot, lastErr), w)
      else
        (case rf_shutdown f w of
           (True, w1) \<Rightarrow> ((False, tot, lastErr), w1)
         | (False, w1) \<Rightarrow>
             (case rf_helper f attempt (report f Running None w1) of
                (e, w2) \<Rightarrow>
                  (let w3 = report f Failed e w2 in
                   if e = None then ((True, tot + 1, None), w3)
                   else attempts_loop cfg f (attempt + 1) (tot + 1) e w3))))"
  by pat_completeness auto
termination
  by (relation "measure (\<lambda>(cfg, f, attempt, tot, lastErr, w). nat (AttemptsPerCycle cfg + 1 - attempt))") auto

declare attempts_loop.simps [simp del]

definition cycle_event :: "RetryConfig \<Rightarrow> int \<Rightarrow> event" where
  "cycle_event cfg retryCycle =
     watch_event InfoEvent (''Starting VMWatch retry cycle '' @ Itoa retryCycle @ '' of '' @ Itoa (MaxCycles cfg))"

definition wait_event :: "RetryConfig \<Rightarrow> int \<Rightarrow> int \<Rightarrow> event" where
  "wait_event cfg retryCycle waitHours =
     watch_event ErrorEvent (''VMWatch cycle '' @ Itoa retryCycle @ '' reached max '' @ Itoa (AttemptsPerCycle cfg)
       @ '' attempts, sleeping for '' @ Itoa waitHours @ '' hours before cycle '' @ Itoa (retryCycle + 1))"

definition backoff :: "RetryConfig \<Rightarrow> int \<Rightarrow> int" where
  "backoff cfg retryCycle = imul64 (BaseWaitHours cfg) retryCycle"

text \<open>The wait after a cycle, unless it is the last one or a shutdown was requested.\<close>

definition wait_cycle :: "RetryConfig \<Rightarrow> 'w retry_funs \<Rightarrow> int \<Rightarrow> 'w watch \<Rightarrow> 'w watch" where
  "wait_cycle cfg f retryCycle w =
     (if retryCycle < MaxCycles cfg then
        (case rf_shutdown f w of
           (True, w1) \<Rightarrow> w1
         | (False, w1) \<Rightarrow>
             (let waitHours = backoff cfg retryCycle in
              rf_sleep f (imul64 hour waitHours) (w_emit [wait_event cfg retryCycle waitHours] w1)))
      else w)"

function cycles_loop ::
  "RetryConfig \<Rightarrow> 'w retry_funs \<Rightarrow> int \<Rightarrow> int \<Rightarrow> go_error option \<Rightarrow> 'w watch \<Rightarrow> RetryResult \<times> 'w watch" where
  "cycles_loop cfg f retryCycle tot lastErr w =
     (let finish = \<lparr>TotalAttempts = tot, CyclesRun = MaxCycles cfg, LastError = lastErr, Success = False\<rparr> in
      if retryCycle > MaxCycles cfg then (finish, w)
      else
        (case rf_shutdown f w of
           (True, w1) \<Rightarrow> (finish, w1)
         | (False, w1) \<Rightarrow>
             (case attempts_loop cfg f 1 tot lastErr (w_emit [cycle_event cfg retryCycle] w1) of
                ((True, n, e), w2) \<Rightarrow>
                  (\<lparr>TotalAttempts = n, CyclesRun = retryCycle, LastError = None, Success = True\<rparr>, w2)
              | ((False, n, e), w2) \<Rightarrow>
                  cycles_loop cfg f (retryCycle + 1) n e
                    (wait_cycle cfg f retryCycle (updateVMWatchRetryCounters retryCycle n w2)))))"
  by pat_completeness auto
termination
  by (relation "measure (\<lambda>(cfg, f, retryCycle, tot, lastErr, w). nat (MaxCycles cfg + 1 - retryCycle))") auto

declare cycles_loop.simps [simp del]

definition executeRetryLogic :: "RetryConfig \<Rightarrow> 'w retry_funs \<Rightarrow> 'w watch \<Rightarrow> RetryResult \<times> 'w watch" where
  "executeRetryLogic cfg f w =
     (case getVMWatchRetryCounters w of (startCycle, totalAttempts) \<Rightarrow> cycles_loop cfg f startCycle totalAttempts None w)"

section \<open>The goroutine\<close>

definition VMWatchMaxRetryCycles :: int where "VMWatchMaxRetryCycles = 4"
definition VMWatchMaxProcessAttempts :: int where "VMWatchMaxProcessAttempts = 3"
definition VMWatchBaseWaitHours :: int where "VMWatchBaseWaitHours = 3"

lemmas retry_consts [go_consts] = VMWatchMaxRetryCycles_def VMWatchMaxProcessAttempts_def VMWatchBaseWaitHours_def

definition vmWatch_config :: RetryConfig where
  "vmWatch_config = \<lparr>MaxCycles = VMWatchMaxRetryCycles, AttemptsPerCycle = VMWatchMaxProcessAttempts,
     BaseWaitHours = VMWatchBaseWaitHours\<rparr>"

text \<open>What the goroutine is given: the circumstances of each attempt and the reading of the shutdown
  flag.\<close>

record 'w watch_env =
  we_next :: "'w \<Rightarrow> attempt_env \<times> 'w"
  we_shutdown :: "'w \<Rightarrow> bool \<times> 'w"

definition vmWatch_funs :: "'w watch_env \<Rightarrow> HandlerEnvironment \<Rightarrow> 'w retry_funs" where
  "vmWatch_funs env hEnv =
     \<lparr>rf_helper = executeVMWatchHelper (we_next env) hEnv, rf_sleep = time_Sleep,
      rf_shutdown = (\<lambda>w. case we_shutdown env (wt_world w) of (b, wd) \<Rightarrow> (b, w\<lparr>wt_world := wd\<rparr>)), rf_channel = True\<rparr>"

definition exhausted_msg :: string where
  "exhausted_msg = ''VMWatch exhausted all '' @ Itoa VMWatchMaxRetryCycles @ '' retry cycles with ''
     @ Itoa VMWatchMaxProcessAttempts @ '' attempts each. No more retries until machine reboot or AppHealth restart.''"

text \<open>The final result is sent and the channel closed when the goroutine ends.  An attempt recovers
  its own panics, so the deferred recovery has nothing to do.\<close>

definition executeVMWatch :: "'w watch_env \<Rightarrow> HandlerEnvironment \<Rightarrow> 'w watch \<Rightarrow> 'w watch" where
  "executeVMWatch env hEnv w0 =
     (case executeRetryLogic vmWatch_config (vmWatch_funs env hEnv) w0 of
        (result, w) \<Rightarrow>
          (case (if Success result then (True, w) else rf_shutdown (vmWatch_funs env hEnv) w) of
             (True, w1) \<Rightarrow> w_send \<lparr>vw_Status = Failed, vw_Error = LastError result\<rparr> w1
           | (False, w1) \<Rightarrow>
               w_send \<lparr>vw_Status = Failed, vw_Error = Some (wrapf (exhausted_msg @ '' Last error: '') (LastError result) [])\<rparr>
                 (w_emit [watch_event ErrorEvent exhausted_msg] w1)))"

section \<open>The interface of an attempt\<close>

text \<open>An undisturbed run: attempts by \<open>att\<close>, real sleeps, a result channel and no shutdown.\<close>

definition calm :: "(int \<Rightarrow> 'w watch \<Rightarrow> go_error option \<times> 'w watch) \<Rightarrow> 'w retry_funs \<Rightarrow> bool" where
  "calm att f \<longleftrightarrow> rf_helper f = att \<and> rf_sleep f = time_Sleep \<and> rf_channel f \<and>
     (\<forall>w. fst (rf_shutdown f w) = False \<and> wt_sent (snd (rf_shutdown f w)) = wt_sent w \<and>
          wt_sleeps (snd (rf_shutdown f w)) = wt_sleeps w)"

text \<open>The retry logic relies on three things of an attempt: it always ends with an error (VMWatch is
  not supposed to return), it sends nothing to the main loop itself and does not sleep through the
  schedule's sleep.  It may change anything else, the retry counters included.\<close>

locale watch_helper =
  fixes att :: "int \<Rightarrow> 'w watch \<Rightarrow> go_error option \<times> 'w watch"
  assumes att_fails: "fst (att a w) \<noteq> None"
    and att_sent: "wt_sent (snd (att a w)) = wt_sent w"
    and att_sleeps: "wt_sleeps (snd (att a w)) = wt_sleeps w"
begin

lemma calm_shutdown:
  assumes "calm att f"
  obtains w' where "rf_shutdown f w = (False, w')" "wt_sent w' = wt_sent w" "wt_sleeps w' = wt_sleeps w"
  using assms unfolding calm_def by (metis prod.collapse)

text \<open>A cycle makes all its attempts, each announced as running and ended as failed.\<close>

lemma attempts_loop_all:
  assumes "calm att f" "attempts_loop cfg f a n e w = ((ok, n', e'), w')" "a \<le> AttemptsPerCycle cfg + 1"
  shows "\<not> ok \<and> n' = n + (AttemptsPerCycle cfg + 1 - a) \<and> wt_sleeps w' = wt_sleeps w \<and>
    (\<exists>rs. wt_sent w' = wt_sent w @ rs \<and> map vw_Status rs = concat (replicate (nat (AttemptsPerCycle cfg + 1 - a)) [Running, Failed])) \<and>
    (e' = e \<and> a = AttemptsPerCycle cfg + 1 \<or> e' \<noteq> None)"
  using assms
proof (induction cfg f a n e w arbitrary: w' rule: attempts_loop.induct)
  case (1 cfg f a n e w)
  show ?case
  proof (cases "a > AttemptsPerCycle cfg")
    case True
    then show ?thesis using 1(3,4) by (simp add: attempts_loop.simps [of cfg f a])
  next
    case False
    obtain w1 where s: "rf_shutdown f w = (False, w1)" "wt_sent w1 = wt_sent w" "wt_sleeps w1 = wt_sleeps w"
      using 1(2) by (rule calm_shutdown)
    obtain x w2 where h: "att a (report f Running None w1) = (Some x, w2)"
      using att_fails [of a "report f Running None w1"] by (metis not_Some_eq prod.collapse)
    have hf: "rf_helper f = att" "rf_channel f" using 1(2) by (simp_all add: calm_def)
    let ?w3 = "report f Failed (Some x) w2"
    have step: "attempts_loop cfg f a n e w = attempts_loop cfg f (a + 1) (n + 1) (Some x) ?w3"
      using False by (simp add: attempts_loop.simps [of cfg f a] s(1) hf(1) h Let_def)
    have "wt_sent ?w3 = wt_sent w @ [\<lparr>vw_Status = Running, vw_Error = None\<rparr>, \<lparr>vw_Status = Failed, vw_Error = Some x\<rparr>]"
      "wt_sleeps ?w3 = wt_sleeps w"
      using att_sent [of a "report f Running None w1"] att_sleeps [of a "report f Running None w1"] s(2,3) h hf(2)
      by (simp_all add: report_def)
    moreover have "\<not> ok \<and> n' = n + 1 + (AttemptsPerCycle cfg + 1 - (a + 1)) \<and> wt_sleeps w' = wt_sleeps ?w3 \<and>
      (\<exists>rs. wt_sent w' = wt_sent ?w3 @ rs \<and>
        map vw_Status rs = concat (replicate (nat (AttemptsPerCycle cfg + 1 - (a + 1))) [Running, Failed])) \<and>
      (e' = Some x \<and> a + 1 = AttemptsPerCycle cfg + 1 \<or> e' \<noteq> None)"
      using 1(1) [OF False s(1) [symmetric] refl _ refl _ 1(2), of "Some x" w2 w'] False 1(3) h hf(1) step by simp
    moreover have "nat (AttemptsPerCycle cfg + 1 - a) = Suc (nat (AttemptsPerCycle cfg + 1 - (a + 1)))"
      using False by simp
    ultimately show ?thesis by auto
  qed
qed

text \<open>All cycles run, with the growing waits between them.\<close>

lemma cycles_loop_all:
  assumes "calm att f" "0 \<le> AttemptsPerCycle cfg" "c \<le> MaxCycles cfg + 1" "cycles_loop cfg f c n e w = (r, w')"
  shows "TotalAttempts r = n + (MaxCycles cfg + 1 - c) * AttemptsPerCycle cfg \<and> CyclesRun r = MaxCycles cfg \<and> \<not> Success r \<and>
    (\<exists>rs. wt_sent w' = wt_sent w @ rs \<and>
       map vw_Status rs = concat (replicate (nat ((MaxCycles cfg + 1 - c) * AttemptsPerCycle cfg)) [Running, Failed])) \<and>
    wt_sleeps w' = wt_sleeps w @ map (\<lambda>k. imul64 hour (backoff cfg k)) [c..MaxCycles cfg - 1] \<and>
    (LastError r = e \<and> (c > MaxCycles cfg \<or> AttemptsPerCycle cfg = 0) \<or> LastError r \<noteq> None)"
  using assms
proof (induction cfg f c n e w arbitrary: w' rule: cycles_loop.induct)
  case (1 cfg f c n e w)
  show ?case
  proof (cases "c > MaxCycles cfg")
    case True
    then have c: "c = MaxCycles cfg + 1" using 1(4) by simp
    then have "(r, w') = (\<lparr>TotalAttempts = n, CyclesRun = MaxCycles cfg, LastError = e, Success = False\<rparr>, w)"
      using 1(5) cycles_loop.simps [of cfg f c n e w] by (simp add: Let_def)
    then show ?thesis using c by simp
  next
    case False
    obtain w1 where s: "rf_shutdown f w = (False, w1)" "wt_sent w1 = wt_sent w" "wt_sleeps w1 = wt_sleeps w"
      using 1(2) by (rule calm_shutdown)
    let ?w1 = "w_emit [cycle_event cfg c] w1"
    obtain ok m x w2 where a: "attempts_loop cfg f 1 n e ?w1 = ((ok, m, x), w2)" by (metis prod.collapse)
    note all = attempts_loop_all [OF 1(2) a]
    let ?w3 = "updateVMWatchRetryCounters c m w2" let ?w4 = "wait_cycle cfg f c ?w3"
    have ok: "ok = False" using all 1(3) by simp
    have step: "cycles_loop cfg f c n e w = cycles_loop cfg f (c + 1) m x ?w4"
      using False by (simp add: cycles_loop.simps [of cfg f c] Let_def s(1) a ok)
    obtain w5 where s5: "rf_shutdown f ?w3 = (False, w5)" "wt_sent w5 = wt_sent ?w3" "wt_sleeps w5 = wt_sleeps ?w3"
      using 1(2) by (rule calm_shutdown)
    have wait: "wt_sent ?w4 = wt_sent w2"
      "wt_sleeps ?w4 = wt_sleeps w2 @ (if c < MaxCycles cfg then [imul64 hour (backoff cfg c)] else [])"
      using s5 1(2) by (auto simp: wait_cycle_def calm_def Let_def updateVMWatchRetryCounters_def)
    have ih: "TotalAttempts r = m + (MaxCycles cfg + 1 - (c + 1)) * AttemptsPerCycle cfg \<and> CyclesRun r = MaxCycles cfg \<and> \<not> Success r \<and>
      (\<exists>rs. wt_sent w' = wt_sent ?w4 @ rs \<and>
        map vw_Status rs = concat (replicate (nat ((MaxCycles cfg + 1 - (c + 1)) * AttemptsPerCycle cfg)) [Running, Failed])) \<and>
      wt_sleeps w' = wt_sleeps ?w4 @ map (\<lambda>k. imul64 hour (backoff cfg k)) [c + 1..MaxCycles cfg - 1] \<and>
      (LastError r = x \<and> (c + 1 > MaxCycles cfg \<or> AttemptsPerCycle cfg = 0) \<or> LastError r \<noteq> None)"
      using 1(1) [OF refl False s(1) [symmetric] refl a [symmetric] refl ok refl 1(2,3), of w'] 1(5) False step by simp
    have cnt: "(MaxCycles cfg + 1 - c) * AttemptsPerCycle cfg =
        AttemptsPerCycle cfg + (MaxCycles cfg + 1 - (c + 1)) * AttemptsPerCycle cfg"
      by (simp add: algebra_simps)
    have "nat ((MaxCycles cfg + 1 - c) * AttemptsPerCycle cfg) =
        nat (AttemptsPerCycle cfg) + nat ((MaxCycles cfg + 1 - (c + 1)) * AttemptsPerCycle cfg)"
      unfolding cnt using 1(3) False by (simp add: nat_add_distrib)
    moreover have "[c..MaxCycles cfg - 1] = (if c < MaxCycles cfg then c # [c + 1..MaxCycles cfg - 1] else [])"
      using False by (auto simp: upto_rec1)
    moreover obtain rs where "wt_sent w2 = wt_sent w @ rs" "map vw_Status rs = concat (replicate (nat (AttemptsPerCycle cfg)) [Running, Failed])"
      using all 1(3) s(2) by auto
    moreover have "m = n + AttemptsPerCycle cfg" "wt_sleeps w2 = wt_sleeps w" "x = e \<and> AttemptsPerCycle cfg = 0 \<or> x \<noteq> None"
      using all 1(3) s(3) by auto
    ultimately show ?thesis
      using ih wait cnt by (auto simp: replicate_add)
  qed
qed

end

section \<open>What an attempt does\<close>

lemma monitor_tick_frame:
  "wt_sent (snd (monitor_tick pid t0 t (b, w))) = wt_sent w \<and> wt_sleeps (snd (monitor_tick pid t0 t (b, w))) = wt_sleeps w"
  by (simp add: monitor_tick_def Let_def resetVMWatchRetryCounters_def split: prod.split)

lemma monitor_ticks_frame:
  "wt_sent (snd (foldl (\<lambda>st t. monitor_tick pid t0 t st) st ts)) = wt_sent (snd st) \<and>
   wt_sleeps (snd (foldl (\<lambda>st t. monitor_tick pid t0 t st) st ts)) = wt_sleeps (snd st)"
proof (induction ts arbitrary: st)
  case (Cons t ts)
  then show ?case using monitor_tick_frame [of pid t0 t "fst st" "snd st"] by simp
qed simp

lemma monitorHeartBeat_frame [simp]:
  "wt_sent (monitorHeartBeat pid t0 ts d w) = wt_sent w" "wt_sleeps (monitorHeartBeat pid t0 ts d w) = wt_sleeps w"
  using monitor_ticks_frame [of pid t0 "(False, w)" ts]
  by (simp_all add: monitorHeartBeat_def monitor_done_def resetVMWatchRetryCounters_def case_prod_unfold Let_def)

lemma run_attempt_frame:
  "\<exists>y. fst (run_attempt a pid n w) = Some y" "wt_sent (snd (run_attempt a pid n w)) = wt_sent w"
  "wt_sleeps (snd (run_attempt a pid n w)) = wt_sleeps w"
  by (simp_all add: run_attempt_def Let_def)

lemma governed_attempt_frame:
  "(\<exists>y. fst (governed_attempt a pid n w) = Some y) \<and> wt_sent (snd (governed_attempt a pid n w)) = wt_sent w \<and>
   wt_sleeps (snd (governed_attempt a pid n w)) = wt_sleeps w"
  by (simp add: governed_attempt_def Let_def run_attempt_frame split: prod.split option.split go_error.split)

lemma executeVMWatchHelper_frame:
  "(\<exists>y. fst (executeVMWatchHelper nxt hEnv n w) = Some y) \<and> wt_sent (snd (executeVMWatchHelper nxt hEnv n w)) = wt_sent w \<and>
   wt_sleeps (snd (executeVMWatchHelper nxt hEnv n w)) = wt_sleeps w"
  by (simp add: executeVMWatchHelper_def Let_def run_attempt_frame governed_attempt_frame split: prod.split sum.split)

interpretation vmw: watch_helper "executeVMWatchHelper nxt hEnv" for nxt hEnv
  by unfold_locales (simp_all add: executeVMWatchHelper_frame)

lemma length_concat_replicate_pair [simp]: "length (concat (replicate 12 [a, b])) = 24"
  by (simp add: length_concat sum_list_replicate)

lemma executeVMWatch_schedule:
  assumes "\<forall>wd. \<not> fst (we_shutdown env wd)" "wt_cycle w = 1"
  shows "\<exists>rs e. wt_sent (executeVMWatch env hEnv w) = wt_sent w @ rs @ [\<lparr>vw_Status = Failed, vw_Error = Some e\<rparr>] \<and>
    map vw_Status rs = concat (replicate 12 [Running, Failed]) \<and> prefix exhausted_msg (Error e) \<and>
    wt_sleeps (executeVMWatch env hEnv w) = wt_sleeps w @ [3 * hour, 6 * hour, 9 * hour]"
proof -
  let ?f = "vmWatch_funs env hEnv" let ?cfg = vmWatch_config
  have sh: "fst (rf_shutdown ?f v) = False" "wt_sent (snd (rf_shutdown ?f v)) = wt_sent v"
      "wt_sleeps (snd (rf_shutdown ?f v)) = wt_sleeps v" for v
    using assms(1) by (simp_all add: vmWatch_funs_def case_prod_unfold)
  then have calm: "calm (executeVMWatchHelper (we_next env) hEnv) ?f" by (simp add: calm_def vmWatch_funs_def)
  obtain r w1 where l: "cycles_loop ?cfg ?f 1 (wt_attempts w) None w = (r, w1)" by force
  have cfg: "MaxCycles ?cfg = 4" "AttemptsPerCycle ?cfg = 3" "BaseWaitHours ?cfg = 3"
    by (simp_all add: vmWatch_config_def go_consts)
  obtain rs where rs: "wt_sent w1 = wt_sent w @ rs" "map vw_Status rs = concat (replicate 12 [Running, Failed])"
    using vmw.cycles_loop_all [OF calm _ _ l] by (auto simp: cfg)
  have "map (\<lambda>k. imul64 hour (backoff ?cfg k)) [1..3] = [3 * hour, 6 * hour, 9 * hour]"
    by (simp add: upto_rec1 backoff_def cfg imul64_def wrap64_def hour_def)
  then have r: "\<not> Success r" "wt_sleeps w1 = wt_sleeps w @ [3 * hour, 6 * hour, 9 * hour]"
    using vmw.cycles_loop_all [OF calm _ _ l] by (simp_all add: cfg)
  obtain w2 where w2: "rf_shutdown ?f w1 = (False, w2)" "wt_sent w2 = wt_sent w1" "wt_sleeps w2 = wt_sleeps w1"
    using sh [of w1] by (cases "rf_shutdown ?f w1") simp
  let ?e = "wrapf (exhausted_msg @ '' Last error: '') (LastError r) []"
  have "executeRetryLogic ?cfg ?f w = (r, w1)"
    using l assms(2) by (simp add: executeRetryLogic_def getVMWatchRetryCounters_def)
  then have "executeVMWatch env hEnv w =
      w_send \<lparr>vw_Status = Failed, vw_Error = Some ?e\<rparr> (w_emit [watch_event ErrorEvent exhausted_msg] w2)"
    using r(1) w2(1) by (simp only: executeVMWatch_def prod.case if_False bool.case)
  moreover have "prefix exhausted_msg (Error ?e)" by (simp add: wrapf_def split: option.split)
  ultimately show ?thesis using rs r(2) w2(2,3) by (intro exI [of _ rs] exI [of _ ?e]) simp
qed

section \<open>Properties\<close>

text \<open>C12: The retry schedule of VMWatch.  Without a shutdown request, and whatever the attempts do and
  however long they run, the goroutine makes exactly twelve attempts, each announced to the main
  loop as running and then as failed, sleeps 3, 6 and 9 hours between the four cycles, and ends with a
  failure that says all cycles are exhausted.  In particular the reset of the retry counters by the
  heart beat watch after an hour of success buys no further attempt.\<close>

theorem vmWatch_retry_schedule:
  assumes "\<forall>wd. \<not> fst (we_shutdown env wd)" "wt_cycle w = 1"
  shows "\<exists>rs e. wt_sent (executeVMWatch env hEnv w) = wt_sent w @ rs @ [\<lparr>vw_Status = Failed, vw_Error = Some e\<rparr>] \<and>
    map vw_Status rs = concat (replicate 12 [Running, Failed]) \<and> prefix exhausted_msg (Error e) \<and>
    wt_sleeps (executeVMWatch env hEnv w) = wt_sleeps w @ [3 * hour, 6 * hour, 9 * hour]"
  by (rule executeVMWatch_schedule [OF assms])

text \<open>A world without circumstances of its own, in which every attempt fails to start.\<close>

definition failing_attempt :: attempt_env where
  "failing_attempt = \<lparr>ae_host = sample_host, ae_stampSetup = [], ae_stampGov = [], ae_stamp = [],
     ae_start = Inl (Errorf ''no such file''), ae_output = [], ae_kill = (\<lambda>_. None), ae_startTime = 0, ae_ticks = [],
     ae_done = \<lparr>pd_nowRun = 0, pd_nowMsg = 0\<rparr>, ae_wait = None\<rparr>"

definition failing_env :: "unit watch_env" where
  "failing_env = \<lparr>we_next = (\<lambda>w. (failing_attempt, w)), we_shutdown = (\<lambda>w. (False, w))\<rparr>"

definition init_watch :: "'w \<Rightarrow> vmWatchSettings \<Rightarrow> 'w watch" where
  "init_watch wd s = \<lparr>wt_world = wd, wt_cycle = 1, wt_attempts = 0, wt_settings = s, wt_command = None, wt_events = [],
     wt_sent = [], wt_sleeps = [], wt_cgroups = [], wt_kills = []\<rparr>"

theorem vmWatch_retry_schedule_witness:
  "length (wt_sent (executeVMWatch failing_env sample_hEnv (init_watch () zero_vmWatch))) = 25"
proof -
  have "\<forall>wd. \<not> fst (we_shutdown failing_env wd)" by (simp add: failing_env_def)
  moreover have "wt_cycle (init_watch () zero_vmWatch) = 1" "wt_sent (init_watch () zero_vmWatch) = []"
    by (simp_all add: init_watch_def)
  ultimately obtain rs e where "wt_sent (executeVMWatch failing_env sample_hEnv (init_watch () zero_vmWatch)) =
      rs @ [\<lparr>vw_Status = Failed, vw_Error = Some e\<rparr>]" "map vw_Status rs = concat (replicate 12 [Running, Failed])"
    using vmWatch_retry_schedule [of failing_env "init_watch () zero_vmWatch" sample_hEnv] by auto
  moreover from this(2) have "length rs = 24"
    by (metis length_map length_concat_replicate_pair)
  ultimately show ?thesis by simp
qed

section \<open>What the watch on the heart beat does\<close>

text \<open>A tick that finds a heart beat of the last three minutes, one that does so an hour or more after the
  start, and one that does not although the process has not been waited for.  Times are in nanoseconds.\<close>

definition beating :: "tick \<Rightarrow> bool" where
  "beating t \<longleftrightarrow> (case tk_stat t of Inl e \<Rightarrow> False | Inr modTime \<Rightarrow> tk_nowStat t - modTime < 180 * 10 ^ 9)"

definition long_alive :: "go_time \<Rightarrow> tick \<Rightarrow> bool" where
  "long_alive t0 t \<longleftrightarrow> beating t \<and> tk_nowRun t - t0 \<ge> 3600 * 10 ^ 9"

definition hung :: "tick \<Rightarrow> bool" where
  "hung t \<longleftrightarrow> \<not> beating t \<and> \<not> tk_exited t"

lemma alive_iff: "alive t \<longleftrightarrow> beating t"
  using time_Sub_less_iff [of "180 * second" "tk_nowStat t"]
  by (simp add: alive_def beating_def maxTimeBetweenHeartBeats_def second_def split: sum.split)

lemma succeeded_iff: "time_Sub t u \<ge> successThreshold \<longleftrightarrow> t - u \<ge> 3600 * 10 ^ 9"
  using time_Sub_less_iff [of hour t u] by (auto simp: successThreshold_def hour_def not_less [symmetric])

lemma w_emit_frame [simp]:
  "wt_kills (w_emit evs w) = wt_kills w" "wt_kills (w_send r w) = wt_kills w"
  by (simp_all add: w_emit_def w_send_def)

lemma counters_simps [simp]:
  "getVMWatchRetryCounters (w_emit evs w) = getVMWatchRetryCounters w"
  "getVMWatchRetryCounters (resetVMWatchRetryCounters w) = (1, 0)"
  "wt_kills (resetVMWatchRetryCounters w) = wt_kills w"
  "getVMWatchRetryCounters (w\<lparr>wt_kills := ks\<rparr>) = getVMWatchRetryCounters w"
  by (simp_all add: getVMWatchRetryCounters_def resetVMWatchRetryCounters_def)

lemma monitor_tick_effect:
  assumes "monitor_tick pid t0 t (b, w) = (b', w')"
  shows "b' = (b \<or> long_alive t0 t) \<and> wt_kills w' = wt_kills w @ (if hung t then [pid] else []) \<and>
    getVMWatchRetryCounters w' = (if \<not> b \<and> long_alive t0 t then (1, 0) else getVMWatchRetryCounters w)"
  using assms
  by (auto simp: monitor_tick_def alive_iff succeeded_iff Let_def long_alive_def hung_def killVMWatch_def
      split: if_splits option.splits)

lemma monitor_ticks_effect:
  assumes "foldl (\<lambda>st t. monitor_tick pid t0 t st) (b, w) ts = (b', w')"
  shows "b' = (b \<or> list_ex (long_alive t0) ts) \<and> wt_kills w' = wt_kills w @ map (\<lambda>_. pid) (filter hung ts) \<and>
    getVMWatchRetryCounters w' = (if \<not> b \<and> list_ex (long_alive t0) ts then (1, 0) else getVMWatchRetryCounters w)"
  using assms
proof (induction ts arbitrary: b w)
  case (Cons t ts)
  obtain b1 w1 where t: "monitor_tick pid t0 t (b, w) = (b1, w1)" by force
  have "foldl (\<lambda>st t. monitor_tick pid t0 t st) (b1, w1) ts = (b', w')" using Cons.prems t by simp
  from Cons.IH [OF this] monitor_tick_effect [OF t] show ?case by auto
qed simp

text \<open>C25: The watch on the heart beat requests a kill once for every tick that finds the heart beat file
  missing or last written three minutes ago or more while the process has not been waited for, and never
  otherwise.  It resets the retry counters exactly if a tick finds a fresh heart beat an hour or more after
  the start, or the process ends, in whatever way, an hour or more after the start.\<close>

theorem monitorHeartBeat_effects:
  "wt_kills (monitorHeartBeat pid t0 ts d w) = wt_kills w @ map (\<lambda>_. pid) (filter hung ts) \<and>
   getVMWatchRetryCounters (monitorHeartBeat pid t0 ts d w) =
     (if list_ex (long_alive t0) ts \<or> pd_nowRun d - t0 \<ge> 3600 * 10 ^ 9 then (1, 0)
      else getVMWatchRetryCounters w)"
proof -
  obtain b' w' where f: "foldl (\<lambda>st t. monitor_tick pid t0 t st) (False, w) ts = (b', w')" by force
  show ?thesis
    using monitor_ticks_effect [OF f] by (auto simp: monitorHeartBeat_def f monitor_done_def succeeded_iff Let_def)
qed

end
