(* ===== verification/Enable.thy ===== *)
theory Enable
  imports Commands Health VMWatch
begin

text \<open>
  The body of \<open>enable\<close> (\<open>main/cmds.go\<close>): reading the settings, building the probe, starting VMWatch, and
  the polling loop with its grace period, its committed health state and the status it reports.  One
  iteration is the function \<open>iteration\<close>; what it meets from outside (what other processes did to the
  files, the clock, the probe's network, the channel of VMWatch, the shutdown flag) is the record
  \<open>iter_env\<close>.  The loop runs over a list of them until it returns.
\<close>

section \<open>State\<close>

record loop_state =
  ls_numConsecutiveProbes :: int
  ls_prevState :: HealthStatus
  ls_committedState :: HealthStatus
  ls_commitedCustomMetricsState :: string
  ls_honorGracePeriod :: bool
  ls_vmWatchResult :: VMWatchResult
  ls_timeOfLastVMWatchLog :: go_time
  ls_timeOfLastAppHealthLog :: go_time  \<comment> \<open>the global variable of \<open>health.go\<close>\<close>

text \<open>What the loop does not change; \<open>lc_vmWatch\<close>: whether VMWatch settings are present; \<open>lc_quote\<close>:
  \<open>strconv.Quote\<close>.\<close>

record loop_cfg =
  lc_probe :: HealthProbe
  lc_interval :: duration
  lc_numberOfProbes :: int
  lc_gracePeriod :: duration
  lc_gracePeriodStartTime :: go_time
  lc_vmWatch :: bool
  lc_seqNum :: uint
  lc_cwd :: work_dir
  lc_statusFolder :: string
  lc_pid :: int
  lc_quote :: "string \<Rightarrow> string"

datatype chan_read = NoMsg | Msg VMWatchResult | Closed

record iter_env =
  it_files :: "fs \<Rightarrow> fs"
  it_beatSince :: go_time
  it_beatNow :: go_time
  it_startTime :: go_time
  it_probe :: probe_env
  it_shutdown :: bool
  it_channel :: chan_read
  it_vmSince :: go_time
  it_vmNow :: go_time
  it_graceNow :: go_time
  it_report :: report_env
  it_endTime :: go_time
  it_shutdownAfter :: bool

section \<open>Messages\<close>

definition ev_seq_unread :: "go_error \<Rightarrow> event list" where
  "ev_seq_unread e =
     [app_event WarningEvent (''Failed to read current sequence number: '' @ Error e @ ''. Continuing with current configuration.'')]"

definition ev_superseded :: "uint \<Rightarrow> uint \<Rightarrow> int \<Rightarrow> event list" where
  "ev_superseded seqNum most me =
     [app_event WarningEvent (''Current sequence number '' @ Utoa seqNum
        @ '' is less than the most recently started sequence number '' @ Utoa most @ ''. PID '' @ Itoa me
        @ '' initiating graceful shutdown.'')]"

definition ev_probe_error :: "go_error option \<Rightarrow> event list" where
  "ev_probe_error e =
     (case e of None \<Rightarrow> [] | Some x \<Rightarrow> [app_event InfoEvent (''Error evaluating health probe: '' @ Error x)])"

definition ev_shutting_down :: "event list" where
  "ev_shutting_down = [app_event InfoEvent ''Shutting down AppHealth Extension Gracefully'']"

definition ev_changed :: "HealthStatus \<Rightarrow> event list" where
  "ev_changed s = [app_event InfoEvent (''Health state changed to '' @ ToLower s)]"

definition ev_committed :: "HealthStatus \<Rightarrow> event list" where
  "ev_committed s = [app_event InfoEvent (''Committed health state is '' @ ToLower s)]"

datatype grace_note = Expired | SuccessfulProbes | Honoring

definition ev_grace :: "grace_note \<Rightarrow> duration \<Rightarrow> event list" where
  "ev_grace g d =
     [app_event InfoEvent
        ((case g of
            Expired \<Rightarrow> ''No longer honoring grace period - expired. Time elapsed = ''
          | SuccessfulProbes \<Rightarrow> ''No longer honoring grace period - successful probes. Time elapsed = ''
          | Honoring \<Rightarrow> ''Honoring grace period. Time elapsed = '') @ duration_String d)]"

section \<open>The parts of an iteration\<close>

text \<open>The channel of VMWatch.\<close>

definition closed_result :: VMWatchResult where
  "closed_result = \<lparr>vw_Status = Failed, vw_Error = Some (Errorf ''VMWatch channel has closed, unknown error'')\<rparr>"

definition vm_running_event :: event where "vm_running_event = beat_event InfoEvent ''VMWatch is running''"

definition read_channel :: "iter_env \<Rightarrow> loop_state \<Rightarrow> loop_state \<times> event list" where
  "read_channel it s =
     (case it_channel it of
        Closed \<Rightarrow> (s\<lparr>ls_vmWatchResult := closed_result\<rparr>, [])
      | Msg r \<Rightarrow>
          (s\<lparr>ls_vmWatchResult := r\<rparr>,
           (case vw_Status r of
              Running \<Rightarrow> [vm_running_event]
            | Failed \<Rightarrow> [beat_event ErrorEvent (GetMessage r)]
            | NotRunning \<Rightarrow> [beat_event InfoEvent ''VMWatch is not running'']
            | Disabled \<Rightarrow> []))
      | NoMsg \<Rightarrow>
          if vw_Status (ls_vmWatchResult s) = Running \<and> time_Sub (it_vmSince it) (ls_timeOfLastVMWatchLog s) \<ge> 60 * second
          then (s\<lparr>ls_timeOfLastVMWatchLog := it_vmNow it\<rparr>, [vm_running_event])
          else (s, []))"

text \<open>Counting equal observations.\<close>

definition observe :: "HealthStatus \<Rightarrow> loop_state \<Rightarrow> loop_state \<times> event list" where
  "observe st s =
     (if ls_prevState s = st then (s\<lparr>ls_numConsecutiveProbes := iadd64 (ls_numConsecutiveProbes s) 1\<rparr>, [])
      else (s\<lparr>ls_numConsecutiveProbes := 1, ls_prevState := st\<rparr>, ev_changed st))"

text \<open>The grace period: the state that goes on to be committed.\<close>

definition grace :: "loop_cfg \<Rightarrow> go_time \<Rightarrow> HealthStatus \<Rightarrow> loop_state \<Rightarrow> (HealthStatus \<times> loop_state) \<times> event list" where
  "grace c now st s =
     (if \<not> ls_honorGracePeriod s then ((st, s), [])
      else
        let timeElapsed = time_Sub now (lc_gracePeriodStartTime c);
            after = healthStatusAfterGracePeriodExpires (lc_probe c)
        in if timeElapsed \<ge> lc_gracePeriod c then
             ((after, s\<lparr>ls_honorGracePeriod := False, ls_prevState := after, ls_numConsecutiveProbes := 1,
                        ls_committedState := Empty\<rparr>), ev_grace Expired timeElapsed)
           else if ls_numConsecutiveProbes s = lc_numberOfProbes c \<and> st \<noteq> after then
             ((st, s\<lparr>ls_honorGracePeriod := False\<rparr>), ev_grace SuccessfulProbes timeElapsed)
           else ((Initializing, s), ev_grace Honoring timeElapsed))"

definition commit :: "loop_cfg \<Rightarrow> HealthStatus \<Rightarrow> loop_state \<Rightarrow> loop_state \<times> event list" where
  "commit c st s =
     (if ls_numConsecutiveProbes s = lc_numberOfProbes c \<or> ls_committedState s = Empty then
        (s\<lparr>ls_committedState := st,
           ls_numConsecutiveProbes :=
             (if ls_numConsecutiveProbes s = lc_numberOfProbes c then 0 else ls_numConsecutiveProbes s)\<rparr>,
         if st \<noteq> ls_committedState s then ev_committed st else [])
      else (s, []))"

text \<open>The health part of an iteration, from the probe's answer to the committed state.\<close>

definition health_step :: "loop_cfg \<Rightarrow> go_time \<Rightarrow> HealthStatus \<Rightarrow> loop_state \<Rightarrow> loop_state \<times> event list" where
  "health_step c now st s =
     (case observe st s of
        (s1, e1) \<Rightarrow>
          (case grace c now st s1 of
             ((st', s2), e2) \<Rightarrow> (case commit c st' s2 of (s3, e3) \<Rightarrow> (s3, e1 @ e2 @ e3))))"

text \<open>The substatuses.\<close>

definition SubstatusKeyNameAppHealthStatus :: string where "SubstatusKeyNameAppHealthStatus = ''AppHealthStatus''"
definition SubstatusKeyNameApplicationHealthState :: string where
  "SubstatusKeyNameApplicationHealthState = ''ApplicationHealthState''"
definition SubstatusKeyNameCustomMetrics :: string where "SubstatusKeyNameCustomMetrics = ''CustomMetrics''"
definition SubstatusKeyNameVMWatch :: string where "SubstatusKeyNameVMWatch = ''VMWatch''"

lemmas substatus_consts [go_consts] =
  SubstatusKeyNameAppHealthStatus_def SubstatusKeyNameApplicationHealthState_def
  SubstatusKeyNameCustomMetrics_def SubstatusKeyNameVMWatch_def

definition health_substatuses :: "HealthStatus \<Rightarrow> SubstatusItem list" where
  "health_substatuses st =
     [NewSubstatus SubstatusKeyNameAppHealthStatus (GetStatusTypeForAppHealthStatus st) (GetMessageForAppHealthStatus st),
      NewSubstatus SubstatusKeyNameApplicationHealthState (GetStatusType st) st]"

definition metrics_type :: "ProbeResponse \<Rightarrow> StatusType" where
  "metrics_type p = (if validateCustomMetrics p = None then StatusSuccess else StatusError)"

definition metrics_step :: "ProbeResponse \<Rightarrow> loop_state \<Rightarrow> (SubstatusItem list \<times> loop_state) \<times> event list" where
  "metrics_step p s =
     (let m = pr_CustomMetrics p; t = metrics_type p in
      if m = Empty then (([], s), [])
      else
        (([NewSubstatus SubstatusKeyNameCustomMetrics t m], s\<lparr>ls_commitedCustomMetricsState := m\<rparr>),
         if ls_commitedCustomMetricsState s \<noteq> m
         then [(InfoEvent, ReportStatusTask,
                ''Reporting CustomMetric Substatus with status: '' @ status_text t @ '' , message: '' @ m)]
         else []))"

definition vm_substatuses :: "loop_cfg \<Rightarrow> loop_state \<Rightarrow> SubstatusItem list" where
  "vm_substatuses c s =
     (if lc_vmWatch c
      then [NewSubstatus SubstatusKeyNameVMWatch (VMWatchStatus_GetStatusType (vw_Status (ls_vmWatchResult s)))
              (GetMessage (ls_vmWatchResult s))]
      else [])"

text \<open>\<open>%#v\<close> of the substatuses.\<close>

definition fmt_item :: "(string \<Rightarrow> string) \<Rightarrow> SubstatusItem \<Rightarrow> string" where
  "fmt_item q i =
     ''main.SubstatusItem{Name:'' @ q (ss_Name i) @ '', Status:'' @ q (status_text (ss_Status i))
     @ '', FormattedMessage:main.FormattedMessage{Lang:'' @ q (fm_Lang (ss_FormattedMessage i)) @ '', Message:''
     @ q (fm_Message (ss_FormattedMessage i)) @ ''}}''"

definition ev_report_failed :: "loop_cfg \<Rightarrow> SubstatusItem list \<Rightarrow> go_error \<Rightarrow> event list" where
  "ev_report_failed c substs e =
     [(ErrorEvent, ReportStatusTask,
       ''Error while trying to report extension status with seqNum: '' @ Utoa (lc_seqNum c) @ '', StatusType: ''
       @ status_text StatusSuccess @ '', message: '' @ statusMessage @ '', substatuses: []main.SubstatusItem{''
       @ Join (map (fmt_item (lc_quote c)) substs) '', '' @ ''}, error: '' @ Error e)]"

section \<open>One iteration\<close>

datatype loop_exit = Superseded | Terminated

definition exit_error :: "loop_exit \<Rightarrow> go_error" where
  "exit_error x = (case x of Superseded \<Rightarrow> errSuperseded | Terminated \<Rightarrow> errTerminated)"

text \<open>The check for a newer configuration: whether to leave, and the run with its events.\<close>

definition check_superseded :: "loop_cfg \<Rightarrow> 'w run \<Rightarrow> bool \<times> 'w run" where
  "check_superseded c r =
     (case GetCurrentSequenceNumber (lc_cwd c) (r_fs r) of
        Inl e \<Rightarrow> (False, emit (ev_seq_unread e) r)
      | Inr most \<Rightarrow>
          if lc_seqNum c < most then (True, emit (ev_superseded (lc_seqNum c) most (lc_pid c)) r) else (False, r))"

text \<open>The report and the wait for the next iteration.\<close>

definition report_step :: "loop_cfg \<Rightarrow> iter_env \<Rightarrow> SubstatusItem list \<Rightarrow> 'w run \<Rightarrow> 'w run" where
  "report_step c it substs r =
     (case reportStatusWithSubstatuses (it_report it) (lc_statusFolder c) (lc_seqNum c) StatusSuccess ''enable'' statusMessage
             substs (r_fs r) of
        (e, evs, w) \<Rightarrow>
          emit (evs @ (case e of None \<Rightarrow> [] | Some x \<Rightarrow> ev_report_failed c substs x)) (r\<lparr>r_fs := w\<rparr>))"

definition durationToWait :: "loop_cfg \<Rightarrow> iter_env \<Rightarrow> duration" where
  "durationToWait c it = isub64 (lc_interval c) (time_Sub (it_endTime it) (it_startTime it))"

definition wait_step :: "'w os \<Rightarrow> loop_cfg \<Rightarrow> iter_env \<Rightarrow> 'w run \<Rightarrow> 'w run" where
  "wait_step ops c it r = (if durationToWait c it > 0 then Sleep ops (durationToWait c it) r else r)"

text \<open>From the probe's answer to the wait.\<close>

definition poll :: "'w os \<Rightarrow> loop_cfg \<Rightarrow> iter_env \<Rightarrow> ProbeResponse \<Rightarrow> loop_state \<Rightarrow> 'w run \<Rightarrow> loop_state \<times> 'w run" where
  "poll ops c it p s r =
     (case read_channel it s of
        (s1, e1) \<Rightarrow>
          (case health_step c (it_graceNow it) (pr_ApplicationHealthState p) s1 of
             (s2, e2) \<Rightarrow>
               (case metrics_step p s2 of
                  ((ms, s3), e3) \<Rightarrow>
                    (s3, wait_step ops c it
                           (report_step c it (health_substatuses (ls_committedState s3) @ ms @ vm_substatuses c s3)
                              (emit (e1 @ e2 @ e3) r))))))"

text \<open>An iteration from the heart beat on, after the check for a newer configuration.\<close>

definition iteration_rest ::
  "'w os \<Rightarrow> loop_cfg \<Rightarrow> iter_env \<Rightarrow> loop_state \<times> 'w run \<Rightarrow> loop_exit option \<times> loop_state \<times> 'w run" where
  "iteration_rest ops c it sr =
     (let (s, r1) = sr in
      case LogHeartBeat (it_beatSince it) (it_beatNow it) (ls_timeOfLastAppHealthLog s) of
        (t, e1) \<Rightarrow>
          (case evaluate (it_probe it) (lc_probe c) of
             ((p, err), e2) \<Rightarrow>
               (let s1 = s\<lparr>ls_timeOfLastAppHealthLog := t\<rparr>; r2 = emit (e1 @ e2 @ ev_probe_error err) r1 in
                if it_shutdown it then (Some Terminated, s1, emit ev_shutting_down r2)
                else (case poll ops c it p s1 r2 of
                        (s2, r3) \<Rightarrow> (if it_shutdownAfter it then Some Terminated else None, s2, r3)))))"

definition iteration ::
  "'w os \<Rightarrow> loop_cfg \<Rightarrow> iter_env \<Rightarrow> loop_state \<times> 'w run \<Rightarrow> loop_exit option \<times> loop_state \<times> 'w run" where
  "iteration ops c it sr =
     (let (s, r0) = sr; r = r0\<lparr>r_fs := it_files it (r_fs r0)\<rparr> in
      case check_superseded c r of
        (True, r1) \<Rightarrow> (Some Superseded, s, r1)
      | (False, r1) \<Rightarrow> iteration_rest ops c it (s, r1))"

fun loop :: "'w os \<Rightarrow> loop_cfg \<Rightarrow> iter_env list \<Rightarrow> loop_state \<times> 'w run \<Rightarrow> loop_exit option \<times> loop_state \<times> 'w run" where
  "loop ops c [] sr = (None, sr)"
| "loop ops c (it # its) sr =
     (case iteration ops c it sr of
        (Some x, sr') \<Rightarrow> (Some x, sr')
      | (None, sr') \<Rightarrow> loop ops c its sr')"

section \<open>The command\<close>

text \<open>What \<open>enable\<close> takes from outside before the loop: the surroundings of the process, the settings
  reader's parameters, the clock reading at which the grace period starts, and \<open>strconv.Quote\<close>.\<close>

record 'w enable_env =
  ee_cmd :: "'w cmd_env"
  ee_settings :: settings_env
  ee_graceStart :: go_time
  ee_quote :: "string \<Rightarrow> string"

definition init_loop_cfg ::
  "'w enable_env \<Rightarrow> HandlerEnvironment \<Rightarrow> uint \<Rightarrow> handlerSettings \<Rightarrow> loop_cfg" where
  "init_loop_cfg env hEnv seqNum cfg =
     \<lparr>lc_probe = fst (NewHealthProbe cfg),
      lc_interval = imul64 (imul64 (intervalInSeconds cfg) millisecond) 1000,
      lc_numberOfProbes = numberOfProbes cfg,
      lc_gracePeriod = imul64 (gracePeriod cfg) second,
      lc_gracePeriodStartTime = ee_graceStart env,
      lc_vmWatch = (vmWatchSettings_of cfg \<noteq> None),
      lc_seqNum = seqNum, lc_cwd = ce_cwd (ee_cmd env), lc_statusFolder = he_StatusFolder hEnv,
      lc_pid = os_getpid (ce_os (ee_cmd env)), lc_quote = ee_quote env\<rparr>"

definition vmWatch_starts :: "handlerSettings \<Rightarrow> bool" where
  "vmWatch_starts cfg \<longleftrightarrow> (case vmWatchSettings_of cfg of None \<Rightarrow> False | Some v \<Rightarrow> vs_Enabled v)"

definition init_loop_state :: "handlerSettings \<Rightarrow> loop_cfg \<Rightarrow> loop_state" where
  "init_loop_state cfg c =
     \<lparr>ls_numConsecutiveProbes = 0, ls_prevState = Empty, ls_committedState = Empty, ls_commitedCustomMetricsState = Empty,
      ls_honorGracePeriod = (lc_gracePeriod c > 0),
      ls_vmWatchResult = \<lparr>vw_Status = (if vmWatch_starts cfg then NotRunning else Disabled), vw_Error = None\<rparr>,
      ls_timeOfLastVMWatchLog = zero_time, ls_timeOfLastAppHealthLog = zero_time\<rparr>"

text \<open>The cohort id: the operation id to set, and the events (\<open>SetOperationID\<close> sends one of its own).\<close>

definition cohort_step :: "handlerSettings \<Rightarrow> string option \<times> event list" where
  "cohort_step cfg =
     (case vmWatchSettings_of cfg of
        None \<Rightarrow> (None, [])
      | Some v \<Rightarrow>
          (case TryGetVMWatchCohortId v of
             Inl e \<Rightarrow> (None, [(ErrorEvent, SetupVMWatchTask, ''Error while getting VMWatchCohortId'')])
           | Inr cid \<Rightarrow>
               if cid \<noteq> [] then (Some cid, [(InfoEvent, MainTask, ''Overriding OperationId with '' @ cid)])
               else (None, [])))"

definition enable_events :: "loop_cfg \<Rightarrow> handlerSettings \<Rightarrow> event list" where
  "enable_events c cfg =
     [app_event InfoEvent ''Successfully parsed and validated settings'',
      app_event VerboseEvent (''HandlerSettings = '' @ JSON (handlerSettings_String cfg))]
     @ snd (NewHealthProbe cfg)
     @ [app_event InfoEvent (if lc_gracePeriod c > 0 then ''Grace period set to '' @ duration_String (lc_gracePeriod c)
                             else ''Grace period not set'')]
     @ snd (cohort_step cfg)
     @ [app_event InfoEvent (''VMWatch settings: '' @ JSON (vmWatchSettings_String (vmWatchSettings_of cfg)))]
     @ (if vmWatch_starts cfg then [] else [watch_event InfoEvent ''VMWatch is disabled, not starting process.''])"

text \<open>\<open>enable\<close> returns an error, or is still polling when the iterations given to it are used up.\<close>

datatype enable_result = Returned go_error | StillPolling loop_state

definition enable ::
  "'w enable_env \<Rightarrow> HandlerEnvironment \<Rightarrow> uint \<Rightarrow> iter_env list \<Rightarrow> 'w run \<Rightarrow> enable_result \<times> 'w run" where
  "enable env hEnv seqNum its r0 =
     (case parseAndValidateSettings (ee_settings env) (he_ConfigFolder hEnv) (r_fs r0) of
        (Inl e, evs) \<Rightarrow> (Returned (Wrap e ''failed to get configuration''), emit evs r0)
      | (Inr cfg, evs) \<Rightarrow>
          (let c = init_loop_cfg env hEnv seqNum cfg in
           case loop (ce_os (ee_cmd env)) c its (init_loop_state cfg c, emit (evs @ enable_events c cfg) r0) of
             (Some x, s, r) \<Rightarrow> (Returned (exit_error x), r)
           | (None, s, r) \<Rightarrow> (StillPolling s, r)))"

section \<open>Facts on the health part\<close>

lemmas health_defs = observe_def grace_def commit_def

lemma health_step_frame:
  assumes "health_step c now st s = (s', evs)"
  shows "ls_vmWatchResult s' = ls_vmWatchResult s" "ls_timeOfLastVMWatchLog s' = ls_timeOfLastVMWatchLog s"
    "ls_commitedCustomMetricsState s' = ls_commitedCustomMetricsState s"
    "ls_timeOfLastAppHealthLog s' = ls_timeOfLastAppHealthLog s"
  using assms by (auto simp: health_step_def health_defs Let_def split: if_splits prod.splits)

text \<open>The invariant of the loop: the counter of equal observations stays below the number needed, and
  the state last observed is one a probe reports.\<close>

definition probe_state :: "HealthStatus \<Rightarrow> bool" where
  "probe_state st \<longleftrightarrow> st \<in> {Healthy, Unhealthy, Unknown}"

definition loop_inv :: "loop_cfg \<Rightarrow> loop_state \<Rightarrow> bool" where
  "loop_inv c s \<longleftrightarrow>
     0 \<le> ls_numConsecutiveProbes s \<and> ls_numConsecutiveProbes s < lc_numberOfProbes c \<and>
     (ls_prevState s = Empty \<longrightarrow> ls_numConsecutiveProbes s = 0 \<and> ls_committedState s = Empty) \<and>
     (ls_committedState s \<in> {Empty, Initializing} \<or> probe_state (ls_committedState s)) \<and>
     (ls_committedState s = Empty \<longrightarrow> ls_prevState s = Empty) \<and>
     (ls_committedState s = Initializing \<longrightarrow> ls_honorGracePeriod s) \<and>
     (ls_honorGracePeriod s \<longrightarrow> ls_committedState s \<in> {Empty, Initializing})"

lemma probe_state_simps [simp]:
  "probe_state Healthy" "probe_state Unhealthy" "probe_state Unknown" "\<not> probe_state Empty" "\<not> probe_state Initializing"
  by (simp_all add: probe_state_def)

lemma probe_state_neq [dest]: "probe_state st \<Longrightarrow> st \<noteq> Empty \<and> st \<noteq> Initializing"
  by auto

lemma after_probe_state [simp]: "probe_state (healthStatusAfterGracePeriodExpires p)"
  using hp.after_grace_state [of p] by (auto simp: probe_state_def)

lemma evaluate_probe_state: "evaluate env p = ((r, e), evs) \<Longrightarrow> probe_state (pr_ApplicationHealthState r)"
  using hp.eval_state by (auto simp: probe_state_def)

text \<open>How the health part changes the state, case by case.\<close>

lemma observe_num:
  assumes "observe st s = (s1, e1)" "0 \<le> ls_numConsecutiveProbes s" "ls_numConsecutiveProbes s < lc_numberOfProbes c"
    "lc_numberOfProbes c < 2 ^ 63"
  shows "ls_numConsecutiveProbes s1 = (if ls_prevState s = st then ls_numConsecutiveProbes s + 1 else 1)"
    "ls_prevState s1 = st" "ls_committedState s1 = ls_committedState s" "ls_honorGracePeriod s1 = ls_honorGracePeriod s"
    "1 \<le> ls_numConsecutiveProbes s1" "ls_numConsecutiveProbes s1 \<le> lc_numberOfProbes c"
  using assms by (auto simp: observe_def iadd64_def in_int64_def split: if_splits)

text \<open>The four variables the health part works on; it depends on nothing else of the state.\<close>

definition view :: "loop_state \<Rightarrow> int \<times> HealthStatus \<times> HealthStatus \<times> bool" where
  "view s = (ls_numConsecutiveProbes s, ls_prevState s, ls_committedState s, ls_honorGracePeriod s)"

lemma view_updates [simp]:
  "view (s\<lparr>ls_vmWatchResult := r\<rparr>) = view s" "view (s\<lparr>ls_timeOfLastVMWatchLog := t\<rparr>) = view s"
  "view (s\<lparr>ls_timeOfLastAppHealthLog := t\<rparr>) = view s" "view (s\<lparr>ls_commitedCustomMetricsState := m\<rparr>) = view s"
  by (simp_all add: view_def)

lemma health_step_view: "view s = view t \<Longrightarrow> view (fst (health_step c now st s)) = view (fst (health_step c now st t))"
  by (simp add: health_step_def health_defs view_def Let_def)

lemma loop_inv_view: "view s = view t \<Longrightarrow> loop_inv c s = loop_inv c t"
  by (simp add: loop_inv_def view_def)

lemma read_channel_view: "read_channel it s = (s', evs) \<Longrightarrow> view s' = view s"
  by (auto simp: read_channel_def split: chan_read.splits if_splits)

lemma metrics_step_view: "metrics_step p s = ((ms, s'), evs) \<Longrightarrow> view s' = view s"
  by (auto simp: metrics_step_def Let_def split: if_splits)

text \<open>What the iteration's probe observes.\<close>

definition observed :: "loop_cfg \<Rightarrow> iter_env \<Rightarrow> HealthStatus" where
  "observed c it = pr_ApplicationHealthState (fst (fst (evaluate (it_probe it) (lc_probe c))))"

lemma observed_probe_state [simp]: "probe_state (observed c it)"
  unfolding observed_def by (metis evaluate_probe_state prod.collapse)

lemma poll_view:
  assumes "poll ops c it p s r = (s', r')"
  shows "view s' = view (fst (health_step c (it_graceNow it) (pr_ApplicationHealthState p) s))"
proof -
  obtain s1 e1 where 1: "read_channel it s = (s1, e1)" by force
  obtain s2 e2 where 2: "health_step c (it_graceNow it) (pr_ApplicationHealthState p) s1 = (s2, e2)" by force
  obtain ms s3 e3 where 3: "metrics_step p s2 = ((ms, s3), e3)" by (metis prod.collapse)
  have "s' = s3" using assms 1 2 3 by (simp add: poll_def)
  then show ?thesis
    using metrics_step_view [OF 3] health_step_view [OF read_channel_view [OF 1], of c "it_graceNow it" "pr_ApplicationHealthState p"] 2
    by simp
qed

text \<open>An iteration leaves early or does the health part once.\<close>

definition polled :: "loop_exit option \<Rightarrow> iter_env \<Rightarrow> bool" where
  "polled x it \<longleftrightarrow> x \<noteq> Some Superseded \<and> \<not> it_shutdown it"

lemma iteration_view:
  assumes "iteration ops c it (s, r) = (x, s', r')"
  shows "view s' = (if polled x it then view (fst (health_step c (it_graceNow it) (observed c it) s)) else view s)"
proof -
  let ?r = "r\<lparr>r_fs := it_files it (r_fs r)\<rparr>"
  obtain b r1 where sup: "check_superseded c ?r = (b, r1)" by force
  obtain t e1 where hb: "LogHeartBeat (it_beatSince it) (it_beatNow it) (ls_timeOfLastAppHealthLog s) = (t, e1)" by force
  obtain p err e2 where ev: "evaluate (it_probe it) (lc_probe c) = ((p, err), e2)" by (metis prod.collapse)
  let ?s = "s\<lparr>ls_timeOfLastAppHealthLog := t\<rparr>" let ?r2 = "emit (e1 @ e2 @ ev_probe_error err) r1"
  obtain s2 r3 where po: "poll ops c it p ?s ?r2 = (s2, r3)" by force
  have "view s2 = view (fst (health_step c (it_graceNow it) (observed c it) s))"
    using poll_view [OF po] health_step_view [of ?s s c "it_graceNow it" "observed c it"] by (simp add: observed_def ev)
  then show ?thesis
    using assms by (auto simp: iteration_def iteration_rest_def Let_def sup hb ev po polled_def split: bool.splits if_splits)
qed

lemma loop_snoc:
  "loop ops c (its @ [it]) sr =
     (case loop ops c its sr of (Some x, sr') \<Rightarrow> (Some x, sr') | (None, sr') \<Rightarrow> iteration ops c it sr')"
  by (induction its arbitrary: sr) (auto split: prod.splits option.splits)

text \<open>When an iteration leaves the loop.\<close>

lemma iteration_exit:
  "fst (iteration ops c it (s, r)) =
     (if fst (check_superseded c (r\<lparr>r_fs := it_files it (r_fs r)\<rparr>)) then Some Superseded
      else if it_shutdown it \<or> it_shutdownAfter it then Some Terminated else None)"
proof -
  let ?r = "r\<lparr>r_fs := it_files it (r_fs r)\<rparr>"
  obtain b r1 where sup: "check_superseded c ?r = (b, r1)" by force
  obtain t e1 where hb: "LogHeartBeat (it_beatSince it) (it_beatNow it) (ls_timeOfLastAppHealthLog s) = (t, e1)" by force
  obtain p err e2 where ev: "evaluate (it_probe it) (lc_probe c) = ((p, err), e2)" by (metis prod.collapse)
  obtain s2 r3 where po: "poll ops c it p (s\<lparr>ls_timeOfLastAppHealthLog := t\<rparr>) (emit (e1 @ e2 @ ev_probe_error err) r1) = (s2, r3)"
    by force
  show ?thesis by (cases b) (simp_all add: iteration_def iteration_rest_def Let_def sup hb ev po)
qed

lemma iteration_completed:
  "iteration ops c it (s, r) = (None, s', r') \<Longrightarrow> polled None it"
  using iteration_exit [of ops c it s r] by (auto simp: polled_def split: if_splits)

text \<open>The health part of a run of iterations.\<close>

definition health_run :: "loop_cfg \<Rightarrow> (go_time \<times> HealthStatus) list \<Rightarrow> loop_state \<Rightarrow> loop_state" where
  "health_run c obs s = foldl (\<lambda>s (now, st). fst (health_step c now st s)) s obs"

lemma health_run_view: "view s = view t \<Longrightarrow> view (health_run c obs s) = view (health_run c obs t)"
proof (induction obs arbitrary: s t)
  case (Cons ob obs)
  obtain now st where "ob = (now, st)" by force
  then show ?case
    using Cons.IH [OF health_step_view [OF Cons.prems, of c now st]] by (simp add: health_run_def)
qed (simp add: health_run_def)

lemma loop_view:
  assumes "loop ops c its (s, r) = (None, s', r')"
  shows "view s' = view (health_run c (map (\<lambda>it. (it_graceNow it, observed c it)) its) s)"
  using assms
proof (induction its arbitrary: s r)
  case (Cons it its)
  obtain y s1 r1 where i: "iteration ops c it (s, r) = (y, s1, r1)" by (metis prod.collapse)
  then have y: "y = None" "loop ops c its (s1, r1) = (None, s', r')" using Cons.prems(1) by (cases y; simp)+
  have v: "view s1 = view (fst (health_step c (it_graceNow it) (observed c it) s))"
    using iteration_view [OF i] iteration_completed [OF i [unfolded y(1)]] y(1) by simp
  show ?case unfolding Cons.IH [OF y(2)] health_run_view [OF v] by (simp add: health_run_def)
qed (simp add: health_run_def)

text \<open>A process that cannot read the sequence number keeps polling until it is told to stop.\<close>

lemma loop_keeps_polling:
  assumes "lc_cwd c = Inl e" "\<forall>it \<in> set its. \<not> it_shutdown it \<and> \<not> it_shutdownAfter it"
  shows "fst (loop ops c its sr) = None"
  using assms(2)
proof (induction its arbitrary: sr)
  case (Cons it its)
  have un: "GetCurrentSequenceNumber (lc_cwd c) w = Inl e \<or> GetCurrentSequenceNumber (lc_cwd c) w = Inr 0" for w
    by (auto simp: assms(1) GetCurrentSequenceNumber_def GetSequenceNumber_def getSequenceNumberInternal_def getMrseqFilePath_def)
  have "\<not> fst (check_superseded c r)" for r :: "'a run"
    using un [of "r_fs r"] by (auto simp: check_superseded_def)
  then have "fst (iteration ops c it sr) = None"
    using Cons.prems iteration_exit [of ops c it "fst sr" "snd sr"] by simp
  then show ?case using Cons by (cases "iteration ops c it sr") auto
qed simp

section \<open>The invariant\<close>

lemma commit_state:
  "commit c st s = (s', e) \<Longrightarrow>
     ls_committedState s' = (if ls_numConsecutiveProbes s = lc_numberOfProbes c \<or> ls_committedState s = Empty then st else ls_committedState s) \<and>
     ls_numConsecutiveProbes s' = (if ls_numConsecutiveProbes s = lc_numberOfProbes c then 0 else ls_numConsecutiveProbes s) \<and>
     ls_prevState s' = ls_prevState s \<and> ls_honorGracePeriod s' = ls_honorGracePeriod s"
  by (auto simp: commit_def split: if_splits)

text \<open>The health part in one equation per case, for an observation of a probe.\<close>

abbreviation (input) after :: "loop_cfg \<Rightarrow> HealthStatus" where
  "after c \<equiv> healthStatusAfterGracePeriodExpires (lc_probe c)"

definition expired :: "loop_cfg \<Rightarrow> go_time \<Rightarrow> bool" where
  "expired c now \<longleftrightarrow> time_Sub now (lc_gracePeriodStartTime c) \<ge> lc_gracePeriod c"

definition counted :: "HealthStatus \<Rightarrow> loop_state \<Rightarrow> int" where
  "counted st s = (if ls_prevState s = st then ls_numConsecutiveProbes s + 1 else 1)"

lemma grace_simps:
  "\<not> ls_honorGracePeriod s \<Longrightarrow> fst (grace c now st s) = (st, s)"
  "ls_honorGracePeriod s \<Longrightarrow> expired c now \<Longrightarrow> fst (grace c now st s) =
     (after c, s\<lparr>ls_honorGracePeriod := False, ls_prevState := after c, ls_numConsecutiveProbes := 1, ls_committedState := Empty\<rparr>)"
  "ls_honorGracePeriod s \<Longrightarrow> \<not> expired c now \<Longrightarrow> ls_numConsecutiveProbes s = lc_numberOfProbes c \<Longrightarrow> st \<noteq> after c \<Longrightarrow>
     fst (grace c now st s) = (st, s\<lparr>ls_honorGracePeriod := False\<rparr>)"
  "ls_honorGracePeriod s \<Longrightarrow> \<not> expired c now \<Longrightarrow> \<not> (ls_numConsecutiveProbes s = lc_numberOfProbes c \<and> st \<noteq> after c) \<Longrightarrow>
     fst (grace c now st s) = (Initializing, s)"
  unfolding grace_def expired_def Let_def by (simp_all only: if_True if_False not_True_eq_False not_False_eq_True fst_conv simp_thms)

definition committed_view :: "loop_cfg \<Rightarrow> HealthStatus \<Rightarrow> loop_state \<Rightarrow> int \<times> HealthStatus \<times> HealthStatus \<times> bool" where
  "committed_view c st s =
     (let full = (ls_numConsecutiveProbes s = lc_numberOfProbes c) in
      (if full then 0 else ls_numConsecutiveProbes s, ls_prevState s,
       if full \<or> ls_committedState s = Empty then st else ls_committedState s, ls_honorGracePeriod s))"

lemma commit_view: "view (fst (commit c st s)) = committed_view c st s"
  using commit_state [of c st s "fst (commit c st s)" "snd (commit c st s)"] by (simp add: view_def committed_view_def Let_def)

lemma health_step_view_eq:
  assumes "observe st s = (s1, e1)" "fst (grace c now st s1) = (st', s2)"
  shows "view (fst (health_step c now st s)) = committed_view c st' s2"
proof -
  obtain e2 where 2: "grace c now st s1 = ((st', s2), e2)" using assms(2) by (metis prod.collapse)
  have "fst (health_step c now st s) = fst (commit c st' s2)"
    by (simp add: health_step_def assms(1) 2 split: prod.split)
  then show ?thesis by (simp add: commit_view)
qed

text \<open>The next view in the four cases: the grace period expires, is over or ends with successful
  probes, or is honoured.\<close>

definition next_view :: "loop_cfg \<Rightarrow> go_time \<Rightarrow> HealthStatus \<Rightarrow> loop_state \<Rightarrow> int \<times> HealthStatus \<times> HealthStatus \<times> bool" where
  "next_view c now st s =
     (let n = counted st s; full = (n = lc_numberOfProbes c); now_full = full \<or> ls_committedState s = Empty in
      if ls_honorGracePeriod s \<and> expired c now then (if lc_numberOfProbes c = 1 then 0 else 1, after c, after c, False)
      else if ls_honorGracePeriod s \<and> \<not> (full \<and> st \<noteq> after c)
      then (if full then 0 else n, st, if now_full then Initializing else ls_committedState s, True)
      else (if full then 0 else n, st, if now_full then st else ls_committedState s, False))"

lemma health_step_next:
  assumes "loop_inv c s" "lc_numberOfProbes c < 2 ^ 63"
  shows "view (fst (health_step c now st s)) = next_view c now st s"
proof -
  obtain s1 e1 where 1: "observe st s = (s1, e1)" by force
  have n: "0 \<le> ls_numConsecutiveProbes s" "ls_numConsecutiveProbes s < lc_numberOfProbes c"
    using assms(1) by (simp_all add: loop_inv_def)
  note ob = observe_num [OF 1 n assms(2)]
  have num: "ls_numConsecutiveProbes s1 = counted st s" using ob(1) by (simp add: counted_def)
  note vals = num ob(2-4)
  note eq = health_step_view_eq [OF 1]
  consider "\<not> ls_honorGracePeriod s" | "ls_honorGracePeriod s" "expired c now"
    | "ls_honorGracePeriod s" "\<not> expired c now" "counted st s = lc_numberOfProbes c" "st \<noteq> after c"
    | "ls_honorGracePeriod s" "\<not> expired c now" "\<not> (counted st s = lc_numberOfProbes c \<and> st \<noteq> after c)"
    by blast
  then show ?thesis
  proof cases
    case 1
    then show ?thesis using eq [OF grace_simps(1)] by (simp add: vals next_view_def committed_view_def Let_def)
  next
    case 2
    then show ?thesis using eq [OF grace_simps(2)] by (simp add: vals next_view_def committed_view_def Let_def)
  next
    case 3
    then show ?thesis using eq [OF grace_simps(3)] by (simp add: vals next_view_def committed_view_def Let_def)
  next
    case 4
    then show ?thesis using eq [OF grace_simps(4)] by (simp add: vals next_view_def committed_view_def Let_def)
  qed
qed

lemma view_fields:
  "view s = (n, p, k, h) \<longleftrightarrow> ls_numConsecutiveProbes s = n \<and> ls_prevState s = p \<and> ls_committedState s = k \<and> ls_honorGracePeriod s = h"
  by (simp add: view_def)

definition inv_view :: "loop_cfg \<Rightarrow> int \<times> HealthStatus \<times> HealthStatus \<times> bool \<Rightarrow> bool" where
  "inv_view c v \<longleftrightarrow>
     (case v of (n, p, k, h) \<Rightarrow>
       0 \<le> n \<and> n < lc_numberOfProbes c \<and> (p = Empty \<longrightarrow> n = 0 \<and> k = Empty) \<and> (k \<in> {Empty, Initializing} \<or> probe_state k) \<and>
       (k = Empty \<longrightarrow> p = Empty) \<and> (k = Initializing \<longrightarrow> h) \<and> (h \<longrightarrow> k \<in> {Empty, Initializing}))"

lemma loop_inv_iff: "loop_inv c s \<longleftrightarrow> inv_view c (view s)"
  by (simp add: loop_inv_def inv_view_def view_def)

lemma counted_bounds:
  "loop_inv c s \<Longrightarrow> 1 \<le> counted st s \<and> counted st s \<le> lc_numberOfProbes c"
  by (auto simp: loop_inv_def counted_def)

lemma after_neq [simp]: "after c \<noteq> Empty" "after c \<noteq> Initializing"
  using hp.after_grace_reportable by blast+

lemma next_view_inv:
  assumes "loop_inv c s" "probe_state st"
  shows "inv_view c (next_view c now st s)"
proof -
  have st: "st \<noteq> Empty" "st \<noteq> Initializing" using assms(2) by auto
  have n: "1 \<le> counted st s" "counted st s \<le> lc_numberOfProbes c" using counted_bounds [OF assms(1)] by blast+
  have k: "ls_committedState s \<in> {Empty, Initializing} \<or> probe_state (ls_committedState s)"
    "ls_committedState s = Initializing \<longrightarrow> ls_honorGracePeriod s" "ls_honorGracePeriod s \<longrightarrow> ls_committedState s \<in> {Empty, Initializing}"
    using assms(1) by (simp_all add: loop_inv_def)
  consider "ls_honorGracePeriod s" "expired c now"
    | "ls_honorGracePeriod s" "\<not> expired c now" "\<not> (counted st s = lc_numberOfProbes c \<and> st \<noteq> after c)"
    | "\<not> ls_honorGracePeriod s"
    | "ls_honorGracePeriod s" "\<not> expired c now" "counted st s = lc_numberOfProbes c" "st \<noteq> after c" by blast
  then show ?thesis
    by cases (use n st k assms(2) in \<open>auto simp: next_view_def Let_def inv_view_def\<close>)
qed

lemma iteration_inv:
  assumes "iteration ops c it (s, r) = (x, s', r')" "loop_inv c s" "lc_numberOfProbes c < 2 ^ 63"
  shows "loop_inv c s'"
  using iteration_view [OF assms(1)] health_step_next [OF assms(2,3)] next_view_inv [OF assms(2) observed_probe_state]
    assms(2) by (simp add: loop_inv_iff split: if_splits)

lemma loop_invI:
  assumes "loop ops c its (s, r) = (x, s', r')" "loop_inv c s" "lc_numberOfProbes c < 2 ^ 63"
  shows "loop_inv c s'"
  using assms(1,2)
proof (induction its arbitrary: s r)
  case (Cons it its)
  obtain y s1 r1 where i: "iteration ops c it (s, r) = (y, s1, r1)" by (metis prod.collapse)
  then show ?case using Cons iteration_inv [OF i Cons.prems(2) assms(3)] by (cases y) auto
qed simp

text \<open>A completed iteration leaves a committed state behind.\<close>

lemma iteration_commits:
  assumes "iteration ops c it (s, r) = (None, s', r')" "loop_inv c s" "lc_numberOfProbes c < 2 ^ 63"
  shows "view s' = next_view c (it_graceNow it) (observed c it) s" "ls_committedState s' \<noteq> Empty"
proof -
  have "\<not> it_shutdown it" using iteration_completed [OF assms(1)] by (simp add: polled_def)
  then show v: "view s' = next_view c (it_graceNow it) (observed c it) s"
    using iteration_view [OF assms(1)] health_step_next [OF assms(2,3)] by (simp add: polled_def)
  have "observed c it \<noteq> Empty" using probe_state_neq [OF observed_probe_state] by blast
  then show "ls_committedState s' \<noteq> Empty"
    using v [unfolded view_def next_view_def Let_def] by (auto split: if_splits)
qed

lemma loop_commits:
  assumes "loop ops c its (s, r) = (None, s', r')" "its \<noteq> []" "loop_inv c s" "lc_numberOfProbes c < 2 ^ 63"
  shows "ls_committedState s' \<noteq> Empty"
proof -
  obtain its' it where its: "its = its' @ [it]" using assms(2) by (cases its rule: rev_cases) auto
  obtain y s1 r1 where l: "loop ops c its' (s, r) = (y, s1, r1)" by (metis prod.collapse)
  have "y = None" "iteration ops c it (s1, r1) = (None, s', r')"
    using assms(1) l by (auto simp: its loop_snoc split: option.splits)
  then show ?thesis using iteration_commits(2) loop_invI [OF l assms(3,4)] assms(4) by blast
qed

section \<open>Accepted settings give a sound loop\<close>

lemma accepted_loop_cfg:
  assumes "parseAndValidateSettings env d w = (Inr cfg, evs)" "num_text_ok (se_num_text env)"
    "c = init_loop_cfg ee hEnv n cfg"
  shows "1 \<le> lc_numberOfProbes c" "lc_numberOfProbes c \<le> 24" "0 < lc_gracePeriod c"
    "5 * second \<le> lc_interval c" "lc_interval c \<le> minute" "loop_inv c (init_loop_state cfg c)"
    "ls_honorGracePeriod (init_loop_state cfg c)"
proof -
  have ok: "public_ok cfg" using unmarshal_accepted_ok assms(1,2) by (metis parseAndValidateSettings_Inr)
  note b = settle_exact [OF ok]
  have pr: "5 * 1 \<le> intervalInSeconds cfg * numberOfProbes cfg" "intervalInSeconds cfg * numberOfProbes cfg \<le> 60 * 24"
    using b by (intro mult_mono; simp)+
  then have g: "0 < gracePeriod cfg" "gracePeriod cfg \<le> 14400" using ok b by (auto simp: gracePeriod_def public_ok_def)
  have "imul64 (intervalInSeconds cfg) millisecond = intervalInSeconds cfg * millisecond"
    using b by (intro imul64_exact) (simp add: in_int64_def millisecond_def)
  then have i: "lc_interval c = intervalInSeconds cfg * second"
    using b imul64_exact [of "intervalInSeconds cfg * millisecond" 1000]
    by (simp add: assms(3) init_loop_cfg_def in_int64_def millisecond_def second_def)
  have "lc_gracePeriod c = gracePeriod cfg * second"
    using g imul64_exact [of "gracePeriod cfg" second] by (simp add: assms(3) init_loop_cfg_def in_int64_def second_def)
  then show gp: "0 < lc_gracePeriod c" using g by (simp add: second_def)
  show n: "1 \<le> lc_numberOfProbes c" "lc_numberOfProbes c \<le> 24" using b by (simp_all add: assms(3) init_loop_cfg_def)
  show "5 * second \<le> lc_interval c" "lc_interval c \<le> minute" using i b by (simp_all add: second_def minute_def)
  show "loop_inv c (init_loop_state cfg c)" using n gp by (simp add: loop_inv_def init_loop_state_def)
  show "ls_honorGracePeriod (init_loop_state cfg c)" using gp by (simp add: init_loop_state_def)
qed

section \<open>Evidence\<close>

text \<open>The observations of the iterations so far, the latest first.\<close>

definition history :: "loop_cfg \<Rightarrow> iter_env list \<Rightarrow> HealthStatus list" where
  "history c its = rev (map (observed c) its)"

text \<open>The counter counts real observations, unless the grace period's end has set the state last
  seen, which then is the committed one.\<close>

definition grounded :: "HealthStatus list \<Rightarrow> loop_state \<Rightarrow> bool" where
  "grounded h s \<longleftrightarrow>
     take (nat (ls_numConsecutiveProbes s)) h = replicate (nat (ls_numConsecutiveProbes s)) (ls_prevState s) \<or>
     ls_prevState s = ls_committedState s \<and> \<not> ls_honorGracePeriod s"

lemma counted_grounded:
  assumes "loop_inv c s" "take (nat (ls_numConsecutiveProbes s)) h = replicate (nat (ls_numConsecutiveProbes s)) (ls_prevState s)"
  shows "take (nat (counted st s)) (st # h) = replicate (nat (counted st s)) st"
proof -
  have "0 \<le> ls_numConsecutiveProbes s" using assms(1) by (simp add: loop_inv_def)
  then show ?thesis using assms(2) by (auto simp: counted_def nat_add_distrib)
qed

lemma counted_fresh: "ls_prevState s \<noteq> st \<Longrightarrow> take (nat (counted st s)) (st # h) = replicate (nat (counted st s)) st"
  by (simp add: counted_def)

lemma grounded_step:
  assumes "loop_inv c s" "grounded h s" "view s' = next_view c now st s"
  shows "grounded (st # h) s'"
proof (cases "ls_honorGracePeriod s \<and> expired c now")
  case True
  then show ?thesis using assms(3) by (simp add: next_view_def Let_def view_fields grounded_def)
next
  case False
  note v = assms(3) [unfolded next_view_def Let_def view_fields]
  have p: "ls_prevState s' = st" "ls_numConsecutiveProbes s' \<in> {0, counted st s}" using v False by (simp_all add: view_fields split: if_splits)
  show ?thesis
  proof (cases "take (nat (counted st s)) (st # h) = replicate (nat (counted st s)) st \<or> ls_numConsecutiveProbes s' = 0")
    case True
    then show ?thesis using p by (auto simp: grounded_def)
  next
    case False
    then have g: "ls_prevState s = ls_committedState s" "\<not> ls_honorGracePeriod s" "ls_prevState s = st"
      using assms(2) counted_grounded [OF assms(1)] counted_fresh unfolding grounded_def by blast+
    then have "ls_committedState s' = st" "\<not> ls_honorGracePeriod s'"
      using assms(3) by (simp_all add: next_view_def Let_def view_fields split: if_splits)
    then show ?thesis using p(1) by (simp add: grounded_def)
  qed
qed

lemma loop_grounded:
  assumes "loop ops c its (s, r) = (None, s', r')" "loop_inv c s" "lc_numberOfProbes c < 2 ^ 63" "grounded h s"
  shows "grounded (history c its @ h) s'"
  using assms(1,2,4)
proof (induction its arbitrary: s r h)
  case (Cons it its)
  obtain y s1 r1 where i: "iteration ops c it (s, r) = (y, s1, r1)" by (metis prod.collapse)
  then have y: "y = None" "loop ops c its (s1, r1) = (None, s', r')" using Cons.prems(1) by (cases y; simp)+
  have "view s1 = next_view c (it_graceNow it) (observed c it) s"
    using iteration_commits(1) [OF _ Cons.prems(2) assms(3)] i y(1) by blast
  then have "grounded (observed c it # h) s1" by (rule grounded_step [OF Cons.prems(2,3)])
  from Cons.IH [OF y(2) iteration_inv [OF i Cons.prems(2) assms(3)] this] show ?case by (simp add: history_def)
qed (simp add: history_def)

lemma change_needs_evidence:
  assumes "loop_inv c s" "grounded h s" "view s' = next_view c now st s" "ls_committedState s' \<noteq> ls_committedState s"
  shows "ls_committedState s = Empty \<or> ls_honorGracePeriod s \<and> expired c now \<and> ls_committedState s' = after c \<or>
    take (nat (lc_numberOfProbes c)) (st # h) = replicate (nat (lc_numberOfProbes c)) (ls_committedState s')"
proof (rule ccontr)
  assume "\<not> ?thesis"
  then have no: "ls_committedState s \<noteq> Empty"
    "\<not> (ls_honorGracePeriod s \<and> expired c now \<and> ls_committedState s' = after c)"
    "take (nat (lc_numberOfProbes c)) (st # h) \<noteq> replicate (nat (lc_numberOfProbes c)) (ls_committedState s')" by blast+
  have e: "\<not> (ls_honorGracePeriod s \<and> expired c now)"
    using no(2) assms(3) by (auto simp: next_view_def Let_def view_fields)
  have init: "ls_honorGracePeriod s \<Longrightarrow> ls_committedState s = Initializing" using assms(1) no(1) by (simp add: loop_inv_def)
  have k: "counted st s = lc_numberOfProbes c" "ls_committedState s' = st"
    using assms(3,4) no(1) e init by (simp_all add: next_view_def Let_def view_fields split: if_splits)
  have "ls_prevState s = ls_committedState s" "\<not> ls_honorGracePeriod s" "ls_prevState s = st"
    using assms(2) no(3) counted_grounded [OF assms(1)] counted_fresh unfolding grounded_def k(1) [symmetric] k(2) by blast+
  then show False using assms(4) k(2) by simp
qed

section \<open>Progress\<close>

text \<open>How many equal observations are still missing.\<close>

definition need :: "loop_cfg \<Rightarrow> HealthStatus \<Rightarrow> loop_state \<Rightarrow> int" where
  "need c b s = (if ls_prevState s = b then lc_numberOfProbes c - ls_numConsecutiveProbes s else lc_numberOfProbes c)"

lemma need_bounds: "loop_inv c s \<Longrightarrow> 1 \<le> need c b s \<and> need c b s \<le> lc_numberOfProbes c"
  by (auto simp: need_def loop_inv_def)

lemma settled_step:
  assumes "loop_inv c s" "\<not> ls_honorGracePeriod s" "view s' = next_view c now b s"
  shows "\<not> ls_honorGracePeriod s'" "ls_committedState s = b \<or> need c b s = 1 \<Longrightarrow> ls_committedState s' = b"
    "ls_committedState s' = b \<or> need c b s' = need c b s - 1"
proof -
  have v: "ls_prevState s' = b" "\<not> ls_honorGracePeriod s'"
    "ls_committedState s' = (if counted b s = lc_numberOfProbes c \<or> ls_committedState s = Empty then b else ls_committedState s)"
    "ls_numConsecutiveProbes s' = (if counted b s = lc_numberOfProbes c then 0 else counted b s)"
    using assms(2,3) by (simp_all add: next_view_def Let_def view_fields)
  show "\<not> ls_honorGracePeriod s'" by (rule v(2))
  have c: "counted b s = lc_numberOfProbes c - need c b s + 1" by (simp add: counted_def need_def)
  show "ls_committedState s' = b" if "ls_committedState s = b \<or> need c b s = 1" using that v(3) c by auto
  show "ls_committedState s' = b \<or> need c b s' = need c b s - 1"
    using v c by (auto simp: need_def)
qed

lemma honored_step:
  assumes "loop_inv c s" "ls_honorGracePeriod s" "b \<noteq> after c" "view s' = next_view c now b s"
  shows "ls_honorGracePeriod s' \<and> need c b s' = need c b s - 1 \<or> \<not> ls_honorGracePeriod s'"
    "need c b s = 1 \<Longrightarrow> \<not> ls_honorGracePeriod s'"
proof -
  have c: "counted b s = lc_numberOfProbes c - need c b s + 1" by (simp add: counted_def need_def)
  have over: "\<not> ls_honorGracePeriod s'" if "expired c now \<or> counted b s = lc_numberOfProbes c"
  proof (cases "expired c now")
    case True
    then show ?thesis using assms(2,4) by (simp add: next_view_def view_fields)
  next
    case False
    then show ?thesis using assms(2-4) that by (simp add: next_view_def Let_def view_fields)
  qed
  show "ls_honorGracePeriod s' \<and> need c b s' = need c b s - 1 \<or> \<not> ls_honorGracePeriod s'"
  proof (cases "expired c now \<or> counted b s = lc_numberOfProbes c")
    case True
    then have "\<not> ls_honorGracePeriod s'" by (rule over)
    then show ?thesis by blast
  next
    case False
    then have "ls_prevState s' = b" "ls_numConsecutiveProbes s' = counted b s" "ls_honorGracePeriod s'"
      using assms(2-4) by (simp_all add: next_view_def Let_def view_fields)
    then show ?thesis using c by (simp add: need_def)
  qed
  show "\<not> ls_honorGracePeriod s'" if "need c b s = 1"
    using that c by (intro over) simp
qed

lemma settled_progress:
  assumes "loop ops c its (s, r) = (None, s', r')" "loop_inv c s" "lc_numberOfProbes c < 2 ^ 63" "\<not> ls_honorGracePeriod s"
    "\<forall>it \<in> set its. observed c it = b" "ls_committedState s = b \<or> need c b s \<le> int (length its)"
  shows "ls_committedState s' = b"
  using assms(1,2,4-6)
proof (induction its arbitrary: s r)
  case Nil
  then show ?case using need_bounds [of c s b] by auto
next
  case (Cons it its)
  obtain y s1 r1 where i: "iteration ops c it (s, r) = (y, s1, r1)" by (metis prod.collapse)
  then have y: "y = None" "loop ops c its (s1, r1) = (None, s', r')" using Cons.prems(1) by (cases y; simp)+
  have v: "view s1 = next_view c (it_graceNow it) b s"
    using iteration_commits(1) [OF i [unfolded y(1)] Cons.prems(2) assms(3)] Cons.prems(4) by simp
  note st = settled_step [OF Cons.prems(2,3) v]
  have "ls_committedState s1 = b \<or> need c b s1 \<le> int (length its)" using st(2,3) Cons.prems(5) by auto
  then show ?case
    using Cons.IH [OF y(2) iteration_inv [OF i Cons.prems(2) assms(3)] st(1)] Cons.prems(4) by simp
qed

lemma honored_progress:
  assumes "loop ops c its (s, r) = (None, s', r')" "loop_inv c s" "lc_numberOfProbes c < 2 ^ 63" "b \<noteq> after c"
    "\<forall>it \<in> set its. observed c it = b" "ls_honorGracePeriod s" "lc_numberOfProbes c + need c b s \<le> int (length its)"
  shows "ls_committedState s' = b"
  using assms(1,2,5-7)
proof (induction its arbitrary: s r)
  case Nil
  then show ?case using need_bounds [of c s b] by auto
next
  case (Cons it its)
  obtain y s1 r1 where i: "iteration ops c it (s, r) = (y, s1, r1)" by (metis prod.collapse)
  then have y: "y = None" "loop ops c its (s1, r1) = (None, s', r')" using Cons.prems(1) by (cases y; simp)+
  have v: "view s1 = next_view c (it_graceNow it) b s"
    using iteration_commits(1) [OF i [unfolded y(1)] Cons.prems(2) assms(3)] Cons.prems(3) by simp
  note st = honored_step [OF Cons.prems(2,4) assms(4) v]
  have inv: "loop_inv c s1" by (rule iteration_inv [OF i Cons.prems(2) assms(3)])
  show ?case
  proof (cases "ls_honorGracePeriod s1")
    case True
    then show ?thesis using Cons.IH [OF y(2) inv _ True] st(1) Cons.prems(3,5) by simp
  next
    case False
    have "need c b s1 \<le> int (length its)"
      using need_bounds [OF inv, of b] need_bounds [OF Cons.prems(2), of b] Cons.prems(5) by simp
    then show ?thesis using settled_progress [OF y(2) inv assms(3) False] Cons.prems(3) by simp
  qed
qed

section \<open>A sample run\<close>

text \<open>An HTTP application that answers healthy every five seconds; the settings ask for three probes
  and set no grace period, which makes it 15 seconds.\<close>

definition healthy_body :: string where
  "healthy_body = marshal_json (JObj [(''applicationHealthState'', JStr Healthy)])"

definition sample_iter :: "go_time \<Rightarrow> iter_env" where
  "sample_iter t = \<lparr>it_files = id, it_beatSince = t, it_beatNow = t, it_startTime = t,
     it_probe = \<lparr>pe_dial = DialTcp, pe_request = None, pe_exchange = Reply 200 [] (Inr healthy_body)\<rparr>,
     it_shutdown = False, it_channel = NoMsg, it_vmSince = t, it_vmNow = t, it_graceNow = t,
     it_report = \<lparr>re_now = ''2024-01-01T00:00:00Z'', re_rnds = [''12'']\<rparr>, it_endTime = t + second, it_shutdownAfter = False\<rparr>"

definition sample_enable_env :: "proc_table enable_env" where
  "sample_enable_env = \<lparr>ee_cmd = sample_cmd_env\<lparr>ce_cwd := Inl (Errorf ''getwd'')\<rparr>, ee_settings = sample_env,
     ee_graceStart = 0, ee_quote = id\<rparr>"

definition sample_loop_cfg :: loop_cfg where
  "sample_loop_cfg = init_loop_cfg sample_enable_env sample_hEnv 3 sample_result"

definition sample_its :: "nat \<Rightarrow> iter_env list" where
  "sample_its k = map (\<lambda>i. sample_iter (5 * second * int i)) [0..<k]"

lemma sample_parsed: "\<exists>evs. parseAndValidateSettings sample_env ''/c'' sample_fs = (Inr sample_result, evs)"
proof -
  have "fst (parseAndValidateSettings sample_env ''/c'' sample_fs) = Inr sample_result"
    by (simp add: parseAndValidateSettings_def sample_read sample_accepted)
  then show ?thesis by (metis prod.collapse)
qed

lemma sample_num_text: "num_text_ok (se_num_text sample_env)"
  by (simp add: num_text_ok_def sample_env_def)

lemma sample_probe: "lc_probe sample_loop_cfg = HttpHealthProbe False (constructAddress ''http'' 0 ''/health'')"
  by code_simp

lemma sample_observed: "observed sample_loop_cfg (sample_iter t) = Healthy"
proof -
  have "pr_ApplicationHealthState (fst (fst (http_evaluate (it_probe (sample_iter 0))))) = Healthy" by code_simp
  moreover have "it_probe (sample_iter t) = it_probe (sample_iter 0)" by (simp add: sample_iter_def)
  ultimately show ?thesis by (simp add: observed_def sample_probe)
qed

lemma sample_loop:
  "\<exists>s r'. loop ops sample_loop_cfg (sample_its k) sr = (None, s, r')"
proof -
  have "lc_cwd sample_loop_cfg = Inl (Errorf ''getwd'')"
    by (simp add: sample_loop_cfg_def init_loop_cfg_def sample_enable_env_def)
  then have "fst (loop ops sample_loop_cfg (sample_its k) sr) = None"
    by (rule loop_keeps_polling) (auto simp: sample_its_def sample_iter_def)
  then show ?thesis by (metis prod.collapse)
qed

abbreviation (input) sample_start :: "'w run \<Rightarrow> loop_state \<times> 'w run" where
  "sample_start r \<equiv> (init_loop_state sample_result sample_loop_cfg, r)"

lemma sample_view:
  assumes "loop ops sample_loop_cfg (sample_its k) (sample_start r) = (None, s, r')"
  shows "view s = view (health_run sample_loop_cfg (map (\<lambda>i. (5 * second * int i, Healthy)) [0..<k])
    (init_loop_state sample_result sample_loop_cfg))"
  using loop_view [OF assms] by (simp add: sample_its_def comp_def sample_observed) (simp add: sample_iter_def)

lemma sample_views:
  "view (health_run sample_loop_cfg (map (\<lambda>i. (5 * second * int i, Healthy)) [0..<2]) (init_loop_state sample_result sample_loop_cfg))
     = (2, Healthy, Initializing, True)"
  "view (health_run sample_loop_cfg (map (\<lambda>i. (5 * second * int i, Healthy)) [0..<3]) (init_loop_state sample_result sample_loop_cfg))
     = (0, Healthy, Healthy, False)"
  by code_simp+

section \<open>Properties\<close>

text \<open>C9: The invariant of the polling loop, for every accepted configuration and after any number of
  iterations, whether they returned or not: the counter of equal observations is below the number
  of probes; the committed state is empty only before the first completed iteration, is
  \<open>Initializing\<close> only while the grace period is honoured, and is a state of a probe once it is over.\<close>

theorem loop_invariant:
  assumes "parseAndValidateSettings env d w = (Inr cfg, evs)" "num_text_ok (se_num_text env)"
    "c = init_loop_cfg ee hEnv n cfg" "loop ops c its (init_loop_state cfg c, r) = (x, s, r')"
  shows "loop_inv c s \<and> (its \<noteq> [] \<longrightarrow> x = None \<longrightarrow> ls_committedState s \<noteq> Empty)"
proof -
  note ok = accepted_loop_cfg [OF assms(1-3)]
  have "lc_numberOfProbes c < 2 ^ 63" using ok(2) by simp
  then show ?thesis using loop_invI [OF assms(4) ok(6)] loop_commits [OF _ _ ok(6)] assms(4) by blast
qed

theorem loop_invariant_witness:
  "\<exists>s r'. loop (table_os 1) sample_loop_cfg (sample_its 1) (sample_start (table_run two_instances)) = (None, s, r') \<and>
     ls_committedState s \<noteq> Empty"
proof -
  obtain evs where p: "parseAndValidateSettings sample_env ''/c'' sample_fs = (Inr sample_result, evs)"
    using sample_parsed by blast
  obtain s r' where l: "loop (table_os 1) sample_loop_cfg (sample_its 1) (sample_start (table_run two_instances)) = (None, s, r')"
    using sample_loop by blast
  show ?thesis using loop_invariant [OF p sample_num_text sample_loop_cfg_def l] l by (auto simp: sample_its_def)
qed

text \<open>C3: The committed state, which is what the status file shows, never changes without evidence.  If an
  iteration changes it, then it was the first one, or the grace period expired in this iteration
  and the state is the one the probe prescribes for that, or the last \<open>numberOfProbes\<close> observations,
  this one included, all were the new state.\<close>

theorem committed_needs_evidence:
  assumes "parseAndValidateSettings env d w = (Inr cfg, evs)" "num_text_ok (se_num_text env)"
    "c = init_loop_cfg ee hEnv n cfg" "loop ops c its (init_loop_state cfg c, r) = (None, s, r')"
    "iteration ops c it (s, r') = (x, s', r'')" "ls_committedState s' \<noteq> ls_committedState s"
  shows "its = [] \<or>
    ls_honorGracePeriod s \<and> expired c (it_graceNow it) \<and> ls_committedState s' = healthStatusAfterGracePeriodExpires (lc_probe c) \<or>
    take (nat (lc_numberOfProbes c)) (history c (its @ [it])) = replicate (nat (lc_numberOfProbes c)) (ls_committedState s')"
proof -
  note ok = accepted_loop_cfg [OF assms(1-3)]
  have N: "lc_numberOfProbes c < 2 ^ 63" using ok(2) by simp
  have inv: "loop_inv c s" by (rule loop_invI [OF assms(4) ok(6) N])
  have "grounded (history c its @ []) s"
    by (rule loop_grounded [OF assms(4) ok(6) N]) (simp add: grounded_def init_loop_state_def)
  moreover have "view s' = next_view c (it_graceNow it) (observed c it) s"
    using iteration_view [OF assms(5)] health_step_next [OF inv N] assms(6) by (auto simp: view_def split: if_splits)
  moreover have "its \<noteq> [] \<longrightarrow> ls_committedState s \<noteq> Empty" using loop_commits [OF assms(4) _ ok(6) N] by blast
  ultimately show ?thesis
    using change_needs_evidence [OF inv _ _ assms(6)] by (fastforce simp: history_def)
qed

theorem committed_needs_evidence_witness:
  "take 3 (history sample_loop_cfg (sample_its 3)) = [Healthy, Healthy, Healthy]"
proof -
  let ?r = "table_run two_instances" let ?it = "sample_iter (5 * second * int 2)"
  obtain evs where p: "parseAndValidateSettings sample_env ''/c'' sample_fs = (Inr sample_result, evs)"
    using sample_parsed by blast
  obtain s r' where l: "loop (table_os 1) sample_loop_cfg (sample_its 2) (sample_start ?r) = (None, s, r')"
    using sample_loop by blast
  obtain s' r'' where l': "loop (table_os 1) sample_loop_cfg (sample_its 3) (sample_start ?r) = (None, s', r'')"
    using sample_loop by blast
  have its: "sample_its 3 = sample_its 2 @ [?it]" by (simp add: sample_its_def upt_rec numeral_eq_Suc)
  then have i: "iteration (table_os 1) sample_loop_cfg ?it (s, r') = (None, s', r'')" using l l' by (simp add: loop_snoc)
  have v: "view s = (2, Healthy, Initializing, True)" "view s' = (0, Healthy, Healthy, False)"
    using sample_view [OF l] sample_view [OF l'] sample_views by simp_all
  then have ch: "ls_committedState s' \<noteq> ls_committedState s" by (simp add: view_fields)
  have "sample_its 2 \<noteq> []" by (simp add: sample_its_def)
  moreover have "\<not> expired sample_loop_cfg (it_graceNow ?it)" by code_simp
  moreover have "lc_numberOfProbes sample_loop_cfg = 3" by code_simp
  ultimately show ?thesis
    using committed_needs_evidence [OF p sample_num_text sample_loop_cfg_def l i ch] v
    unfolding its by (simp add: view_fields) (simp add: numeral_eq_Suc)
qed

text \<open>C10: Progress.  An application that keeps answering with the same state is reported with it: after the
  grace period at the latest with the \<open>numberOfProbes\<close>-th answer, and during the grace period, for a
  state other than the one prescribed at its end, at the latest with the \<open>2 * numberOfProbes\<close>-th, even
  if the grace period expires on the way.\<close>

theorem steady_state_committed:
  assumes "parseAndValidateSettings env d w = (Inr cfg, evs)" "num_text_ok (se_num_text env)"
    "c = init_loop_cfg ee hEnv n cfg" "loop ops c its (init_loop_state cfg c, r) = (None, s, r')"
    "loop ops c its' (s, r') = (None, s', r'')" "\<forall>it \<in> set its'. observed c it = b"
    "if ls_honorGracePeriod s then b \<noteq> healthStatusAfterGracePeriodExpires (lc_probe c) \<and> 2 * lc_numberOfProbes c \<le> int (length its')
     else lc_numberOfProbes c \<le> int (length its')"
  shows "ls_committedState s' = b"
proof -
  note ok = accepted_loop_cfg [OF assms(1-3)]
  have N: "lc_numberOfProbes c < 2 ^ 63" using ok(2) by simp
  have inv: "loop_inv c s" by (rule loop_invI [OF assms(4) ok(6) N])
  note nb = need_bounds [OF inv, of b]
  show ?thesis
  proof (cases "ls_honorGracePeriod s")
    case True
    then show ?thesis using honored_progress [OF assms(5) inv N _ assms(6) True] assms(7) nb by simp
  next
    case False
    then show ?thesis using settled_progress [OF assms(5) inv N False assms(6)] assms(7) nb by simp
  qed
qed

theorem steady_state_committed_witness:
  "\<exists>s r'. loop (table_os 1) sample_loop_cfg (sample_its 6) (sample_start (table_run two_instances)) = (None, s, r') \<and>
     ls_committedState s = Healthy"
proof -
  let ?st = "sample_start (table_run two_instances)"
  obtain evs where p: "parseAndValidateSettings sample_env ''/c'' sample_fs = (Inr sample_result, evs)"
    using sample_parsed by blast
  have l0: "loop (table_os 1) sample_loop_cfg [] ?st = (None, ?st)" by simp
  obtain s r' where l: "loop (table_os 1) sample_loop_cfg (sample_its 6) ?st = (None, s, r')"
    using sample_loop by blast
  have "\<forall>it \<in> set (sample_its 6). observed sample_loop_cfg it = Healthy" by (auto simp: sample_its_def sample_observed)
  moreover have "Healthy \<noteq> healthStatusAfterGracePeriodExpires (lc_probe sample_loop_cfg)" by (simp add: sample_probe)
  moreover have "lc_numberOfProbes sample_loop_cfg = 3" by code_simp
  moreover have "length (sample_its 6) = 6" by (simp add: sample_its_def)
  ultimately show ?thesis
    using steady_state_committed [OF p sample_num_text sample_loop_cfg_def l0 l, of Healthy] l by simp
qed

end
