(* ===== verification/Enable_Report.thy ===== *)
theory Enable_Report
  imports Enable
begin

text \<open>
  What the polling loop of \<open>enable\<close> does to the outside: the status file it leaves, its sleeps, the heart
  beat other instances judge it by, its reaction to a newer configuration, and what it shows of VMWatch.
\<close>

section \<open>The pieces of an iteration\<close>

text \<open>The report of an iteration, with the given substatuses.\<close>

definition enable_report :: "string \<Rightarrow> SubstatusItem list \<Rightarrow> StatusReport" where
  "enable_report now substs =
     [\<lparr>si_Version = ''1'', si_TimestampUTC = now,
       si_Status = \<lparr>st_Operation = ''enable'', st_ConfigurationAppliedTimeUTC = now, st_Status = StatusSuccess,
                    st_FormattedMessage = \<lparr>fm_Lang = ''en'', fm_Message = statusMessage\<rparr>, st_SubstatusList = substs\<rparr>\<rparr>]"

lemma report_built:
  "foldl AddSubstatusItem (NewStatus now StatusSuccess ''enable'' statusMessage) substs = enable_report now substs"
  by (simp add: NewStatus_def foldl_AddSubstatusItem enable_report_def)

text \<open>The status file after the report: the new report, or the old content and an error event.\<close>

definition reported :: "loop_cfg \<Rightarrow> string \<Rightarrow> SubstatusItem list \<Rightarrow> fs \<Rightarrow> 'w run \<Rightarrow> bool" where
  "reported c now substs w r' \<longleftrightarrow>
     folder_lookup (lc_statusFolder c) (lc_seqNum c) (r_fs r') = Some (StatusReport_String (enable_report now substs)) \<or>
     folder_lookup (lc_statusFolder c) (lc_seqNum c) (r_fs r') = folder_lookup (lc_statusFolder c) (lc_seqNum c) w \<and>
       (\<exists>m. (ErrorEvent, ReportStatusTask, m) \<in> set (r_events r'))"

lemma report_step_run:
  assumes "random_suffixes (re_rnds (it_report it))"
  shows "r_actions (report_step c it substs r) = r_actions r"
    "m \<noteq> lc_seqNum c \<Longrightarrow>
       folder_lookup (lc_statusFolder c) m (r_fs (report_step c it substs r)) = folder_lookup (lc_statusFolder c) m (r_fs r)"
    "reported c (re_now (it_report it)) substs (r_fs r) (report_step c it substs r)"
proof -
  let ?rep = "enable_report (re_now (it_report it)) substs"
  obtain e w where sv: "save_status (lc_statusFolder c) (re_rnds (it_report it)) (lc_seqNum c) ?rep (r_fs r) = (e, w)" by force
  note look = save_status_lookup [OF sv assms]
  define evs where "evs = (case e of None \<Rightarrow> [] | Some x \<Rightarrow>
    [(ErrorEvent, ReportStatusTask, ''failed to save handler status: '' @ StatusReport_String ?rep)] @
    ev_report_failed c substs (Wrap x ''failed to save handler status''))"
  have st: "report_step c it substs r = emit evs (r\<lparr>r_fs := w\<rparr>)"
    by (cases e) (simp_all add: report_step_def reportStatusWithSubstatuses_def report_built Let_def sv evs_def)
  show "r_actions (report_step c it substs r) = r_actions r" by (simp add: st)
  show "folder_lookup (lc_statusFolder c) m (r_fs (report_step c it substs r)) = folder_lookup (lc_statusFolder c) m (r_fs r)"
    if "m \<noteq> lc_seqNum c" using that look [of m] by (simp add: st)
  have "e \<noteq> None \<Longrightarrow> (ErrorEvent, ReportStatusTask, ''failed to save handler status: '' @ StatusReport_String ?rep) \<in> set evs"
    by (auto simp: evs_def)
  then show "reported c (re_now (it_report it)) substs (r_fs r) (report_step c it substs r)"
    unfolding reported_def st using look [of "lc_seqNum c"] by (cases "e = None") (simp, simp, blast)
qed

text \<open>An iteration that is not left at once, in one equation.\<close>

definition shown :: "loop_cfg \<Rightarrow> loop_state \<Rightarrow> SubstatusItem list \<Rightarrow> SubstatusItem list" where
  "shown c s ms = health_substatuses (ls_committedState s) @ ms @ vm_substatuses c s"

definition metrics_shown :: "loop_cfg \<Rightarrow> iter_env \<Rightarrow> SubstatusItem list" where
  "metrics_shown c it =
     (let p = fst (fst (evaluate (it_probe it) (lc_probe c))); m = pr_CustomMetrics p in
      if m = Empty then [] else [NewSubstatus SubstatusKeyNameCustomMetrics (metrics_type p) m])"

lemma check_superseded_run:
  "check_superseded c r = (b, r') \<Longrightarrow> r_fs r' = r_fs r \<and> r_actions r' = r_actions r"
  by (auto simp: check_superseded_def split: sum.splits if_splits)

lemma iteration_polled:
  assumes "iteration ops c it (s, r) = (x, s', r')" "polled x it"
  obtains r1 where "r_fs r1 = it_files it (r_fs r)" "r_actions r1 = r_actions r"
    "r' = wait_step ops c it (report_step c it (shown c s' (metrics_shown c it)) r1)"
    "ls_vmWatchResult s' = ls_vmWatchResult (fst (read_channel it s))"
    "ls_timeOfLastAppHealthLog s' = fst (LogHeartBeat (it_beatSince it) (it_beatNow it) (ls_timeOfLastAppHealthLog s))"
proof -
  let ?r = "r\<lparr>r_fs := it_files it (r_fs r)\<rparr>"
  obtain b r1 where sup: "check_superseded c ?r = (b, r1)" by force
  obtain t e1 where hb: "LogHeartBeat (it_beatSince it) (it_beatNow it) (ls_timeOfLastAppHealthLog s) = (t, e1)" by force
  obtain p err e2 where ev: "evaluate (it_probe it) (lc_probe c) = ((p, err), e2)" by (metis prod.collapse)
  let ?s = "s\<lparr>ls_timeOfLastAppHealthLog := t\<rparr>" let ?r2 = "emit (e1 @ e2 @ ev_probe_error err) r1"
  obtain s1 f1 where ch: "read_channel it ?s = (s1, f1)" by force
  obtain s2 f2 where he: "health_step c (it_graceNow it) (pr_ApplicationHealthState p) s1 = (s2, f2)" by force
  obtain ms s3 f3 where me: "metrics_step p s2 = ((ms, s3), f3)" by (metis prod.collapse)
  let ?r3 = "emit (f1 @ f2 @ f3) ?r2"
  have po: "poll ops c it p ?s ?r2 = (s3, wait_step ops c it (report_step c it (shown c s3 ms) ?r3))"
    by (simp add: poll_def ch he me shown_def)
  have b: "b = False" "\<not> it_shutdown it"
    using iteration_exit [of ops c it s r] assms sup by (auto simp: polled_def split: if_splits)
  have s3: "s' = s3" "r' = wait_step ops c it (report_step c it (shown c s3 ms) ?r3)"
    using assms(1) b by (auto simp: iteration_def iteration_rest_def Let_def sup hb ev po)
  have chv: "ls_vmWatchResult s1 = ls_vmWatchResult (fst (read_channel it s))" "ls_timeOfLastAppHealthLog s1 = t"
    using ch by (auto simp: read_channel_def split: chan_read.splits if_splits)
  have mev: "ls_vmWatchResult s3 = ls_vmWatchResult s2" "ls_timeOfLastAppHealthLog s3 = ls_timeOfLastAppHealthLog s2"
    "ms = metrics_shown c it"
    using me by (auto simp: metrics_step_def metrics_shown_def ev Let_def split: if_splits)
  note fr = health_step_frame [OF he]
  show thesis
  proof (rule that)
    show "r_fs ?r3 = it_files it (r_fs r)" "r_actions ?r3 = r_actions r" using check_superseded_run [OF sup] by simp_all
    show "r' = wait_step ops c it (report_step c it (shown c s' (metrics_shown c it)) ?r3)" using s3 mev(3) by simp
    show "ls_vmWatchResult s' = ls_vmWatchResult (fst (read_channel it s))" using s3(1) mev(1) fr(1) chv(1) by simp
    show "ls_timeOfLastAppHealthLog s' = fst (LogHeartBeat (it_beatSince it) (it_beatNow it) (ls_timeOfLastAppHealthLog s))"
      using s3(1) mev(2) fr(4) chv(2) hb by simp
  qed
qed

lemma wait_step_run:
  "r_fs (wait_step ops c it r) = r_fs r" "r_events (wait_step ops c it r) = r_events r"
  "r_actions (wait_step ops c it r) = r_actions r @ (if durationToWait c it > 0 then [ASleep (durationToWait c it)] else [])"
  by (simp_all add: wait_step_def)

section \<open>Properties\<close>


lemma sample_polled: "\<exists>s' r'. iteration ops sample_loop_cfg (sample_iter t) (s, r) = (None, s', r')"
proof -
  have "fst (loop ops sample_loop_cfg [sample_iter t] (s, r)) = None"
    by (rule loop_keeps_polling [of _ "Errorf ''getwd''"])
      (simp_all add: sample_loop_cfg_def init_loop_cfg_def sample_enable_env_def sample_iter_def)
  then show ?thesis by (cases "iteration ops sample_loop_cfg (sample_iter t) (s, r)") (auto split: option.splits)
qed

lemma polled_sample: "polled None (sample_iter t)" "random_suffixes (re_rnds (it_report (sample_iter t)))"
proof -
  have "re_rnds (it_report (sample_iter t)) = [''12'']" by (simp add: sample_iter_def)
  moreover have "random_suffixes [''12'']" by code_simp
  ultimately show "random_suffixes (re_rnds (it_report (sample_iter t)))" by simp
qed (simp add: polled_def sample_iter_def)


text \<open>C23: The only thing an iteration does to the operating system is one sleep, for exactly what its own work
  left of the configured interval, and none if nothing is left.  The interval is at most a minute for
  accepted settings, so with a clock that does not go back no sleep is longer than that.\<close>

theorem sleep_bounded:
  assumes "parseAndValidateSettings env d w = (Inr cfg, evs)" "num_text_ok (se_num_text env)"
    "c = init_loop_cfg ee hEnv n cfg" "iteration ops c it (s, r) = (x, s', r')" "polled x it"
    "random_suffixes (re_rnds (it_report it))" "it_startTime it \<le> it_endTime it" "in_int64 (it_endTime it - it_startTime it)"
  shows "r_actions r' = r_actions r @
      (let d = lc_interval c - (it_endTime it - it_startTime it) in if d > 0 then [ASleep d] else []) \<and>
    lc_interval c \<le> 60 * 10 ^ 9"
proof -
  note ok = accepted_loop_cfg [OF assms(1-3)]
  obtain r1 where r1: "r_actions r1 = r_actions r"
    "r' = wait_step ops c it (report_step c it (shown c s' (metrics_shown c it)) r1)"
    by (rule iteration_polled [OF assms(4,5)]) blast
  have "durationToWait c it = lc_interval c - (it_endTime it - it_startTime it)"
    using assms(7,8) ok(4,5)
    by (simp add: durationToWait_def time_Sub_exact isub64_def in_int64_def minute_def second_def)
  then show ?thesis
    using r1 report_step_run(1) [where c = c and substs = "shown c s' (metrics_shown c it)" and r = r1, OF assms(6)] ok(5)
    by (simp add: wait_step_run minute_def Let_def)
qed

theorem sleep_bounded_witness:
  "\<exists>s' r'. iteration (table_os 1) sample_loop_cfg (sample_iter 0) (sample_start (table_run two_instances)) = (None, s', r') \<and>
     r_actions r' = [ASleep (4 * second)]"
proof -
  obtain evs where p: "parseAndValidateSettings sample_env ''/c'' sample_fs = (Inr sample_result, evs)"
    using sample_parsed by blast
  obtain s' r' where i: "iteration (table_os 1) sample_loop_cfg (sample_iter 0) (sample_start (table_run two_instances)) = (None, s', r')"
    using sample_polled by blast
  have t: "it_startTime (sample_iter 0) = 0" "it_endTime (sample_iter 0) = second" by (simp_all add: sample_iter_def)
  moreover have "lc_interval sample_loop_cfg = 5 * second" by code_simp
  moreover have "r_actions (table_run two_instances) = []" by (simp add: table_run_def)
  ultimately show ?thesis
    using sleep_bounded [OF p sample_num_text sample_loop_cfg_def i polled_sample] i by (simp add: in_int64_def second_def)
qed

lemma LogHeartBeat_recent:
  assumes "since \<le> now"
  shows "since - fst (LogHeartBeat since now lst) < 5 * minute"
proof -
  have five: "imul64 RecordAppHealthHeartBeatIntervalInMinutes minute = 5 * minute"
    by (simp add: RecordAppHealthHeartBeatIntervalInMinutes_def imul64_def wrap64_def minute_def)
  have "since - lst < 5 * minute" if "\<not> time_Sub since lst \<ge> 5 * minute"
    using that time_Sub_less_iff [of "5 * minute" since lst] by (simp add: minute_def)
  moreover have "0 < 5 * minute" by (simp add: minute_def)
  ultimately show ?thesis using assms by (auto simp: LogHeartBeat_def five)
qed

text \<open>C22: A live process is left alone.  If a process polled within the last 59 seconds and its log was
  last written no earlier than its last heart beat (the shim reports the time in whole seconds), then
  another instance started with the same sequence number finds it responsive: it decides to exit and
  signals nobody.  So the heart beat interval of five minutes and the threshold of six fit together.\<close>

theorem live_process_left_alone:
  assumes "iteration ops c it (s, r) = (x, s', r')" "polled x it" "it_beatSince it \<le> it_beatNow it"
    "getLogFileLastWriteTimeFromEnv (ce_logTime env) = Inr t" "ls_timeOfLastAppHealthLog s' - second < t"
    "ce_now env - it_beatSince it \<le> 59 * second" "pids \<noteq> []"
  shows "fst (checkIdempotency env n n pids q) \<and> r_actions (snd (checkIdempotency env n n pids q)) = r_actions q"
proof -
  have lst: "ls_timeOfLastAppHealthLog s' = fst (LogHeartBeat (it_beatSince it) (it_beatNow it) (ls_timeOfLastAppHealthLog s))"
    by (rule iteration_polled [OF assms(1,2)]) blast
  have "it_beatSince it - ls_timeOfLastAppHealthLog s' < 5 * minute"
    unfolding lst by (rule LogHeartBeat_recent [OF assms(3)])
  then have "ce_now env - t < 6 * minute" using assms(5,6) by (simp add: minute_def second_def)
  then have "fst (checkIdempotency env n n pids q)"
    using checkIdempotency_iff [of env n n pids q] assms(4,7) by (auto simp: responsive_def)
  then show ?thesis using checkIdempotency_run [of env n n pids q] by (metis prod.collapse)
qed

theorem live_process_left_alone_witness:
  "fst (checkIdempotency sample_cmd_env 3 3 [7] sample_cmd_run)"
proof -
  let ?t = "time_Unix 1700000000"
  let ?s = "(init_loop_state sample_result sample_loop_cfg)\<lparr>ls_timeOfLastAppHealthLog := ?t\<rparr>"
  obtain s' r' where i: "iteration (table_os 1) sample_loop_cfg (sample_iter (?t + 20 * second)) (?s, table_run two_instances) = (None, s', r')"
    using sample_polled by blast
  have "ls_timeOfLastAppHealthLog s' = fst (LogHeartBeat (it_beatSince (sample_iter (?t + 20 * second)))
      (it_beatNow (sample_iter (?t + 20 * second))) (ls_timeOfLastAppHealthLog ?s))"
    by (rule iteration_polled [OF i polled_sample(1)]) blast
  also have "\<dots> = ?t" by code_simp
  finally have "ls_timeOfLastAppHealthLog s' - second < ?t" by (simp add: second_def)
  moreover have "getLogFileLastWriteTimeFromEnv (ce_logTime sample_cmd_env) = Inr ?t" by code_simp
  moreover have "ce_now sample_cmd_env - it_beatSince (sample_iter (?t + 20 * second)) \<le> 59 * second" by code_simp
  moreover have "it_beatSince (sample_iter (?t + 20 * second)) \<le> it_beatNow (sample_iter (?t + 20 * second))"
    by (simp add: sample_iter_def)
  ultimately show ?thesis
    using live_process_left_alone [OF i polled_sample(1)] by blast
qed

end
