(* ===== verification/Main_Program.thy ===== *)
theory Main_Program
  imports Enable_Report
begin

text \<open>
  The program (\<open>main/main.go\<close>): parsing the command line, the handler environment, telemetry, the
  precondition, the command and the status reports around it, and the exit code.  The signal handler
  goroutine is modelled by what the others read of it (the shutdown flags of the iterations and
  attempts) and by \<open>on_shutdown\<close>, its own actions.
\<close>

section \<open>The command line\<close>

text \<open>The order in which the command table is ranged over, and \<open>strconv.Quote\<close>, are arguments.\<close>

definition printUsage :: "build_info \<Rightarrow> string list \<Rightarrow> string list \<Rightarrow> string" where
  "printUsage b order args =
     ''Usage: '' @ (case args of [] \<Rightarrow> [] | a # _ \<Rightarrow> a) @ '' '' @ Join order ''|'' @ [NL] @ DetailedVersionString b @ [NL]"

text \<open>The command, or what is printed before the process exits with code 2.\<close>

definition parseCmd :: "build_info \<Rightarrow> string list \<Rightarrow> (string \<Rightarrow> string) \<Rightarrow> string list \<Rightarrow> string + cmd" where
  "parseCmd b order q args =
     (case args of
        [a0, op] \<Rightarrow>
          (case map_of cmds op of
             Some c \<Rightarrow> Inr c
           | None \<Rightarrow> Inl (printUsage b order args @ ''Incorrect command: '' @ q op @ [NL]))
      | _ \<Rightarrow> Inl (printUsage b order args @ ''Incorrect usage.'' @ [NL]))"

section \<open>The shutdown signal\<close>

definition on_shutdown :: "(int \<Rightarrow> go_error option) \<Rightarrow> cmd_state option \<Rightarrow> bool \<times> event list \<times> int list" where
  "on_shutdown kill vmWatchCommand =
     (let e0 = kill_event InfoEvent ''Received shutdown request'' in
      case killVMWatch kill vmWatchCommand of
        (e, evs, ks) \<Rightarrow>
          (True,
           e0 # evs @ (case e of None \<Rightarrow> [] | Some x \<Rightarrow> [kill_event ErrorEvent (''Error when killing vmwatch process, error: '' @ Error x)]),
           ks))"

section \<open>The main function\<close>

record 'w main_env =
  me_args :: "string list"
  me_order :: "string list"
  me_build :: build_info
  me_xml :: xml_decoder
  me_exec :: exec_path
  me_seqEnv :: string
  me_glob :: "string list result"
  me_listing :: "dir_entry list result"
  me_uuid :: string
  me_enable :: "'w enable_env"
  me_reportStart :: report_env
  me_reportEnd :: report_env
  me_iters :: "iter_env list"

datatype outcome = Exit int | Polling loop_state

record 'w main_state =
  ms_run :: "'w run"
  ms_telemetry :: telemetry
  ms_stdout :: string

text \<open>A command's result: the message and the error, or that it is still polling.\<close>

definition run_command ::
  "'w main_env \<Rightarrow> cmd_fun \<Rightarrow> HandlerEnvironment \<Rightarrow> uint \<Rightarrow> 'w run \<Rightarrow> (cmd_result + loop_state) \<times> 'w run" where
  "run_command env f hEnv seqNum r =
     (let ops = ce_os (ee_cmd (me_enable env)) in
      case f of
        F_noop \<Rightarrow> (case noop r of (x, r') \<Rightarrow> (Inl x, r'))
      | F_install \<Rightarrow> (case install ops r of (x, r') \<Rightarrow> (Inl x, r'))
      | F_uninstall \<Rightarrow> (case uninstall ops r of (x, r') \<Rightarrow> (Inl x, r'))
      | F_enable \<Rightarrow>
          (case enable (me_enable env) hEnv seqNum (me_iters env) r of
             (Returned e, r') \<Rightarrow> (Inl ([], Some e), r')
           | (StillPolling s, r') \<Rightarrow> (Inr s, r')))"

definition main_report ::
  "report_env \<Rightarrow> HandlerEnvironment \<Rightarrow> uint \<Rightarrow> StatusType \<Rightarrow> cmd \<Rightarrow> string \<Rightarrow> 'w run \<Rightarrow> 'w run" where
  "main_report re hEnv seqNum t c msg r =
     (case reportStatus re (he_StatusFolder hEnv) seqNum t c msg (r_fs r) of
        (e, evs, w) \<Rightarrow> emit evs (r\<lparr>r_fs := w\<rparr>))"

text \<open>From the execution of the command to the exit.\<close>

definition main_execute :: "'w main_env \<Rightarrow> cmd \<Rightarrow> HandlerEnvironment \<Rightarrow> uint \<Rightarrow> 'w run \<Rightarrow> outcome \<times> 'w run" where
  "main_execute env c hEnv seqNum r0 =
     (let r1 = main_report (me_reportStart env) hEnv seqNum StatusTransitioning c [] r0 in
      case run_command env (c_f c) hEnv seqNum r1 of
        (Inr s, r2) \<Rightarrow> (Polling s, r2)
      | (Inl (msg, Some err), r2) \<Rightarrow>
          if errors_Is err errSuperseded then
            (Exit 0, emit [main_event ''Process superseded by newer sequence number, exiting gracefully''] r2)
          else (Exit (c_failExitCode c), main_report (me_reportEnd env) hEnv seqNum StatusError c (Error err @ msg) r2)
      | (Inl (msg, None), r2) \<Rightarrow>
          (Exit 0,
           emit [main_event (''Finished execution of AppHealth Extension '' @ GetExtensionVersion (me_build env) @ '' seqNum=''
                   @ Utoa seqNum @ '' operation='' @ c_name c)]
             (main_report (me_reportEnd env) hEnv seqNum StatusSuccess c msg r2)))"

definition main_start :: "'w main_env \<Rightarrow> cmd \<Rightarrow> HandlerEnvironment \<Rightarrow> uint \<Rightarrow> 'w run \<Rightarrow> 'w run" where
  "main_start env c hEnv seqNum r =
     emit [main_event (''Starting AppHealth Extension '' @ GetExtensionVersion (me_build env) @ '' seqNum='' @ Utoa seqNum
             @ '' operation='' @ c_name c),
           main_event (''HandlerEnviroment = '' @ HandlerEnvironment_String hEnv)] r"

text \<open>What follows the precondition, given its result.\<close>

definition main_after_pre ::
  "'w main_env \<Rightarrow> cmd \<Rightarrow> HandlerEnvironment \<Rightarrow> uint \<Rightarrow> go_error option \<times> 'w run \<Rightarrow> outcome \<times> 'w run" where
  "main_after_pre env c hEnv seqNum res =
     (case res of
        (Some err, r2) \<Rightarrow>
          if errors_Is err errIdempotentExit then
            (Exit 0, emit [main_event ''Idempotent exit: extension already running with current configuration''] r2)
          else (Exit (c_failExitCode c), emit [(ErrorEvent, MainTask, ''pre-check failed'')] r2)
      | (None, r2) \<Rightarrow> main_execute env c hEnv seqNum r2)"

definition main_pre :: "'w main_env \<Rightarrow> cmd \<Rightarrow> HandlerEnvironment \<Rightarrow> uint \<Rightarrow> 'w run \<Rightarrow> outcome \<times> 'w run" where
  "main_pre env c hEnv seqNum r =
     (let r1 = main_start env c hEnv seqNum r in
      if c_pre c then main_after_pre env c hEnv seqNum (enablePre (ee_cmd (me_enable env)) seqNum r1)
      else main_execute env c hEnv seqNum r1)"

text \<open>A failed search for the sequence number is logged and leaves zero.  A panic of the Go run time ends
  the process with code 2.\<close>

definition with_seqNum :: "'w main_env \<Rightarrow> (uint \<Rightarrow> outcome \<times> 'w main_state) \<Rightarrow> 'w main_state \<Rightarrow> outcome \<times> 'w main_state" where
  "with_seqNum env k m =
     (case SeqNumManager_FindSeqNum (me_seqEnv env) (me_glob env) (me_listing env) of
        Inr n \<Rightarrow> k n
      | Inl e \<Rightarrow> if is_panic e then (Exit 2, m) else k 0)"

definition main_program :: "'w main_env \<Rightarrow> 'w main_state \<Rightarrow> outcome \<times> 'w main_state" where
  "main_program env m =
     (case parseCmd (me_build env) (me_order env) (ee_quote (me_enable env)) (me_args env) of
        Inl out \<Rightarrow> (Exit 2, m\<lparr>ms_stdout := ms_stdout m @ out\<rparr>)
      | Inr c \<Rightarrow>
          (case GetHandlerEnviroment (me_xml env) (me_exec env) (r_fs (ms_run m)) of
             Inl e \<Rightarrow> (Exit (if is_panic e then 2 else c_failExitCode c), m)
           | Inr hEnv \<Rightarrow>
               with_seqNum env
                 (\<lambda>seqNum.
                    case NewTelemetry (he_EventsFolder hEnv) (me_uuid env) (ms_telemetry m) of
                      (Inl e, t) \<Rightarrow> (Exit (c_failExitCode c), m\<lparr>ms_telemetry := t\<rparr>)
                    | (Inr i, t) \<Rightarrow>
                        (case main_pre env c hEnv seqNum (ms_run m) of
                           (o', r) \<Rightarrow> (o', m\<lparr>ms_telemetry := t, ms_run := r\<rparr>))) m))"

section \<open>Errors and their roots\<close>

fun root :: "go_error \<Rightarrow> go_error" where
  "root (Wrap e m) = root e"
| "root (ErrorfW m e) = root e"
| "root e = e"

lemma errors_Is_Sentinel: "errors_Is e (Sentinel m) \<longleftrightarrow> root e = Sentinel m"
  by (induction e) auto

fun formatted :: "go_error \<Rightarrow> bool" where
  "formatted (Errorf m) = True"
| "formatted e = False"

lemma ReadSettings_formatted: "ReadSettings env d w = Inl e \<Longrightarrow> formatted e"
  by (auto simp: ReadSettings_def split: sum.splits)

lemma readSettings_root: "readSettings env d w = Inl e \<Longrightarrow> formatted (root e)"
proof -
  assume "readSettings env d w = Inl e"
  then obtain e0 where "ReadSettings env d w = Inl e0" "e = Wrap e0 ''error reading extension configuration''"
    by (auto simp: readSettings_def split: sum.splits)
  then show ?thesis using ReadSettings_formatted [of env d w e0] by (cases e0) auto
qed

lemma validateObjectJSON_formatted: "validateObjectJSON s t = Some e \<Longrightarrow> formatted e"
  by (auto simp: validateObjectJSON_def LoadJSON_def split: sum.splits list.splits option.splits)

lemma validateSettingsSchema_root: "validateSettingsSchema a b = Some e \<Longrightarrow> formatted (root e)"
proof -
  assume v: "validateSettingsSchema a b = Some e"
  then obtain s t m e0 where "validateObjectJSON s t = Some e0" "e = Wrap e0 m"
    by (auto simp: validateSettingsSchema_def toJSON_def validatePublicSettings_def validateProtectedSettings_def
        validateSettingsObject_def split: option.splits)
  then show ?thesis using validateObjectJSON_formatted [of s t e0] by (cases e0) auto
qed

lemma UnmarshalHandlerSettings_formatted: "UnmarshalHandlerSettings a b = Inl e \<Longrightarrow> formatted e"
  by (auto simp: UnmarshalHandlerSettings_def split: sum.splits)

lemma validate_sentinels:
  "validate h = Some e \<Longrightarrow>
     e \<in> {errTcpConfigurationMustIncludePort, errTcpMustNotIncludeRequestPath, errProbeSettleTimeExceedsThreshold}"
  by (auto simp: validate_def split: if_splits)

definition settings_root :: "go_error \<Rightarrow> bool" where
  "settings_root e \<longleftrightarrow> formatted e \<or>
     e \<in> {errTcpConfigurationMustIncludePort, errTcpMustNotIncludeRequestPath, errProbeSettleTimeExceedsThreshold}"

lemma parse_error_root:
  assumes "parseAndValidateSettings env d w = (Inl e, evs)"
  shows "settings_root (root e)"
proof -
  consider "readSettings env d w = Inl e"
    | a b e0 where "validateSettingsSchema a b = Some e0" "root e = root e0"
    | a b e0 where "UnmarshalHandlerSettings a b = Inl e0" "root e = root e0"
    | h e0 where "validate h = Some e0" "root e = root e0"
    using assms by (auto simp: parseAndValidateSettings_def Let_def split: sum.splits option.splits prod.splits)
  then show ?thesis
  proof cases
    case 1
    then show ?thesis using readSettings_root by (auto simp: settings_root_def)
  next
    case 2
    then show ?thesis using validateSettingsSchema_root by (auto simp: settings_root_def)
  next
    case 3
    then have "formatted e0" by (rule_tac UnmarshalHandlerSettings_formatted)
    then show ?thesis using 3(2) by (cases e0) (auto simp: settings_root_def)
  next
    case 4
    then have "root e0 = e0" using validate_sentinels [OF 4(1)]
      by (auto simp: errTcpConfigurationMustIncludePort_def errTcpMustNotIncludeRequestPath_def errProbeSettleTimeExceedsThreshold_def)
    then show ?thesis using 4 validate_sentinels by (auto simp: settings_root_def)
  qed
qed

lemma settings_root_not_exit: "settings_root e \<Longrightarrow> e \<noteq> errSuperseded"
  by (auto simp: settings_root_def errSuperseded_def errTcpConfigurationMustIncludePort_def
      errTcpMustNotIncludeRequestPath_def errProbeSettleTimeExceedsThreshold_def)

section \<open>Leaving the loop for a newer configuration\<close>

definition newer_recorded :: "loop_cfg \<Rightarrow> fs \<Rightarrow> bool" where
  "newer_recorded c w \<longleftrightarrow>
     (case GetCurrentSequenceNumber (lc_cwd c) w of Inl e \<Rightarrow> False | Inr most \<Rightarrow> lc_seqNum c < most)"

lemma check_superseded_iff: "fst (check_superseded c r) \<longleftrightarrow> newer_recorded c (r_fs r)"
  by (simp add: check_superseded_def newer_recorded_def split: sum.splits)

lemma iteration_superseded:
  "fst (iteration ops c it (s, r)) = Some Superseded \<longleftrightarrow> newer_recorded c (it_files it (r_fs r))"
  by (simp add: iteration_exit check_superseded_iff)

lemma iteration_superseded_run:
  assumes "iteration ops c it (s, r) = (Some Superseded, s', r')"
  shows "s' = s \<and> r_fs r' = it_files it (r_fs r) \<and> r_actions r' = r_actions r"
proof -
  let ?r = "r\<lparr>r_fs := it_files it (r_fs r)\<rparr>"
  obtain b r1 where sup: "check_superseded c ?r = (b, r1)" by force
  have "b" using assms iteration_exit [of ops c it s r] sup by (auto split: if_splits)
  then show ?thesis using assms check_superseded_run [OF sup] sup by (auto simp: iteration_def iteration_rest_def Let_def)
qed

lemma loop_superseded:
  assumes "loop ops c its (s, r) = (Some Superseded, s', r')"
  shows "newer_recorded c (r_fs r')"
  using assms
proof (induction its arbitrary: s r)
  case (Cons it its)
  obtain y s1 r1 where i: "iteration ops c it (s, r) = (y, s1, r1)" by (metis prod.collapse)
  show ?case
  proof (cases y)
    case None
    then show ?thesis using Cons i by simp
  next
    case (Some x)
    then have "s1 = s'" "r1 = r'" "x = Superseded" using Cons.prems i by simp_all
    then show ?thesis
      using i Some iteration_superseded_run [of ops c it s r] iteration_superseded [of ops c it s r] by simp
  qed
qed simp

lemma enable_superseded:
  assumes "enable env hEnv n its r = (Returned e, r')" "errors_Is e errSuperseded"
  shows "\<exists>most. GetCurrentSequenceNumber (ce_cwd (ee_cmd env)) (r_fs r') = Inr most \<and> n < most"
proof -
  obtain res evs where p: "parseAndValidateSettings (ee_settings env) (he_ConfigFolder hEnv) (r_fs r) = (res, evs)" by force
  show ?thesis
  proof (cases res)
    case (Inl x)
    then have "e = Wrap x ''failed to get configuration''" using assms(1) p by (simp add: enable_def)
    then have "root x = errSuperseded" using assms(2) by (simp add: errSuperseded_def errors_Is_Sentinel)
    then show ?thesis using settings_root_not_exit [OF parse_error_root [OF p [unfolded Inl]]] by simp
  next
    case (Inr cfg)
    let ?c = "init_loop_cfg env hEnv n cfg"
    let ?r = "emit (evs @ enable_events ?c cfg) r"
    obtain x s r1 where l: "loop (ce_os (ee_cmd env)) ?c its (init_loop_state cfg ?c, ?r) = (x, s, r1)" by (metis prod.collapse)
    then obtain y where y: "x = Some y" "e = exit_error y" "r1 = r'"
      using assms(1) p Inr by (auto simp: enable_def Let_def split: option.splits)
    have "y = Superseded"
      using assms(2) y(2) by (cases y) (simp_all add: exit_error_def errSuperseded_def errTerminated_def errors_Is_Sentinel)
    then have "newer_recorded ?c (r_fs r')" using loop_superseded l y by blast
    moreover have "lc_cwd ?c = ce_cwd (ee_cmd env)" "lc_seqNum ?c = n" by (simp_all add: init_loop_cfg_def)
    ultimately show ?thesis by (auto simp: newer_recorded_def split: sum.splits)
  qed
qed

lemma enable_error_text:
  assumes "enable env hEnv n its r = (Returned e, r')"
  shows "Error e \<noteq> []"
proof -
  have "Error (exit_error x) \<noteq> []" for x
    by (cases x) (simp_all add: exit_error_def errSuperseded_def errTerminated_def)
  then show ?thesis
    using assms by (auto simp: enable_def Let_def split: prod.splits sum.splits option.splits)
qed

section \<open>Reports of the main function\<close>

lemma main_report_run:
  assumes "random_suffixes (re_rnds re)" "c_shouldReportStatus c"
  shows "folder_lookup (he_StatusFolder hEnv) n (r_fs (main_report re hEnv n t c msg r)) =
       Some (StatusReport_String (NewStatus (re_now re) t (c_name c) (statusMsg c t msg))) \<or>
     (\<exists>m. last (r_events (main_report re hEnv n t c msg r)) = (ErrorEvent, ReportStatusTask, m))"
proof -
  let ?rep = "NewStatus (re_now re) t (c_name c) (statusMsg c t msg)"
  obtain e w where sv: "save_status (he_StatusFolder hEnv) (re_rnds re) n ?rep (r_fs r) = (e, w)" by force
  show ?thesis
    using save_status_lookup [OF sv assms(1)] assms(2) sv
    by (cases e) (simp_all add: main_report_def reportStatus_def Let_def)
qed

text \<open>The end of a failed \<open>enable\<close>: the error report, or the event that it could not be saved.\<close>

definition failure_shown :: "'w main_env \<Rightarrow> HandlerEnvironment \<Rightarrow> uint \<Rightarrow> 'w run \<Rightarrow> bool" where
  "failure_shown env hEnv n r' \<longleftrightarrow>
     (\<exists>msg. folder_lookup (he_StatusFolder hEnv) n (r_fs r') =
        Some (StatusReport_String (NewStatus (re_now (me_reportEnd env)) StatusError ''Enable'' (''Enable failed: '' @ msg)))) \<or>
     (\<exists>m. last (r_events r') = (ErrorEvent, ReportStatusTask, m))"

lemma cmdEnable_simps [simp]:
  "c_f cmdEnable = F_enable" "c_failExitCode cmdEnable = 3" "c_name cmdEnable = ''Enable''"
  "c_shouldReportStatus cmdEnable" "c_pre cmdEnable"
  by (simp_all add: cmdEnable_def mk_cmd_def)

lemma main_execute_exit:
  assumes "main_execute env cmdEnable hEnv n r0 = (Exit code, r')" "random_suffixes (re_rnds (me_reportEnd env))"
  shows "code = 0 \<and> (\<exists>most. GetCurrentSequenceNumber (ce_cwd (ee_cmd (me_enable env))) (r_fs r') = Inr most \<and> n < most) \<or>
    code = 3 \<and> failure_shown env hEnv n r'"
proof -
  let ?r1 = "main_report (me_reportStart env) hEnv n StatusTransitioning cmdEnable [] r0"
  obtain er r2 where en: "enable (me_enable env) hEnv n (me_iters env) ?r1 = (er, r2)" by force
  obtain e where e: "er = Returned e"
    using assms(1) en by (cases er) (auto simp: main_execute_def run_command_def Let_def)
  let ?bye = "emit [main_event ''Process superseded by newer sequence number, exiting gracefully''] r2"
  let ?fail = "main_report (me_reportEnd env) hEnv n StatusError cmdEnable (Error e) r2"
  have out: "(Exit code, r') = (if errors_Is e errSuperseded then (Exit 0, ?bye) else (Exit 3, ?fail))"
    using assms(1) en e unfolding main_execute_def run_command_def Let_def by (auto split: if_splits)
  show ?thesis
  proof (cases "errors_Is e errSuperseded")
    case True
    then show ?thesis using out enable_superseded [OF en [unfolded e] True] by simp
  next
    case False
    then have r': "code = 3" "r' = ?fail" using out by simp_all
    have "statusMsg cmdEnable StatusError (Error e) = ''Enable failed: '' @ Error e"
      using enable_error_text [OF en [unfolded e]] by (simp add: statusMsg_def)
    then show ?thesis
      using r' main_report_run [OF assms(2) cmdEnable_simps(4), of hEnv n StatusError "Error e" r2] unfolding failure_shown_def by auto
  qed
qed

section \<open>Failures of the precondition\<close>

lemma Atoi_formatted: "Atoi s = Inl e \<Longrightarrow> formatted e"
  by (auto simp: Atoi_def parse_signed_def num_error_def Let_def split: if_splits)

lemma GetCurrent_error:
  assumes "GetCurrentSequenceNumber cwd w = Inl e"
  shows "cwd = Inl e \<or> formatted e"
  using assms Atoi_formatted
  by (auto simp: GetCurrentSequenceNumber_def GetSequenceNumber_def getSequenceNumberInternal_def getMrseqFilePath_def
      split: sum.splits io_error.splits if_splits)

lemma SetSequenceNumber_error:
  assumes "SetSequenceNumber cwd n w = (Some e, w')"
  shows "cwd = Inl e \<or> formatted e"
  using assms
  by (auto simp: SetSequenceNumber_def setSequenceNumberInternal_def getMrseqFilePath_def split: sum.splits prod.splits option.splits)

lemma formatted_not_exit: "formatted e \<Longrightarrow> \<not> errors_Is e errIdempotentExit"
  by (cases e) (simp_all add: errIdempotentExit_def)

lemma idempotent_exit_only:
  assumes "enablePre env n r = (Some e, r')" "errors_Is e errIdempotentExit"
    "\<forall>x. ce_cwd env = Inl x \<longrightarrow> \<not> errors_Is x errIdempotentExit"
  shows "GetCurrentSequenceNumber (ce_cwd env) (r_fs r) = Inr n \<and> fst (discover env r) \<noteq> [] \<and> responsive env \<and>
    r_fs r' = r_fs r \<and> r_actions r' = r_actions r"
proof -
  have wrapped: "\<not> errors_Is (Wrap x m) errIdempotentExit" if "ce_cwd env = Inl x \<or> formatted x" for x m
    using that assms(3) formatted_not_exit by (auto simp: errIdempotentExit_def)
  obtain mr where mr: "GetCurrentSequenceNumber (ce_cwd env) (r_fs r) = Inr mr"
    using assms(1,2) wrapped GetCurrent_error [of "ce_cwd env" "r_fs r"]
    by (cases "GetCurrentSequenceNumber (ce_cwd env) (r_fs r)") (auto simp: enablePre_def)
  obtain pids r1 where d: "discover env r = (pids, r1)" by force
  obtain b r2 where c: "checkIdempotency env n mr pids r1 = (b, r2)" by force
  note eq = enablePre_eq [OF mr d c] and ref = enablePre_decision [OF assms(1) mr d]
  have "decide n mr (pids \<noteq> []) (responsive env) = LeaveRunning"
  proof (cases "decide n mr (pids \<noteq> []) (responsive env)")
    case RefuseOlder
    then show ?thesis using assms(2) ref by (simp add: err_newer_def errIdempotentExit_def)
  next
    case RunConfig
    then obtain x where "e = Wrap x ''failed to save sequence number''" "fst (SetSequenceNumber (ce_cwd env) n (r_fs r2)) = Some x"
      using assms(1) eq by (auto split: prod.splits option.splits)
    then show ?thesis using wrapped SetSequenceNumber_error [of "ce_cwd env" n "r_fs r2" x] assms(2) by (metis prod.collapse)
  qed
  then show ?thesis using ref d mr by (auto simp: decide_def split: if_splits)
qed

lemma enablePre_failure:
  assumes "enablePre env n r = (Some e, r')" "\<not> errors_Is e errIdempotentExit"
    "GetCurrentSequenceNumber (ce_cwd env) (r_fs r) = Inr mr" "mr \<le> n"
  shows "fst (SetSequenceNumber (ce_cwd env) n (r_fs r)) \<noteq> None"
proof -
  obtain pids r1 where d: "discover env r = (pids, r1)" by force
  show ?thesis
    using enablePre_decision [OF assms(1,3) d] assms(2,4)
    by (cases "decide n mr (pids \<noteq> []) (responsive env)") (auto simp: decide_def split: if_splits)
qed

section \<open>Properties\<close>

text \<open>C4: The exit codes of \<open>enable\<close>, from its start on.  It ends with code 0 in two cases only: the configuration
  is the recorded one and a responsive instance is found, and then it has changed no file and signalled
  nobody; or a newer sequence number is recorded.  Otherwise it ends with code 3: because the
  precondition failed, that is, the recorded number cannot be read or is newer, or its own cannot be
  recorded, and then an error event says so at the end; or because the command failed, and then the
  status file of its number holds the error report, or the last event says that it could not be saved.\<close>

theorem enable_exit_codes:
  assumes "main_pre env cmdEnable hEnv n r = (Exit code, r')" "random_suffixes (re_rnds (me_reportEnd env))"
    "cwd = ce_cwd (ee_cmd (me_enable env))" "\<forall>x. cwd = Inl x \<longrightarrow> \<not> errors_Is x errIdempotentExit"
  shows "code = 0 \<and>
      (GetCurrentSequenceNumber cwd (r_fs r) = Inr n \<and>
         fst (discover (ee_cmd (me_enable env)) (main_start env cmdEnable hEnv n r)) \<noteq> [] \<and>
         responsive (ee_cmd (me_enable env)) \<and> r_fs r' = r_fs r \<and> r_actions r' = r_actions r \<or>
       (\<exists>most. GetCurrentSequenceNumber cwd (r_fs r') = Inr most \<and> n < most)) \<or>
    code = 3 \<and>
      (((\<forall>mr. GetCurrentSequenceNumber cwd (r_fs r) = Inr mr \<longrightarrow> n < mr) \<or> fst (SetSequenceNumber cwd n (r_fs r)) \<noteq> None) \<and>
         last (r_events r') = (ErrorEvent, MainTask, ''pre-check failed'') \<or>
       (\<exists>msg. folder_lookup (he_StatusFolder hEnv) n (r_fs r') =
          Some (StatusReport_String (NewStatus (re_now (me_reportEnd env)) StatusError ''Enable'' (''Enable failed: '' @ msg)))) \<or>
       (\<exists>m. last (r_events r') = (ErrorEvent, ReportStatusTask, m)))"
proof -
  let ?e = "ee_cmd (me_enable env)" let ?r1 = "main_start env cmdEnable hEnv n r"
  have r1: "r_fs ?r1 = r_fs r" "r_actions ?r1 = r_actions r" by (simp_all add: main_start_def)
  obtain e r2 where p: "enablePre ?e n ?r1 = (e, r2)" by force
  then have out: "main_after_pre env cmdEnable hEnv n (e, r2) = (Exit code, r')" using assms(1) by (simp add: main_pre_def Let_def)
  consider "e = None" | x where "e = Some x" "errors_Is x errIdempotentExit" | x where "e = Some x" "\<not> errors_Is x errIdempotentExit"
    by (cases e) auto
  then show ?thesis
  proof cases
    case 1
    then have "main_execute env cmdEnable hEnv n r2 = (Exit code, r')" using out by (simp add: main_after_pre_def)
    then show ?thesis using main_execute_exit [OF _ assms(2)] assms(3) unfolding failure_shown_def by blast
  next
    case 2
    then have "code = 0" "r_fs r' = r_fs r2" "r_actions r' = r_actions r2" using out by (auto simp: main_after_pre_def)
    then show ?thesis using idempotent_exit_only [OF p [unfolded 2(1)] 2(2)] assms(3,4) r1 by simp
  next
    case 3
    then have "code = 3" "last (r_events r') = (ErrorEvent, MainTask, ''pre-check failed'')" using out by (auto simp: main_after_pre_def)
    moreover have "n < mr \<or> fst (SetSequenceNumber cwd n (r_fs r)) \<noteq> None" if "GetCurrentSequenceNumber cwd (r_fs r) = Inr mr" for mr
      using enablePre_failure [OF p [unfolded 3(1)] 3(2)] that assms(3) r1 by (auto simp: not_less [symmetric])
    ultimately show ?thesis by blast
  qed
qed

text \<open>A sample environment: the command \<open>enable\<close> with a configuration folder that cannot be listed.\<close>

definition sample_main_env :: "proc_table main_env" where
  "sample_main_env = \<lparr>me_args = [''ahe'', ''enable''], me_order = map fst cmds, me_build = vh_build sample_host,
     me_xml = vh_xml sample_host, me_exec = vh_exec sample_host, me_seqEnv = ''3'', me_glob = Inr [], me_listing = Inr [], me_uuid = ''id'',
     me_enable = \<lparr>ee_cmd = sample_cmd_env, ee_settings = sample_env\<lparr>se_glob := Inl (Errorf ''no such directory'')\<rparr>,
                  ee_graceStart = 0, ee_quote = id\<rparr>,
     me_reportStart = \<lparr>re_now = ''t0'', re_rnds = [''1'']\<rparr>, me_reportEnd = \<lparr>re_now = ''t1'', re_rnds = [''2'']\<rparr>, me_iters = []\<rparr>"

lemma sample_main_suffixes: "random_suffixes (re_rnds (me_reportEnd sample_main_env))"
  by code_simp

theorem enable_exit_codes_witness:
  "\<exists>r'. main_pre sample_main_env cmdEnable sample_hEnv 4 sample_cmd_run = (Exit 3, r') \<and>
     ((\<exists>msg. folder_lookup ''/status'' 4 (r_fs r') =
        Some (StatusReport_String (NewStatus ''t1'' StatusError ''Enable'' (''Enable failed: '' @ msg)))) \<or>
      (\<exists>m. last (r_events r') = (ErrorEvent, ReportStatusTask, m)))"
proof -
  let ?x = "main_pre sample_main_env cmdEnable sample_hEnv 4 sample_cmd_run"
  have "(case fst ?x of Exit k \<Rightarrow> k = 3 | Polling s \<Rightarrow> False)" by code_simp
  then obtain r' where x: "?x = (Exit 3, r')" by (cases ?x) (auto split: outcome.splits)
  have e: "ee_cmd (me_enable sample_main_env) = sample_cmd_env" by (simp add: sample_main_env_def)
  have "he_StatusFolder sample_hEnv = ''/status''" "re_now (me_reportEnd sample_main_env) = ''t1''"
    "\<forall>y. ce_cwd sample_cmd_env = Inl y \<longrightarrow> \<not> errors_Is y errIdempotentExit"
    by (simp_all add: sample_hEnv_def sample_main_env_def sample_cmd_env_def)
  then show ?thesis
    using enable_exit_codes [OF x sample_main_suffixes refl] x sample_cmd_facts(1,3) unfolding e by simp
qed

text \<open>C40: An interrupted record blocks the extension.  The file that holds the recorded number is truncated
  before it is written.  If a start ends in between, and for as long as the file is as it was left, every
  later \<open>enable\<close>, of whatever number, ends with code 3 and changes no file, so that it does not repair the
  record either; and a process that polls does not leave for a newer configuration.\<close>

theorem interrupted_write_blocks:
  assumes "cwd = ce_cwd (ee_cmd (me_enable env))" "getMrseqFilePath cwd = Inr p" "read_fault (r_fs r) p = None"
    "files (r_fs r) p = files (mrseq_opened cwd w) p"
  shows "fst (main_pre env cmdEnable hEnv n r) = Exit 3 \<and> r_fs (snd (main_pre env cmdEnable hEnv n r)) = r_fs r \<and>
    (lc_cwd c = cwd \<longrightarrow> \<not> fst (check_superseded c r))"
proof -
  have "Atoi [] = Inl (num_error ''Atoi'' [] ''invalid syntax'')" by (simp add: Atoi_def parse_signed_def all_digits_def)
  then obtain e where e: "GetCurrentSequenceNumber cwd (r_fs r) = Inl e" "formatted e"
    using assms(2-4) by (simp add: GetCurrentSequenceNumber_def GetSequenceNumber_def getSequenceNumberInternal_def mrseq_opened_def
        ReadFile_def num_error_def ErrNotFound_def ErrNoMrseqFile_def)
  let ?r1 = "main_start env cmdEnable hEnv n r"
  have r1: "r_fs ?r1 = r_fs r" by (simp add: main_start_def)
  then have p: "enablePre (ee_cmd (me_enable env)) n ?r1 = (Some (Wrap e ''failed to get current sequence number''), ?r1)"
    using e(1) assms(1) by (simp add: enablePre_def)
  have "\<not> errors_Is (Wrap e ''failed to get current sequence number'') errIdempotentExit"
    using formatted_not_exit [OF e(2)] by (simp add: errIdempotentExit_def)
  then have "main_pre env cmdEnable hEnv n r = (Exit 3, emit [(ErrorEvent, MainTask, ''pre-check failed'')] ?r1)"
    by (simp add: main_pre_def main_after_pre_def Let_def p)
  then show ?thesis using r1 e(1) by (simp add: check_superseded_def)
qed

theorem interrupted_write_blocks_witness:
  "fst (main_pre sample_main_env cmdEnable sample_hEnv 4
     (sample_cmd_run\<lparr>r_fs := mrseq_opened (Inr ''/var/ahe'') (r_fs sample_cmd_run)\<rparr>)) = Exit 3"
proof -
  let ?r = "sample_cmd_run\<lparr>r_fs := mrseq_opened (Inr ''/var/ahe'') (r_fs sample_cmd_run)\<rparr>"
  obtain p where p: "getMrseqFilePath (Inr ''/var/ahe'') = Inr p" by (simp add: getMrseqFilePath_def)
  have cwd: "Inr ''/var/ahe'' = ce_cwd (ee_cmd (me_enable sample_main_env))" by (simp add: sample_main_env_def sample_cmd_env_def)
  have "read_fault (r_fs ?r) p = None" by (simp add: mrseq_opened_def p sample_cmd_run_def plain_fs_def)
  then show ?thesis using interrupted_write_blocks [OF cwd p, of ?r "r_fs sample_cmd_run"] by simp
qed

text \<open>C21: Enabling the same configuration again is idempotent: while another instance with the recorded
  sequence number is responsive, a second \<open>enable\<close> ends with code 0, having written no file and
  signalled nobody, so the running instance's status stays as it is.\<close>

theorem enable_idempotent:
  assumes "main_pre env cmdEnable hEnv n r = (o', r')"
    "GetCurrentSequenceNumber (ce_cwd (ee_cmd (me_enable env))) (r_fs r) = Inr n"
    "fst (discover (ee_cmd (me_enable env)) (main_start env cmdEnable hEnv n r)) \<noteq> []" "responsive (ee_cmd (me_enable env))"
  shows "o' = Exit 0 \<and> r_fs r' = r_fs r \<and> r_actions r' = r_actions r"
proof -
  let ?e = "ee_cmd (me_enable env)" let ?r1 = "main_start env cmdEnable hEnv n r"
  obtain pids q where d: "discover ?e ?r1 = (pids, q)" by force
  obtain e r2 where p: "enablePre ?e n ?r1 = (e, r2)" by force
  have r1: "r_fs ?r1 = r_fs r" "r_actions ?r1 = r_actions r" by (simp_all add: main_start_def)
  have "decide n n (pids \<noteq> []) (responsive ?e) = LeaveRunning" using assms(3,4) d by (simp add: decide_def)
  then have l: "e = Some errIdempotentExit" "r_fs r2 = r_fs r" "r_actions r2 = r_actions r"
    using enablePre_decision [OF p _ d, of n] assms(2) r1 by simp_all
  have "c_pre cmdEnable" by (simp add: cmdEnable_def mk_cmd_def)
  then show ?thesis using assms(1) l p by (simp add: main_pre_def main_after_pre_def Let_def) auto
qed

theorem enable_idempotent_witness:
  "fst (main_pre sample_main_env cmdEnable sample_hEnv 3 sample_cmd_run) = Exit 0"
proof -
  have e: "ee_cmd (me_enable sample_main_env) = sample_cmd_env" by (simp add: sample_main_env_def)
  have "fst (checkIdempotency sample_cmd_env 3 3 [7] sample_cmd_run)"
    using sample_cmd_facts(4) by (auto simp: decide_def split: if_splits)
  then have "responsive sample_cmd_env" using checkIdempotency_iff by blast
  moreover have "fst (discover sample_cmd_env (main_start sample_main_env cmdEnable sample_hEnv 3 sample_cmd_run)) \<noteq> []" by code_simp
  ultimately show ?thesis
    using enable_idempotent [of sample_main_env sample_hEnv 3 sample_cmd_run] sample_cmd_facts(1) unfolding e by (metis prod.collapse)
qed

text \<open>C36: A missing handler environment crashes the process.  With a readable manifest and no
  \<open>HandlerEnvironment.json\<close> beside or above the executable, the program does not end with the command's
  failure code but with a nil pointer panic, code 2, whatever the command.\<close>

theorem missing_environment_panics:
  assumes "parseCmd (me_build env) (me_order env) (ee_quote (me_enable env)) (me_args env) = Inr c"
    "GetExtensionManifest (me_xml env) (me_exec env) (r_fs (ms_run m)) = Inr em"
    "GetCurrentProcessWorkingDir (me_exec env) = Inr dir"
    "\<forall>p \<in> {path_Join [dir, handlerEnvFileName], path_Join [dir, ''..'', handlerEnvFileName]}.
       files (r_fs (ms_run m)) p = None \<and> read_fault (r_fs (ms_run m)) p = None"
  shows "main_program env m = (Exit 2, m) \<and> c_failExitCode c \<noteq> 2"
proof -
  have "findAndReadFile (me_exec env) (r_fs (ms_run m)) handlerEnvFileName = Inl platform_ErrNotFound"
    using assms(3,4) by (simp add: findAndReadFile_def ReadFile_def)
  then have "GetHandlerEnviroment (me_xml env) (me_exec env) (r_fs (ms_run m)) =
      Inl (RuntimePanic ''invalid memory address or nil pointer dereference'')"
    by (simp add: GetHandlerEnviroment_def assms(2) GetHandlerEnvironment_def)
  moreover obtain op where "(op, c) \<in> set cmds"
    using assms(1) by (auto simp: parseCmd_def dest: map_of_SomeD split: list.splits option.splits)
  then have "c_failExitCode c \<noteq> 2"
    by (auto simp: cmds_def cmdInstall_def cmdEnable_def cmdUninstall_def mk_cmd_def)
  ultimately show ?thesis using assms(1) by (simp add: main_program_def)
qed

definition manifest_only :: "proc_table main_state" where
  "manifest_only = \<lparr>ms_run = (table_run two_instances)\<lparr>r_fs := plain_fs [(''/ahe/bin/manifest.xml'', ''<x/>'')]\<rparr>,
     ms_telemetry = init_telemetry (plain_fs []), ms_stdout = []\<rparr>"

definition any_manifest :: ExtensionManifest where
  "any_manifest = \<lparr>em_ProviderNameSpace = [], em_Type = [], em_Version = [], em_Label = [], em_HostingResources = [],
     em_MediaLink = [], em_Description = [], em_IsInternalExtension = False, em_IsJsonExtension = False, em_SupportedOS = [],
     em_CompanyName = []\<rparr>"

theorem missing_environment_panics_witness:
  "fst (main_program (sample_main_env\<lparr>me_xml := (\<lambda>_. Inr any_manifest)\<rparr>) manifest_only) = Exit 2"
proof -
  let ?env = "sample_main_env\<lparr>me_xml := (\<lambda>_. Inr any_manifest)\<rparr>"
  have p: "parseCmd (me_build ?env) (me_order ?env) (ee_quote (me_enable ?env)) (me_args ?env) = Inr cmdEnable" by code_simp
  have d: "GetCurrentProcessWorkingDir (me_exec ?env) = Inr ''/ahe/bin''" by code_simp
  have g: "GetExtensionManifest (me_xml ?env) (me_exec ?env) (r_fs (ms_run manifest_only)) = Inr any_manifest" by code_simp
  have "files (r_fs (ms_run manifest_only)) (path_Join [''/ahe/bin'', handlerEnvFileName]) = None"
    "files (r_fs (ms_run manifest_only)) (path_Join [''/ahe/bin'', ''..'', handlerEnvFileName]) = None"
    "read_fault (r_fs (ms_run manifest_only)) p = None" for p
    by (code_simp, code_simp) (simp add: manifest_only_def plain_fs_def)
  then show ?thesis using missing_environment_panics [OF p g d] by simp
qed

end
