(* ===== verification/Coexistence.thy ===== *)
theory Coexistence
  imports Main_Program
begin

text \<open>
  Several processes of the extension on one machine.  Each runs \<open>main\<close> with the command \<open>enable\<close>
  (\<open>main/main.go\<close>, \<open>main/cmds.go\<close>); they share the file system, hence the recorded sequence number and
  the status folder, and the operating system.  A step relation interleaves their steps: reading the
  recorded number, deciding, truncating the file of the recorded number, writing it, terminating the
  processes found, going on to poll, the check at the head of an iteration, the rest of the iteration,
  the end, and kills.  Nothing orders the starts: the shim \<open>misc/applicationhealth-shim\<close> puts \<open>enable\<close>
  into the background and returns, so two of them may overlap.  The locales \<open>invariant_system\<close>, \<open>ratchet\<close> and
  \<open>custody\<close> state the contract that makes the hand-over safe: a number that does not fall below a floor, and
  what that protects.
\<close>

section \<open>The machine\<close>

text \<open>A process that polls is between two iterations, or past the check of one.\<close>

datatype phase = Waiting | Checked

type_synonym proc = "loop_cfg \<times> loop_state \<times> phase"

text \<open>Of a process that starts: how far \<open>enablePre\<close> has got (the recorded number has been read, the start was
  admitted, the file of the recorded number is truncated, written, the processes found are dealt with), the
  number it was given, the recorded number it has read and the processes it has found.\<close>

datatype stage = Reading | Admitted | Writing | Recorded | Replaced

record start_state =
  st_stage :: stage
  st_num :: uint
  st_read :: uint
  st_pids :: "int list"

text \<open>The world is whatever the operating system answers from.\<close>

record 'w machine =
  m_world :: 'w
  m_files :: fs
  m_starting :: "int \<rightharpoonup> start_state"
  m_procs :: "int \<rightharpoonup> proc"

text \<open>A process's view of the machine when it takes a step: what it emitted before is its own affair.\<close>

definition sees :: "'w machine \<Rightarrow> 'w run \<Rightarrow> bool" where
  "sees M r \<longleftrightarrow> r_fs r = m_files M \<and> r_world r = m_world M"

definition put_run :: "'w run \<Rightarrow> 'w machine \<Rightarrow> 'w machine" where
  "put_run r M = M\<lparr>m_world := r_world r, m_files := r_fs r\<rparr>"

definition put_proc :: "int \<Rightarrow> proc option \<Rightarrow> 'w machine \<Rightarrow> 'w machine" where
  "put_proc p x M = M\<lparr>m_procs := (m_procs M)(p := x)\<rparr>"

definition put_start :: "int \<Rightarrow> start_state option \<Rightarrow> 'w machine \<Rightarrow> 'w machine" where
  "put_start p x M = M\<lparr>m_starting := (m_starting M)(p := x)\<rparr>"

lemma put_simps [simp]:
  "m_files (put_run r M) = r_fs r" "m_procs (put_run r M) = m_procs M" "m_starting (put_run r M) = m_starting M"
  "m_files (put_proc p x M) = m_files M" "m_procs (put_proc p x M) = (m_procs M)(p := x)"
  "m_starting (put_proc p x M) = m_starting M"
  "m_files (put_start p y M) = m_files M" "m_procs (put_start p y M) = m_procs M"
  "m_starting (put_start p y M) = (m_starting M)(p := y)"
  "m_world (put_run r M) = r_world r" "m_world (put_proc p x M) = m_world M" "m_world (put_start p y M) = m_world M"
  by (simp_all add: put_run_def put_proc_def put_start_def)

text \<open>SIGKILL ends a process for good, whatever it is doing: the processes a piece of a run sent it to are taken
  off the machine.  SIGTERM only sets the shutdown flag of a process, which ends it in its own time, by a
  step \<open>terminated\<close> or \<open>killed\<close>.\<close>

definition slain :: "'w run \<Rightarrow> 'w run \<Rightarrow> int set" where
  "slain r r' = {q. ASignal q SIGKILL \<in> set (drop (length (r_actions r)) (r_actions r'))}"

definition fell :: "int set \<Rightarrow> 'w machine \<Rightarrow> 'w machine" where
  "fell D M = M\<lparr>m_starting := m_starting M |` (- D), m_procs := m_procs M |` (- D)\<rparr>"

lemma fell_simps [simp]:
  "m_files (fell D M) = m_files M" "m_world (fell D M) = m_world M"
  "m_starting (fell D M) = m_starting M |` (- D)" "m_procs (fell D M) = m_procs M |` (- D)"
  by (simp_all add: fell_def)

text \<open>The surroundings of process \<open>p\<close> when it starts: it runs from the common directory, and has not polled
  yet.\<close>

definition starts_in :: "work_dir \<Rightarrow> int \<Rightarrow> 'w main_env \<Rightarrow> bool" where
  "starts_in cwd p env \<longleftrightarrow> me_iters env = [] \<and> ce_cwd (ee_cmd (me_enable env)) = cwd \<and>
     os_getpid (ce_os (ee_cmd (me_enable env))) = p \<and>
     random_suffixes (re_rnds (me_reportStart env)) \<and> random_suffixes (re_rnds (me_reportEnd env))"

definition polls_with :: "iter_env \<Rightarrow> bool" where
  "polls_with it \<longleftrightarrow> it_files it = id \<and> random_suffixes (re_rnds (it_report it))"

text \<open>What others change on the machine: the settings files and all files of their own, but not the recorded
  number or a status.\<close>

definition outside :: "fs \<Rightarrow> fs \<Rightarrow> bool" where
  "outside w w' \<longleftrightarrow> read_fault w' = read_fault w \<and> write_fault w' = write_fault w \<and>
     (\<forall>q. q \<noteq> [] \<and> last q = CHR ''q'' \<longrightarrow> files w' q = files w q) \<and>
     (\<forall>d m. folder_lookup d m w' = folder_lookup d m w)"

text \<open>
  The steps.  \<open>began\<close>: the precondition reads the recorded number; \<open>refused\<close>: it decides that the process
  ends; \<open>admitted\<close>: it decides to run; \<open>opened\<close>: the file of the recorded number is truncated; \<open>written\<close>: the
  number is written; \<open>unwritten\<close>: it cannot be; \<open>replaced\<close>: the processes of an older configuration are dealt
  with; \<open>started\<close>: \<open>main\<close> and \<open>enable\<close> up to the first iteration; \<open>ended\<close>: they end the process; \<open>checked\<close>: the
  check of an iteration finds no newer number, or cannot read it; \<open>left\<close>: it finds one; \<open>polled\<close>: the rest of
  the iteration; \<open>terminated\<close>: the rest of an iteration that meets the shutdown flag, and the error report of
  \<open>main\<close>; \<open>killed\<close>: the process is gone; \<open>others\<close>: the operating system's state or other files change.
\<close>

inductive step :: "work_dir \<Rightarrow> 'w machine \<Rightarrow> 'w machine \<Rightarrow> bool" for cwd where
  began: "m_starting M p = None \<Longrightarrow> m_procs M p = None \<Longrightarrow> mrseq_representable n \<Longrightarrow>
    GetCurrentSequenceNumber cwd (m_files M) = Inr mr \<Longrightarrow>
    step cwd M (put_start p (Some \<lparr>st_stage = Reading, st_num = n, st_read = mr, st_pids = []\<rparr>) M)"
| refused: "m_starting M p = Some st \<Longrightarrow> st_stage st = Reading \<Longrightarrow> sees M r \<Longrightarrow> starts_in cwd p env \<Longrightarrow>
    enablePre_admit (ee_cmd (me_enable env)) (st_num st) (st_read st) r = (Inl e, r') \<Longrightarrow>
    step cwd M (put_start p None (fell (slain r r') (put_run r' M)))"
| admitted: "m_starting M p = Some st \<Longrightarrow> st_stage st = Reading \<Longrightarrow> sees M r \<Longrightarrow> starts_in cwd p env \<Longrightarrow>
    enablePre_admit (ee_cmd (me_enable env)) (st_num st) (st_read st) r = (Inr pids, r') \<Longrightarrow>
    step cwd M (put_start p (Some (st\<lparr>st_stage := Admitted, st_pids := pids\<rparr>)) (fell (slain r r') (put_run r' M)))"
| opened: "m_starting M p = Some st \<Longrightarrow> st_stage st = Admitted \<Longrightarrow> fst (SetSequenceNumber cwd (st_num st) (m_files M)) = None \<Longrightarrow>
    step cwd M (put_start p (Some (st\<lparr>st_stage := Writing\<rparr>)) (M\<lparr>m_files := mrseq_opened cwd (m_files M)\<rparr>))"
| written: "m_starting M p = Some st \<Longrightarrow> st_stage st = Writing \<Longrightarrow> sees M r \<Longrightarrow> starts_in cwd p env \<Longrightarrow>
    enablePre_record (ee_cmd (me_enable env)) (st_num st) r = (None, r') \<Longrightarrow>
    step cwd M (put_start p (Some (st\<lparr>st_stage := Recorded\<rparr>)) (put_run r' M))"
| unwritten: "m_starting M p = Some st \<Longrightarrow> st_stage st \<in> {Admitted, Writing} \<Longrightarrow> sees M r \<Longrightarrow> starts_in cwd p env \<Longrightarrow>
    enablePre_record (ee_cmd (me_enable env)) (st_num st) r = (Some e, r') \<Longrightarrow>
    step cwd M (put_start p None (put_run r' M))"
| replaced: "m_starting M p = Some st \<Longrightarrow> st_stage st = Recorded \<Longrightarrow> sees M r \<Longrightarrow> starts_in cwd p env \<Longrightarrow>
    enablePre_replace (ee_cmd (me_enable env)) (st_num st) (st_read st) (st_pids st) r = r' \<Longrightarrow>
    step cwd M (put_start p (Some (st\<lparr>st_stage := Replaced\<rparr>)) (fell (slain r r') (put_run r' M)))"
| started: "m_starting M p = Some st \<Longrightarrow> st_stage st = Replaced \<Longrightarrow> sees M r \<Longrightarrow> starts_in cwd p env \<Longrightarrow>
    main_execute env cmdEnable hEnv (st_num st) r = (Polling s, r') \<Longrightarrow>
    parseAndValidateSettings (ee_settings (me_enable env)) (he_ConfigFolder hEnv) (r_fs r') = (Inr cfg, evs) \<Longrightarrow>
    step cwd M
      (put_proc p (Some (init_loop_cfg (me_enable env) hEnv (st_num st) cfg, s, Waiting)) (put_start p None (put_run r' M)))"
| ended: "m_starting M p = Some st \<Longrightarrow> st_stage st = Replaced \<Longrightarrow> sees M r \<Longrightarrow> starts_in cwd p env \<Longrightarrow>
    main_execute env cmdEnable hEnv (st_num st) r = (Exit k, r') \<Longrightarrow> step cwd M (put_start p None (put_run r' M))"
| checked: "m_procs M p = Some (c, s, Waiting) \<Longrightarrow> sees M r \<Longrightarrow> check_superseded c r = (False, r') \<Longrightarrow>
    step cwd M (put_proc p (Some (c, s, Checked)) (put_run r' M))"
| left: "m_procs M p = Some (c, s, Waiting) \<Longrightarrow> sees M r \<Longrightarrow> check_superseded c r = (True, r') \<Longrightarrow>
    step cwd M (put_proc p None (put_run r' M))"
| polled: "m_procs M p = Some (c, s, Checked) \<Longrightarrow> sees M r \<Longrightarrow> polls_with it \<Longrightarrow>
    iteration_rest ops c it (s, r) = (None, s', r') \<Longrightarrow>
    step cwd M (put_proc p (Some (c, s', Waiting)) (put_run r' M))"
| terminated: "m_procs M p = Some (c, s, Checked) \<Longrightarrow> sees M r \<Longrightarrow> polls_with it \<Longrightarrow>
    iteration_rest ops c it (s, r) = (Some Terminated, s', r') \<Longrightarrow> he_StatusFolder hEnv = lc_statusFolder c \<Longrightarrow>
    random_suffixes (re_rnds re) \<Longrightarrow>
    step cwd M
      (put_proc p None (put_run (main_report re hEnv (lc_seqNum c) StatusError cmdEnable (Error errTerminated) r') M))"
| killed: "step cwd M (put_proc p None (put_start p None M))"
| others: "outside (m_files M) w \<Longrightarrow> step cwd M (M\<lparr>m_world := x, m_files := w\<rparr>)"

section \<open>What a report changes\<close>

definition report_frame :: "uint \<Rightarrow> fs \<Rightarrow> fs \<Rightarrow> bool" where
  "report_frame n w w' \<longleftrightarrow>
     read_fault w' = read_fault w \<and> write_fault w' = write_fault w \<and>
     (\<forall>q. q \<noteq> [] \<and> last q = CHR ''q'' \<longrightarrow> files w' q = files w q) \<and>
     (\<forall>d m. m \<noteq> n \<longrightarrow> folder_lookup d m w' = folder_lookup d m w)"

lemma report_frame_refl [simp, intro]: "report_frame n w w"
  by (simp add: report_frame_def)

lemma report_frame_trans [trans]: "report_frame n w w1 \<Longrightarrow> report_frame n w1 w2 \<Longrightarrow> report_frame n w w2"
  by (simp add: report_frame_def)

lemma status_path_number: "status_path d m = status_path e n \<Longrightarrow> m = n"
  by (metis after_last_slash_path_Join plain_status_file status_file_inject status_path_def)

lemma temp_last:
  assumes "TempFile d pat rnds w = (Inr tmp, w1)" "random_suffixes rnds"
  shows "is_digit (last tmp)"
proof -
  obtain r where "r \<in> set rnds" "\<exists>pre. tmp = pre @ r"
    using assms(1) by (auto simp: TempFile_def dest: first_free_suffix split: option.splits)
  moreover then have "all_digits r" using assms(2) by (simp add: random_suffixes_def list_all_iff)
  ultimately show ?thesis by (auto simp: all_digits_def list_all_iff)
qed

lemma save_frame:
  assumes "save_status d rnds n rep w = (e, w')" "random_suffixes rnds"
  shows "report_frame n w w'"
proof -
  obtain ws where s: "Save d n rnds rep w = (e, ws)" and w': "w' = last ws"
    using assms(1) by (auto simp: save_status_def split: prod.splits)
  have digits: "\<not> is_digit (CHR ''q'')" "\<not> is_digit (CHR ''s'')" by (simp_all add: is_digit_def)
  have touched: "w' = w \<or> (\<exists>tmp c. is_digit (last tmp) \<and> (w' = put_file tmp c w \<or> w' = put_file tmp c (put_file tmp [] w) \<or>
      w' = put_file (status_path d n) c (del_file tmp (put_file tmp c (put_file tmp [] w)))))"
    using s w' temp_last [OF _ assms(2)] by (cases rule: Save_cases) (auto, blast+)
  have other: "q \<noteq> tmp" if "is_digit (last tmp)" "last q = CHR ''q'' \<or> last q = CHR ''s''" for q tmp :: string
    using that digits by metis
  have stat: "last (status_path d' m) = CHR ''s''" for d' m by (rule last_status_path)
  have "files w' q = files w q" if "last q = CHR ''q''" for q
    using touched other [of _ q] that stat [of d n] by auto
  moreover have "folder_lookup d' m w' = folder_lookup d' m w" if "m \<noteq> n" for d' m
    using touched other [of _ "status_path d' m"] that stat [of d' m] status_path_number [of d' m d n]
    by (auto simp: folder_lookup_def)
  ultimately show ?thesis using touched by (auto simp: report_frame_def)
qed

lemma main_report_frame:
  assumes "random_suffixes (re_rnds re)"
  shows "report_frame n (r_fs r) (r_fs (main_report re hEnv n t c msg r))"
  using save_frame [OF _ assms]
  by (auto simp: main_report_def reportStatus_def Let_def split: prod.splits option.splits)

lemma report_step_frame:
  assumes "random_suffixes (re_rnds (it_report it))"
  shows "report_frame (lc_seqNum c) (r_fs r) (r_fs (report_step c it substs r))"
  using save_frame [OF _ assms]
  by (auto simp: report_step_def reportStatusWithSubstatuses_def Let_def split: prod.splits option.splits)

lemma iteration_rest_frame:
  assumes "iteration_rest ops c it (s, r) = (x, s', r')" "polls_with it"
  shows "report_frame (lc_seqNum c) (r_fs r) (r_fs r')"
proof -
  have it: "random_suffixes (re_rnds (it_report it))" using assms(2) by (simp add: polls_with_def)
  have "report_frame (lc_seqNum c) (r_fs q) (r_fs (snd (poll ops c it p s0 q)))" for p s0 q
  proof -
    have "report_frame (lc_seqNum c) (r_fs q) (r_fs (report_step c it substs (emit evs q)))" for substs evs
      using report_step_frame [OF it, where r = "emit evs q"] by simp
    then show ?thesis by (simp add: poll_def wait_step_run split: prod.splits)
  qed
  note po = this
  obtain t e1 where hb: "LogHeartBeat (it_beatSince it) (it_beatNow it) (ls_timeOfLastAppHealthLog s) = (t, e1)" by force
  obtain p err e2 where ev: "evaluate (it_probe it) (lc_probe c) = ((p, err), e2)" by (metis prod.collapse)
  let ?s = "s\<lparr>ls_timeOfLastAppHealthLog := t\<rparr>" let ?r = "emit (e1 @ e2 @ ev_probe_error err) r"
  have "r_fs r' = r_fs r \<or> r_fs r' = r_fs (snd (poll ops c it p ?s ?r))"
    using assms(1) by (auto simp: iteration_rest_def hb ev Let_def split: prod.splits if_splits)
  then show ?thesis using po [where q = ?r and p = p and ?s0.0 = ?s] by auto
qed

text \<open>The start of \<open>enable\<close>, before any iteration, writes the reports of \<open>main\<close> only.\<close>

lemma enable_start_fs: "r_fs (snd (enable env hEnv n [] r)) = r_fs r"
  by (simp add: enable_def Let_def split: prod.splits sum.splits)

lemma enable_start_error:
  assumes "enable env hEnv n [] r = (Returned e, r')"
  shows "\<not> errors_Is e errSuperseded"
proof
  assume s: "errors_Is e errSuperseded"
  obtain res evs where p: "parseAndValidateSettings (ee_settings env) (he_ConfigFolder hEnv) (r_fs r) = (res, evs)" by force
  then obtain x where "res = Inl x" "e = Wrap x ''failed to get configuration''"
    using assms by (cases res) (auto simp: enable_def Let_def)
  then show False
    using s settings_root_not_exit [OF parse_error_root] p by (auto simp: errSuperseded_def errors_Is_Sentinel)
qed

lemma main_execute_frame:
  assumes "main_execute env cmdEnable hEnv n r = (o', r')" "starts_in cwd p env"
  shows "report_frame n (r_fs r) (r_fs r')"
proof -
  let ?r1 = "main_report (me_reportStart env) hEnv n StatusTransitioning cmdEnable [] r"
  obtain er r2 where en: "enable (me_enable env) hEnv n [] ?r1 = (er, r2)" by force
  have fs: "r_fs r2 = r_fs ?r1" using enable_start_fs [of "me_enable env" hEnv n ?r1] en by simp
  have st: "me_iters env = []" "random_suffixes (re_rnds (me_reportStart env))" "random_suffixes (re_rnds (me_reportEnd env))"
    using assms(2) by (simp_all add: starts_in_def)
  have "report_frame n (r_fs r) (r_fs r2)" unfolding fs by (rule main_report_frame [OF st(2)])
  moreover have "report_frame n (r_fs r2) (r_fs r')"
    using assms(1) en main_report_frame [OF st(3), of n r2]
    by (auto simp: main_execute_def run_command_def Let_def st(1) split: enable_result.splits if_splits)
  ultimately show ?thesis by (rule report_frame_trans)
qed

section \<open>The recorded number\<close>

definition mrseq_writable :: "work_dir \<Rightarrow> fs \<Rightarrow> bool" where
  "mrseq_writable cwd w \<longleftrightarrow> (case getMrseqFilePath cwd of Inl _ \<Rightarrow> False | Inr p \<Rightarrow> write_fault w p = None)"

text \<open>The file can be read and written, whatever it holds.\<close>

definition usable :: "work_dir \<Rightarrow> fs \<Rightarrow> bool" where
  "usable cwd w \<longleftrightarrow> mrseq_readable cwd w \<and> mrseq_writable cwd w"

definition recorded :: "work_dir \<Rightarrow> uint \<Rightarrow> fs \<Rightarrow> bool" where
  "recorded cwd k w \<longleftrightarrow> GetCurrentSequenceNumber cwd w = Inr k \<and> usable cwd w"

lemma mrseq_path_last: "getMrseqFilePath cwd = Inr p \<Longrightarrow> p \<noteq> [] \<and> last p = CHR ''q''"
proof -
  assume "getMrseqFilePath cwd = Inr p"
  then obtain d where "p = path_Join [d, ''mrseq'']" by (auto simp: getMrseqFilePath_def split: sum.splits)
  then have a: "after_last_slash p = ''mrseq''" by (simp add: plain_name_def)
  then have "p \<noteq> []" by (auto simp: after_last_slash_def)
  then show ?thesis using a last_after_last_slash [of p] by simp
qed

lemma report_frame_record:
  assumes "report_frame n w w'"
  shows "usable cwd w' \<longleftrightarrow> usable cwd w" "GetCurrentSequenceNumber cwd w' = GetCurrentSequenceNumber cwd w"
    "recorded cwd k w' \<longleftrightarrow> recorded cwd k w"
proof -
  show "usable cwd w' \<longleftrightarrow> usable cwd w"
    using assms by (auto simp: usable_def report_frame_def mrseq_readable_def mrseq_writable_def split: sum.splits)
  moreover show "GetCurrentSequenceNumber cwd w' = GetCurrentSequenceNumber cwd w"
  proof (cases "getMrseqFilePath cwd")
    case (Inr p)
    then have "files w' p = files w p" "read_fault w' = read_fault w"
      using assms mrseq_path_last [OF Inr] by (auto simp: report_frame_def)
    then have "ReadFile w' p = ReadFile w p" by (simp add: ReadFile_def split: option.split)
    then show ?thesis by (simp add: GetCurrentSequenceNumber_def GetSequenceNumber_def getSequenceNumberInternal_def Inr)
  qed (simp add: GetCurrentSequenceNumber_def GetSequenceNumber_def getSequenceNumberInternal_def)
  ultimately show "recorded cwd k w' \<longleftrightarrow> recorded cwd k w" by (simp add: recorded_def)
qed

lemma usable_path:
  assumes "usable cwd w"
  shows "\<exists>p. getMrseqFilePath cwd = Inr p \<and> write_fault w p = None \<and> read_fault w p = None \<and> (\<forall>d m. status_path d m \<noteq> p)"
proof -
  obtain p where p: "getMrseqFilePath cwd = Inr p" "write_fault w p = None" "read_fault w p = None"
    using assms by (auto simp: usable_def mrseq_readable_def mrseq_writable_def split: sum.splits)
  have "status_path d m \<noteq> p" for d m
    using mrseq_path_last [OF p(1)] last_status_path [of d m] by auto
  with p show ?thesis by blast
qed

lemma SetSequenceNumber_usable:
  assumes "usable cwd w" "mrseq_representable n" "SetSequenceNumber cwd n w = (e, w')"
  shows "e = None \<and> recorded cwd n w' \<and> (\<forall>d m. folder_lookup d m w' = folder_lookup d m w)"
proof -
  obtain p where p: "getMrseqFilePath cwd = Inr p" "write_fault w p = None" "\<forall>d m. status_path d m \<noteq> p"
    using usable_path [OF assms(1)] by blast
  then have w': "e = None" "w' = put_file p (Utoa n) w"
    using assms(3) by (auto simp: SetSequenceNumber_def setSequenceNumberInternal_def WriteFile_def)
  have "GetCurrentSequenceNumber cwd w' = Inr n"
    using mrseq.get_store [OF _ assms(2)] assms(1,3) w'(1) unfolding usable_def by blast
  then show ?thesis
    using w' p assms(1) by (simp add: recorded_def usable_def mrseq_readable_def mrseq_writable_def folder_lookup_def)
qed

lemma mrseq_opened_usable:
  assumes "usable cwd w"
  shows "usable cwd (mrseq_opened cwd w) \<and> is_err (GetCurrentSequenceNumber cwd (mrseq_opened cwd w)) \<and>
    (\<forall>d m. folder_lookup d m (mrseq_opened cwd w) = folder_lookup d m w)"
proof -
  obtain p where p: "getMrseqFilePath cwd = Inr p" "write_fault w p = None" "read_fault w p = None" "\<forall>d m. status_path d m \<noteq> p"
    using usable_path [OF assms(1)] by blast
  have "Atoi [] = Inl (num_error ''Atoi'' [] ''invalid syntax'')" by (simp add: Atoi_def parse_signed_def all_digits_def)
  with p show ?thesis
    by (simp add: mrseq_opened_def usable_def mrseq_readable_def mrseq_writable_def folder_lookup_def GetCurrentSequenceNumber_def
        GetSequenceNumber_def getSequenceNumberInternal_def ReadFile_def num_error_def ErrNotFound_def ErrNoMrseqFile_def)
qed

text \<open>The parts of the precondition.\<close>

lemma enablePre_admit_run:
  assumes "enablePre_admit env n mr r = (x, r')"
  shows "r_fs r' = r_fs r \<and> (\<forall>pids. x = Inr pids \<longrightarrow> mr \<le> n \<and> os_getpid (ce_os env) \<notin> set pids)"
proof -
  obtain pids r1 where d: "discover env r = (pids, r1)" by force
  obtain b r2 where c: "checkIdempotency env n mr pids r1 = (b, r2)" by force
  show ?thesis
    using assms discover_run [OF d] checkIdempotency_run [OF c]
    by (auto simp: enablePre_admit_def d c not_less split: bool.splits if_splits)
qed

lemma enablePre_record_run:
  assumes "enablePre_record env n r = (x, r')"
  shows "r_fs r' = snd (SetSequenceNumber (ce_cwd env) n (r_fs r)) \<and> (x = None \<longleftrightarrow> fst (SetSequenceNumber (ce_cwd env) n (r_fs r)) = None)"
  using assms by (auto simp: enablePre_record_def split: prod.splits option.splits)

lemma enablePre_replace_fs [simp]: "r_fs (enablePre_replace env n mr pids r) = r_fs r"
  by (simp add: enablePre_replace_def)

section \<open>What a step changes\<close>

text \<open>The invariant: the file of the recorded number is usable, every process uses it, and a start past the
  decision has a number that is not below the one it has read.\<close>

definition machine_inv :: "work_dir \<Rightarrow> 'w machine \<Rightarrow> bool" where
  "machine_inv cwd M \<longleftrightarrow> usable cwd (m_files M) \<and>
     (\<forall>p c s ph. m_procs M p = Some (c, s, ph) \<longrightarrow> lc_cwd c = cwd) \<and>
     (\<forall>p st. m_starting M p = Some st \<longrightarrow>
        mrseq_representable (st_num st) \<and> (st_stage st \<noteq> Reading \<longrightarrow> st_read st \<le> st_num st))"

lemma outside_frame: "outside w w' \<Longrightarrow> report_frame n w w'"
  by (auto simp: outside_def report_frame_def)

lemma terminated_frame:
  assumes "iteration_rest ops c it (s, r) = (x, s', r')" "polls_with it" "random_suffixes (re_rnds re)"
  shows "report_frame (lc_seqNum c) (r_fs r) (r_fs (main_report re hEnv (lc_seqNum c) t cm msg r'))"
  using report_frame_trans [OF iteration_rest_frame [OF assms(1,2)] main_report_frame [OF assms(3)]] .

text \<open>The files: a step truncates or writes the recorded number, or writes reports of a process past its check
  or of a start past its decision, or none of these.\<close>

definition changes_files :: "work_dir \<Rightarrow> 'w machine \<Rightarrow> fs \<Rightarrow> bool" where
  "changes_files cwd M w' \<longleftrightarrow>
     (\<forall>n. report_frame n (m_files M) w') \<or>
     (\<exists>p c s. m_procs M p = Some (c, s, Checked) \<and> report_frame (lc_seqNum c) (m_files M) w') \<or>
     (\<exists>p st. m_starting M p = Some st \<and> st_stage st \<noteq> Reading \<and> report_frame (st_num st) (m_files M) w') \<or>
     w' = mrseq_opened cwd (m_files M) \<or>
     (\<exists>p st. m_starting M p = Some st \<and> st_stage st \<noteq> Reading \<and> w' = snd (SetSequenceNumber cwd (st_num st) (m_files M)))"

lemma changes_files_intros:
  "w' = m_files M \<Longrightarrow> changes_files cwd M w'"
  "m_procs M p = Some (c, s, Checked) \<Longrightarrow> report_frame (lc_seqNum c) (m_files M) w' \<Longrightarrow> changes_files cwd M w'"
  "m_starting M p = Some st \<Longrightarrow> st_stage st \<noteq> Reading \<Longrightarrow> report_frame (st_num st) (m_files M) w' \<Longrightarrow> changes_files cwd M w'"
  unfolding changes_files_def by blast+

lemma changes_files_cases:
  assumes "changes_files cwd M w'"
  obtains (none) "\<And>n. report_frame n (m_files M) w'"
    | (polls) p c s where "m_procs M p = Some (c, s, Checked)" "report_frame (lc_seqNum c) (m_files M) w'"
    | (starts) p st where "m_starting M p = Some st" "st_stage st \<noteq> Reading" "report_frame (st_num st) (m_files M) w'"
    | (opened) "w' = mrseq_opened cwd (m_files M)"
    | (written) p st where "m_starting M p = Some st" "st_stage st \<noteq> Reading"
        "w' = snd (SetSequenceNumber cwd (st_num st) (m_files M))"
  using assms unfolding changes_files_def by blast

lemma changes_record:
  assumes "enablePre_record (ee_cmd (me_enable env)) (st_num st) r = (x, r')" "sees M r" "starts_in cwd p env"
    "m_starting M p = Some st" "st_stage st \<noteq> Reading"
  shows "changes_files cwd M (r_fs r')"
proof -
  have "r_fs r' = snd (SetSequenceNumber cwd (st_num st) (m_files M))"
    using enablePre_record_run [OF assms(1)] assms(2,3) by (simp add: sees_def starts_in_def)
  then show ?thesis using assms(4,5) unfolding changes_files_def by blast
qed

lemma step_files:
  assumes "step cwd M M'"
  shows "changes_files cwd M (m_files M')"
  using assms
proof (cases rule: step.cases)
  case (refused p st r env e r')
  then show ?thesis using enablePre_admit_run [OF refused(6)] by (simp add: changes_files_intros(1) sees_def)
next
  case (admitted p st r env pids r')
  then show ?thesis using enablePre_admit_run [OF admitted(6)] by (simp add: changes_files_intros(1) sees_def)
next
  case (written p st r env r')
  then show ?thesis using changes_record [OF written(6,4,5)] by simp
next
  case (unwritten p st r env e r')
  then show ?thesis using changes_record [OF unwritten(6,4,5)] by auto
next
  case (started p st r env hEnv s r' cfg evs)
  then show ?thesis using changes_files_intros(3) [OF started(2)] main_execute_frame [OF started(6,5)] by (simp add: sees_def)
next
  case (ended p st r env hEnv k r')
  then show ?thesis using changes_files_intros(3) [OF ended(2)] main_execute_frame [OF ended(6,5)] by (simp add: sees_def)
next
  case (checked p c s r r')
  then show ?thesis using check_superseded_run [OF checked(4)] by (simp add: changes_files_intros(1) sees_def)
next
  case (left p c s r r')
  then show ?thesis using check_superseded_run [OF left(4)] by (simp add: changes_files_intros(1) sees_def)
next
  case (polled p c s r it ops s' r')
  then show ?thesis using changes_files_intros(2) [OF polled(2)] iteration_rest_frame [OF polled(5,4)] by (simp add: sees_def)
next
  case (terminated p c s r it ops s' r' hEnv re)
  then show ?thesis using changes_files_intros(2) [OF terminated(2)] terminated_frame [OF terminated(5,4,7)] by (simp add: sees_def)
next
  case (others w x)
  then show ?thesis using outside_frame by (auto simp: changes_files_def)
qed (auto simp: changes_files_def sees_def)

text \<open>The starts: each goes on from where it was, or begins by reading the recorded number.\<close>

lemma step_starts:
  assumes "step cwd M M'" "m_starting M' q = Some st'"
  shows "(\<exists>st. m_starting M q = Some st \<and> st_num st' = st_num st \<and> st_read st' = st_read st \<and>
      (st_stage st = Reading \<and> st_stage st' \<noteq> Reading \<longrightarrow> st_read st \<le> st_num st)) \<or>
    st_stage st' = Reading \<and> mrseq_representable (st_num st') \<and> GetCurrentSequenceNumber cwd (m_files M) = Inr (st_read st')"
  using assms(1)
proof (cases rule: step.cases)
  case (admitted p st r env pids r')
  then show ?thesis
    using assms(2) enablePre_admit_run [OF admitted(6)] by (auto simp: restrict_map_def split: if_splits)
qed (use assms(2) in \<open>auto simp: restrict_map_def split: if_splits\<close>)

lemma step_starts_cases:
  assumes "step cwd M M'" "m_starting M' q = Some st'"
  obtains (goes_on) st where "m_starting M q = Some st" "st_num st' = st_num st" "st_read st' = st_read st"
      "st_stage st = Reading \<and> st_stage st' \<noteq> Reading \<longrightarrow> st_read st \<le> st_num st"
    | (begins) "st_stage st' = Reading" "mrseq_representable (st_num st')" "GetCurrentSequenceNumber cwd (m_files M) = Inr (st_read st')"
  using step_starts [OF assms] by blast

text \<open>The processes: each goes on from where it was, past the check only if that found no newer number, or
  comes from a start.\<close>

lemma step_procs:
  assumes "step cwd M M'" "m_procs M' q = Some (c, s, ph)"
  shows "(\<exists>s0 ph0. m_procs M q = Some (c, s0, ph0) \<and>
      (ph = Checked \<longrightarrow> ph0 = Checked \<or> ph0 = Waiting \<and> s = s0 \<and> \<not> newer_recorded c (m_files M))) \<or>
    (\<exists>st. m_starting M q = Some st \<and> lc_cwd c = cwd \<and> lc_seqNum c = st_num st \<and> ph = Waiting)"
  using assms(1)
proof (cases rule: step.cases)
  case (started p st r env hEnv s' r' cfg evs)
  then show ?thesis
    using assms(2) by (auto simp: init_loop_cfg_def starts_in_def split: if_splits)
next
  case (checked p c' s' r r')
  then have "\<not> newer_recorded c' (m_files M)" using check_superseded_iff [of c' r] by (simp add: sees_def)
  then show ?thesis using checked assms(2) by (auto split: if_splits)
qed (use assms(2) in \<open>auto simp: restrict_map_def split: if_splits\<close>)

lemma step_inv:
  assumes "step cwd M M'" "machine_inv cwd M"
  shows "machine_inv cwd M'"
proof -
  have u: "usable cwd (m_files M)" and n: "m_starting M p = Some st \<Longrightarrow> mrseq_representable (st_num st)" for p st
    using assms(2) by (auto simp: machine_inv_def)
  have "usable cwd (snd (SetSequenceNumber cwd k (m_files M)))" if "mrseq_representable k" for k
    using SetSequenceNumber_usable [OF u that] by (metis prod.collapse recorded_def)
  note set = this
  have "usable cwd (m_files M')"
    using step_files [OF assms(1)]
  proof (cases rule: changes_files_cases)
    case none
    then show ?thesis using u report_frame_record(1) [OF none [of 0]] by simp
  next
    case opened
    then show ?thesis using mrseq_opened_usable [OF u] by simp
  qed (use u n set report_frame_record(1) in auto)
  moreover have "lc_cwd c = cwd" if "m_procs M' p = Some (c, s, ph)" for p c s ph
    using step_procs [OF assms(1) that] assms(2) by (auto simp: machine_inv_def)
  moreover have "mrseq_representable (st_num st) \<and> (st_stage st \<noteq> Reading \<longrightarrow> st_read st \<le> st_num st)"
    if "m_starting M' p = Some st" for p st
    using assms(1) that
  proof (cases rule: step_starts_cases)
    case (goes_on st0)
    moreover from this(1) have "mrseq_representable (st_num st0) \<and> (st_stage st0 \<noteq> Reading \<longrightarrow> st_read st0 \<le> st_num st0)"
      using assms(2) by (simp add: machine_inv_def)
    ultimately show ?thesis by auto
  qed simp
  ultimately show ?thesis unfolding machine_inv_def by blast
qed

section \<open>The floor of the recorded number\<close>

text \<open>No start can record a number below \<open>k\<close> any more: it has a higher one, or will be refused for the number it
  has read.\<close>

definition no_older_start :: "uint \<Rightarrow> 'w machine \<Rightarrow> bool" where
  "no_older_start k M \<longleftrightarrow> (\<forall>p st. m_starting M p = Some st \<longrightarrow> k \<le> st_num st \<or> st_num st < st_read st)"

definition settled :: "work_dir \<Rightarrow> uint \<Rightarrow> 'w machine \<Rightarrow> bool" where
  "settled cwd k M \<longleftrightarrow> GetCurrentSequenceNumber cwd (m_files M) = Inr k \<and> no_older_start k M"

text \<open>The recorded number is not below \<open>k\<close> when it can be read, and will not be.\<close>

definition floor_at :: "work_dir \<Rightarrow> uint \<Rightarrow> 'w machine \<Rightarrow> bool" where
  "floor_at cwd k M \<longleftrightarrow> (\<forall>k'. GetCurrentSequenceNumber cwd (m_files M) = Inr k' \<longrightarrow> k \<le> k') \<and> no_older_start k M"

lemma settled_floor: "settled cwd k M \<Longrightarrow> floor_at cwd k M"
  by (simp add: settled_def floor_at_def)

lemma no_older_started:
  assumes "no_older_start k M" "machine_inv cwd M" "m_starting M p = Some st" "st_stage st \<noteq> Reading"
  shows "k \<le> st_num st" "mrseq_representable (st_num st)"
  using assms unfolding no_older_start_def machine_inv_def by (metis leD)+

lemma step_floor:
  assumes "step cwd M M'" "machine_inv cwd M" "floor_at cwd k M"
  shows "floor_at cwd k M'"
proof -
  have u: "usable cwd (m_files M)" using assms(2) by (simp add: machine_inv_def)
  have fl: "no_older_start k M" "\<And>k'. GetCurrentSequenceNumber cwd (m_files M) = Inr k' \<Longrightarrow> k \<le> k'"
    using assms(3) by (auto simp: floor_at_def)
  have set: "GetCurrentSequenceNumber cwd (snd (SetSequenceNumber cwd n (m_files M))) = Inr n" if "mrseq_representable n" for n
    using SetSequenceNumber_usable [OF u that] by (metis prod.collapse recorded_def)
  have "k \<le> k'" if g: "GetCurrentSequenceNumber cwd (m_files M') = Inr k'" for k'
    using step_files [OF assms(1)]
  proof (cases rule: changes_files_cases)
    case none
    then show ?thesis using g fl(2) report_frame_record(2) [OF none [of 0]] by simp
  next
    case (polls p c s)
    then show ?thesis using g fl(2) report_frame_record(2) [OF polls(2)] by simp
  next
    case (starts p st)
    then show ?thesis using g fl(2) report_frame_record(2) [OF starts(3)] by simp
  next
    case opened
    then show ?thesis using mrseq_opened_usable [OF u] g by simp
  next
    case (written p st)
    then show ?thesis using no_older_started [OF fl(1) assms(2) written(1,2)] set g by simp
  qed
  moreover have "k \<le> st_num st \<or> st_num st < st_read st" if "m_starting M' p = Some st" for p st
    using assms(1) that
  proof (cases rule: step_starts_cases)
    case (goes_on st0)
    then show ?thesis using fl(1) unfolding no_older_start_def by metis
  next
    case begins
    then have "k \<le> st_read st" using fl(2) by simp
    then show ?thesis using order.trans [of k "st_read st" "st_num st"] not_le by blast
  qed
  ultimately show ?thesis unfolding floor_at_def no_older_start_def by blast
qed

section \<open>The status of older configurations\<close>

definition frozen :: "uint \<Rightarrow> fs \<Rightarrow> fs \<Rightarrow> bool" where
  "frozen k w w' \<longleftrightarrow> (\<forall>d m. m < k \<longrightarrow> folder_lookup d m w' = folder_lookup d m w)"

lemma frozen_report: "report_frame n w w' \<Longrightarrow> k \<le> n \<Longrightarrow> frozen k w w'"
  by (auto simp: report_frame_def frozen_def)

text \<open>No process with a number below \<open>k\<close> is past the check of an iteration.\<close>

definition quiet :: "uint \<Rightarrow> 'w machine \<Rightarrow> bool" where
  "quiet k M \<longleftrightarrow> (\<forall>p c s. m_procs M p = Some (c, s, Checked) \<longrightarrow> k \<le> lc_seqNum c)"

text \<open>A step in which no process passes its check because it cannot read the recorded number, as happens
  between the truncation of the file and the write.\<close>

definition sighted :: "work_dir \<Rightarrow> 'w machine \<Rightarrow> 'w machine \<Rightarrow> bool" where
  "sighted cwd M M' \<longleftrightarrow> step cwd M M' \<and>
     (\<forall>p c s. m_procs M p = Some (c, s, Waiting) \<and> m_procs M' p = Some (c, s, Checked) \<longrightarrow>
        \<not> is_err (GetCurrentSequenceNumber cwd (m_files M)))"

lemma sighted_quiet:
  assumes "sighted cwd M M'" "machine_inv cwd M" "floor_at cwd k M" "quiet k M"
  shows "quiet k M'"
  unfolding quiet_def
proof (intro allI impI)
  fix p c s
  assume c: "m_procs M' p = Some (c, s, Checked)"
  have st: "step cwd M M'" using assms(1) by (simp add: sighted_def)
  consider s0 where "m_procs M p = Some (c, s0, Checked)" | "m_procs M p = Some (c, s, Waiting)" "\<not> newer_recorded c (m_files M)"
    using step_procs [OF st c] by auto
  then show "k \<le> lc_seqNum c"
  proof cases
    case 1
    then show ?thesis using assms(4) by (auto simp: quiet_def)
  next
    case 2
    then obtain k' where k': "GetCurrentSequenceNumber cwd (m_files M) = Inr k'"
      using assms(1) c by (auto simp: sighted_def is_err_def split: sum.splits)
    moreover have "lc_cwd c = cwd" using assms(2) 2(1) by (auto simp: machine_inv_def)
    ultimately have "k' \<le> lc_seqNum c" using 2(2) by (simp add: newer_recorded_def)
    then show ?thesis using assms(3) k' by (auto simp: floor_at_def)
  qed
qed

lemma step_frozen:
  assumes "step cwd M M'" "machine_inv cwd M" "no_older_start k M" "quiet k M"
  shows "frozen k (m_files M) (m_files M')"
proof -
  have u: "usable cwd (m_files M)" using assms(2) by (simp add: machine_inv_def)
  show ?thesis
    using step_files [OF assms(1)]
  proof (cases rule: changes_files_cases)
    case none
    then show ?thesis using frozen_report [OF none order.refl] by blast
  next
    case (polls p c s)
    then have "k \<le> lc_seqNum c" using assms(4) unfolding quiet_def by blast
    then show ?thesis by (rule frozen_report [OF polls(2)])
  next
    case (starts p st)
    then show ?thesis using frozen_report [OF starts(3)] no_older_started(1) [OF assms(3,2) starts(1,2)] by blast
  next
    case opened
    then show ?thesis using mrseq_opened_usable [OF u] by (simp add: frozen_def)
  next
    case (written p st)
    obtain e w where w: "SetSequenceNumber cwd (st_num st) (m_files M) = (e, w)" by force
    show ?thesis
      using SetSequenceNumber_usable [OF u no_older_started(2) [OF assms(3,2) written(1,2)] w] written(3) w by (simp add: frozen_def)
  qed
qed

section \<open>Runs of the machine\<close>

text \<open>What steps preserve, runs preserve.\<close>

locale invariant_system =
  fixes step :: "'s \<Rightarrow> 's \<Rightarrow> bool"
    and inv :: "'s \<Rightarrow> bool"
  assumes inv_step: "step S S' \<Longrightarrow> inv S \<Longrightarrow> inv S'"
begin

lemma run:
  assumes "step\<^sup>*\<^sup>* S S'" "inv S"
  shows "inv S'"
  using assms by (induction rule: rtranclp_induct) (auto dest: inv_step)

end

text \<open>A floor that the steps do not undercut.\<close>

locale ratchet = invariant_system +
  fixes above :: "'k \<Rightarrow> 's \<Rightarrow> bool"
  assumes above_step: "step S S' \<Longrightarrow> inv S \<Longrightarrow> above k S \<Longrightarrow> above k S'"
begin

lemma run_above:
  assumes "step\<^sup>*\<^sup>* S S'" "inv S" "above k S"
  shows "above k S'"
  using assms
proof (induction rule: rtranclp_induct)
  case (step y z)
  then show ?case using run above_step by blast
qed

end

text \<open>What lies below the floor is left alone by the steps with sight of it.\<close>

locale custody = ratchet +
  fixes seen :: "'s \<Rightarrow> 's \<Rightarrow> bool"
    and calm :: "'k \<Rightarrow> 's \<Rightarrow> bool"
    and same :: "'k \<Rightarrow> 's \<Rightarrow> 's \<Rightarrow> bool"
  assumes seen_step: "seen S S' \<Longrightarrow> step S S'"
    and calm_step: "seen S S' \<Longrightarrow> inv S \<Longrightarrow> above k S \<Longrightarrow> calm k S \<Longrightarrow> calm k S' \<and> same k S S'"
    and same_refl: "same k S S"
    and same_trans: "same k S S1 \<Longrightarrow> same k S1 S2 \<Longrightarrow> same k S S2"
begin

lemma seen_run: "seen\<^sup>*\<^sup>* S S' \<Longrightarrow> step\<^sup>*\<^sup>* S S'"
  by (induction rule: rtranclp_induct) (auto dest: seen_step)

lemma run_same:
  assumes "seen\<^sup>*\<^sup>* S S'" "inv S" "above k S" "calm k S"
  shows "calm k S' \<and> same k S S'"
  using assms
proof (induction rule: rtranclp_induct)
  case base
  then show ?case using same_refl by blast
next
  case (step y z)
  have "inv y" "above k y" using step.hyps(1) step.prems seen_run run run_above by blast+
  then show ?case using calm_step [OF step.hyps(2)] step.IH step.prems same_trans by blast
qed

end

interpretation mach: custody "step cwd" "machine_inv cwd" "floor_at cwd" "sighted cwd" quiet
  "\<lambda>k M M'. frozen k (m_files M) (m_files M')" for cwd
proof (unfold_locales, goal_cases)
  case (1 M M')
  then show ?case by (rule step_inv)
next
  case (2 M M' k)
  then show ?case by (rule step_floor)
next
  case (3 M M')
  then show ?case by (simp add: sighted_def)
next
  case (4 M M' k)
  then show ?case using sighted_quiet step_frozen by (auto simp: sighted_def floor_at_def)
qed (auto simp: frozen_def)

text \<open>A machine on which nothing of the extension runs yet.\<close>

definition idle :: "work_dir \<Rightarrow> uint \<Rightarrow> 'w machine \<Rightarrow> bool" where
  "idle cwd k M \<longleftrightarrow> recorded cwd k (m_files M) \<and> m_starting M = Map.empty \<and> m_procs M = Map.empty"

lemma idle_inv: "idle cwd k M \<Longrightarrow> machine_inv cwd M"
  by (simp add: idle_def machine_inv_def recorded_def)

end
