(* ===== verification/Handover.thy ===== *)
theory Handover
  imports Coexistence
begin

text \<open>
  What the processes of theory \<open>Coexistence\<close> guarantee each other: when the recorded number cannot fall any
  more, that older processes then leave and their status files freeze, and that a start with a newer
  number gets to poll.
\<close>

section \<open>A start that gets to poll\<close>

text \<open>The settings file is none of the files a start writes.\<close>

lemma plain_settings_name: "plain_name (Itoa m @ ''.settings'')" "plain_name (Utoa n @ ''.settings'')"
proof -
  have "CHR ''/'' \<notin> set (string_of_nat k)" for k
    using string_of_nat_chars [of "CHR ''/''" k] by (auto simp: is_digit_def)
  then show "plain_name (Itoa m @ ''.settings'')" "plain_name (Utoa n @ ''.settings'')"
    by (auto simp: plain_name_def Itoa_def Utoa_def)
qed

lemma settingsPath_name:
  assumes "settingsPath d g = Inr p"
  obtains i where "after_last_slash p = Itoa i @ ''.settings''"
proof -
  obtain i where "p = path_Join [d, Itoa i @ ''.settings'']"
    using assms by (auto simp: settingsPath_def split: sum.splits)
  then show thesis using that plain_settings_name(1) by simp
qed

lemma settings_not_written:
  assumes "settingsPath d g = Inr p"
  shows "last p = CHR ''s''" "p \<noteq> status_path e n"
proof -
  obtain i where a: "after_last_slash p = Itoa i @ ''.settings''" using settingsPath_name [OF assms] .
  then show "last p = CHR ''s''" using last_after_last_slash [of p] by simp
  show "p \<noteq> status_path e n"
  proof
    assume "p = status_path e n"
    moreover have "after_last_slash (status_path e n) = status_file n" by (simp add: status_path_def)
    ultimately have "Itoa i @ ''.settings'' = Utoa n @ ''.status''" using a by (simp add: status_file_def)
    then have "drop (length (Itoa i @ ''.settings'') - 3) (Itoa i @ ''.settings'') = drop (length (Utoa n @ ''.status'') - 3) (Utoa n @ ''.status'')"
      by simp
    then show False by simp
  qed
qed

lemma save_other:
  assumes "save_status d rnds n rep w = (e, w')" "random_suffixes rnds" "\<not> is_digit (last q)" "q \<noteq> status_path d n"
  shows "files w' q = files w q"
proof -
  obtain ws where s: "Save d n rnds rep w = (e, ws)" and w': "w' = last ws"
    using assms(1) by (auto simp: save_status_def split: prod.splits)
  have "tmp \<noteq> q" if "TempFile d pat rnds w = (Inr tmp, w1)" for tmp pat w1
    using temp_last [OF that assms(2)] assms(3) by auto
  with s w' assms(4) show ?thesis by (cases rule: Save_cases) auto
qed

lemma parse_reads:
  assumes "settingsPath d (se_glob env) = Inr p" "ReadFile w p = ReadFile w' p"
  shows "parseAndValidateSettings env d w = parseAndValidateSettings env d w'"
  using assms
  by (simp add: parseAndValidateSettings_def readSettings_def ReadSettings_def parseHandlerSettingsFile_def)

lemma main_report_other:
  assumes "random_suffixes (re_rnds re)" "settingsPath d g = Inr p"
  shows "ReadFile (r_fs (main_report re hEnv n t c msg r)) p = ReadFile (r_fs r) p"
proof -
  have "\<not> is_digit (last p)" using settings_not_written(1) [OF assms(2)] by (simp add: is_digit_def)
  then have "files (r_fs (main_report re hEnv n t c msg r)) p = files (r_fs r) p"
    using save_other [OF _ assms(1) _ settings_not_written(2) [OF assms(2)]]
    by (auto simp: main_report_def reportStatus_def Let_def split: prod.splits option.splits)
  moreover have "read_fault (r_fs (main_report re hEnv n t c msg r)) = read_fault (r_fs r)"
    using main_report_frame [OF assms(1), of n r hEnv t c msg] by (simp add: report_frame_def)
  ultimately show ?thesis by (simp add: ReadFile_def split: option.split)
qed

text \<open>A process that begins to run.\<close>

definition fresh_run :: "'w machine \<Rightarrow> 'w run" where
  "fresh_run M = \<lparr>r_world = m_world M, r_fs = m_files M, r_events = [], r_actions = []\<rparr>"

lemma fresh_run_simps [simp]: "sees M (fresh_run M)" "r_fs (fresh_run M) = m_files M" "r_actions (fresh_run M) = []"
  by (simp_all add: fresh_run_def sees_def)

lemma fell_nobody [simp]: "fell {} M = M"
  by (cases M) (simp add: fell_def restrict_map_def)

text \<open>A start with a newer number decides to run, signals nobody, and records its number.\<close>

lemma admit_newer:
  assumes "mr < n"
  shows "\<exists>r'. enablePre_admit env n mr r = (Inr (fst (discover env r)), r') \<and> r_fs r' = r_fs r \<and> slain r r' = {}"
proof -
  obtain pids r1 where d: "discover env r = (pids, r1)" by force
  have "n \<noteq> mr" using assms by auto
  then have "checkIdempotency env n mr pids r1 = (False, r1)" by (simp add: checkIdempotency_def Let_def)
  then show ?thesis
    using d discover_run [OF d] assms by (simp add: enablePre_admit_def slain_def not_less less_imp_le)
qed

lemma sightedI: "step cwd M M' \<Longrightarrow> m_procs M' = m_procs M \<Longrightarrow> sighted cwd M M'"
  by (auto simp: sighted_def)

lemma newer_start_records:
  fixes M :: "'w machine" and env :: "'w main_env"
  assumes "m_starting M p = Some st" "st_stage st = Reading" "starts_in cwd p env" "usable cwd (m_files M)"
    "mrseq_representable (st_num st)" "st_read st < st_num st"
  shows "\<exists>M'. (sighted cwd)\<^sup>*\<^sup>* M M' \<and> recorded cwd (st_num st) (m_files M') \<and> m_procs M' = m_procs M \<and>
    m_files M' = snd (SetSequenceNumber cwd (st_num st) (m_files M)) \<and>
    m_starting M' = (m_starting M)(p \<mapsto> st\<lparr>st_pids := fst (discover (ee_cmd (me_enable env)) (fresh_run M)), st_stage := Recorded\<rparr>)"
proof -
  let ?e = "ee_cmd (me_enable env)" let ?n = "st_num st" let ?pids = "fst (discover ?e (fresh_run M))"
  have cwd: "ce_cwd ?e = cwd" using assms(3) by (simp add: starts_in_def)
  obtain r1 where r1: "enablePre_admit ?e ?n (st_read st) (fresh_run M) = (Inr ?pids, r1)" "r_fs r1 = m_files M" "slain (fresh_run M) r1 = {}"
    using admit_newer [OF assms(6), of ?e "fresh_run M"] by auto
  let ?A = "put_start p (Some (st\<lparr>st_stage := Admitted, st_pids := ?pids\<rparr>)) (put_run r1 M)"
  have 1: "step cwd M ?A"
    using step.admitted [OF assms(1,2) fresh_run_simps(1) assms(3) r1(1)] unfolding r1(3) by simp
  obtain x w where w: "SetSequenceNumber cwd ?n (m_files M) = (x, w)" by force
  then have x: "x = None" using SetSequenceNumber_usable [OF assms(4,5)] by blast
  let ?st = "st\<lparr>st_pids := ?pids, st_stage := Writing\<rparr>"
  let ?B = "put_start p (Some ?st) (?A\<lparr>m_files := mrseq_opened cwd (m_files M)\<rparr>)"
  have 2: "step cwd ?A ?B"
    using step.opened [of ?A p "st\<lparr>st_stage := Admitted, st_pids := ?pids\<rparr>" cwd] w x r1(2) by simp
  have B: "usable cwd (m_files ?B)" using mrseq_opened_usable [OF assms(4)] by simp
  obtain y v where v: "SetSequenceNumber cwd ?n (m_files ?B) = (y, v)" by force
  note rec = SetSequenceNumber_usable [OF B assms(5) v]
  let ?r = "(fresh_run ?B)\<lparr>r_fs := v\<rparr>"
  have "enablePre_record ?e ?n (fresh_run ?B) = (None, ?r)" using v rec cwd by (simp add: enablePre_record_def)
  then have 3: "step cwd ?B (put_start p (Some (?st\<lparr>st_stage := Recorded\<rparr>)) (put_run ?r ?B))"
    using step.written [of ?B p ?st "fresh_run ?B" cwd env ?r] assms(3) by simp
  have "v = w" using v w usable_path [OF assms(4)]
    by (auto simp: SetSequenceNumber_def setSequenceNumberInternal_def mrseq_opened_def WriteFile_def put_file_def)
  moreover have "(sighted cwd)\<^sup>*\<^sup>* M (put_start p (Some (?st\<lparr>st_stage := Recorded\<rparr>)) (put_run ?r ?B))"
    using sightedI [OF 1] sightedI [OF 2] sightedI [OF 3] by (auto intro: converse_rtranclp_into_rtranclp)
  ultimately show ?thesis using rec w by (intro exI conjI) (assumption | simp)+
qed

text \<open>A start that has recorded its number deals with the processes it has found, and polls.\<close>

lemma replace_slain: "slain r (enablePre_replace env n mr pids r) \<subseteq> set pids"
proof -
  have "q \<in> set pids" if "ASignal q SIGKILL \<in> set as" "fst ` set (signals as) \<subseteq> set pids" for q as
    using that by (induction as rule: signals.induct) auto
  then show ?thesis
    using killProcesses_run [of "ce_os env" pids "emit (ev_killing pids mr n) r"]
    by (auto simp: enablePre_replace_def slain_def)
qed

lemma recorded_start_polls:
  fixes M :: "'w machine" and env :: "'w main_env"
  assumes "m_starting M p = Some st" "st_stage st = Recorded" "starts_in cwd p env" "recorded cwd (st_num st) (m_files M)"
    "p \<notin> set (st_pids st)" "settingsPath (he_ConfigFolder hEnv) (se_glob (ee_settings (me_enable env))) = Inr f"
    "parseAndValidateSettings (ee_settings (me_enable env)) (he_ConfigFolder hEnv) (m_files M) = (Inr cfg, evs)"
  shows "\<exists>M' s D. (step cwd)\<^sup>*\<^sup>* M M' \<and> recorded cwd (st_num st) (m_files M') \<and> D \<subseteq> set (st_pids st) \<and>
    m_procs M' = (m_procs M |` (- D))(p \<mapsto> (init_loop_cfg (me_enable env) hEnv (st_num st) cfg, s, Waiting)) \<and>
    m_starting M' = (m_starting M |` (- D))(p := None)"
proof -
  let ?e = "ee_cmd (me_enable env)" let ?n = "st_num st"
  have st: "me_iters env = []" "random_suffixes (re_rnds (me_reportStart env))" using assms(3) by (simp_all add: starts_in_def)
  let ?r1 = "enablePre_replace ?e ?n (st_read st) (st_pids st) (fresh_run M)" let ?D = "slain (fresh_run M) ?r1"
  let ?A = "put_start p (Some (st\<lparr>st_stage := Replaced\<rparr>)) (fell ?D (put_run ?r1 M))"
  have D: "?D \<subseteq> set (st_pids st)" by (rule replace_slain)
  have 1: "step cwd M ?A" by (rule step.replaced [OF assms(1,2) fresh_run_simps(1) assms(3) refl])
  have A: "m_files ?A = m_files M" "m_starting ?A p = Some (st\<lparr>st_stage := Replaced\<rparr>)" by simp_all
  let ?r2 = "main_report (me_reportStart env) hEnv ?n StatusTransitioning cmdEnable [] (fresh_run ?A)"
  have "ReadFile (r_fs ?r2) f = ReadFile (m_files M) f" using main_report_other [OF st(2) assms(6), where r = "fresh_run ?A"] by simp
  then have parse: "parseAndValidateSettings (ee_settings (me_enable env)) (he_ConfigFolder hEnv) (r_fs ?r2) = (Inr cfg, evs)"
    using parse_reads [OF assms(6)] assms(7) by metis
  obtain s r3 where en: "enable (me_enable env) hEnv ?n [] ?r2 = (StillPolling s, r3)" "r_fs r3 = r_fs ?r2"
    by (simp add: enable_def parse Let_def emit_def)
  then have "main_execute env cmdEnable hEnv ?n (fresh_run ?A) = (Polling s, r3)"
    by (simp add: main_execute_def run_command_def Let_def st(1))
  then have 2: "step cwd ?A (put_proc p (Some (init_loop_cfg (me_enable env) hEnv ?n cfg, s, Waiting)) (put_start p None (put_run r3 ?A)))"
    using step.started [OF A(2) _ fresh_run_simps(1) assms(3), of hEnv s r3 cfg evs] parse en(2) by simp
  have "recorded cwd ?n (r_fs r3)"
    using report_frame_record(3) [OF main_report_frame [OF st(2), where r = "fresh_run ?A"]] assms(4) en(2) by simp
  then show ?thesis
    using 1 2 D assms(5)
    by (intro exI [of _ "put_proc p (Some (init_loop_cfg (me_enable env) hEnv ?n cfg, s, Waiting)) (put_start p None (put_run r3 ?A))"]
        exI [of _ s] exI [of _ ?D]) (auto intro: converse_rtranclp_into_rtranclp)
qed

text \<open>The settings are not touched by the record.\<close>

lemma parse_after_record:
  assumes "usable cwd w" "settingsPath d (se_glob env) = Inr f"
  shows "parseAndValidateSettings env d (snd (SetSequenceNumber cwd n w)) = parseAndValidateSettings env d w"
proof -
  obtain q where q: "getMrseqFilePath cwd = Inr q" using usable_path [OF assms(1)] by blast
  then have "f \<noteq> q" using mrseq_path_last [OF q] settings_not_written(1) [OF assms(2)] by auto
  then have "ReadFile (snd (SetSequenceNumber cwd n w)) f = ReadFile w f"
    using q ReadFile_other [where q = f and p = q]
    by (auto simp: SetSequenceNumber_def setSequenceNumberInternal_def split: prod.splits option.splits)
  then show ?thesis by (rule parse_reads [OF assms(2)])
qed

text \<open>Put together.\<close>

lemma newer_start_run:
  fixes M :: "'w machine" and env :: "'w main_env"
  assumes "usable cwd (m_files M)" "m_starting M p = None" "m_procs M p = None"
    "GetCurrentSequenceNumber cwd (m_files M) = Inr mr" "mr < n" "mrseq_representable n" "starts_in cwd p env"
    "settingsPath (he_ConfigFolder hEnv) (se_glob (ee_settings (me_enable env))) = Inr f"
    "parseAndValidateSettings (ee_settings (me_enable env)) (he_ConfigFolder hEnv) (m_files M) = (Inr cfg, evs)"
  shows "\<exists>M' s D. (step cwd)\<^sup>*\<^sup>* M M' \<and> recorded cwd n (m_files M') \<and> m_starting M' = m_starting M |` (- D) \<and>
    m_procs M' = (m_procs M |` (- D))(p \<mapsto> (init_loop_cfg (me_enable env) hEnv n cfg, s, Waiting)) \<and>
    D \<subseteq> set (fst (discover (ee_cmd (me_enable env)) (fresh_run M)))"
proof -
  let ?st = "\<lparr>st_stage = Reading, st_num = n, st_read = mr, st_pids = []\<rparr>" let ?A = "put_start p (Some ?st) M"
  let ?pids = "fst (discover (ee_cmd (me_enable env)) (fresh_run M))" let ?st' = "?st\<lparr>st_pids := ?pids, st_stage := Recorded\<rparr>"
  have 1: "step cwd M ?A" using step.began [of M p n cwd mr] assms(2-4,6) by simp
  have "fresh_run ?A = fresh_run M" by (simp add: fresh_run_def)
  then obtain B where B: "(sighted cwd)\<^sup>*\<^sup>* ?A B" "recorded cwd n (m_files B)" "m_procs B = m_procs M"
    "m_files B = snd (SetSequenceNumber cwd n (m_files M))" "m_starting B = (m_starting M)(p \<mapsto> ?st')"
    using newer_start_records [of ?A p ?st cwd env] assms(1,5-7) by auto
  have Bp: "m_starting B p = Some ?st'" using B(5) by simp
  have parse: "parseAndValidateSettings (ee_settings (me_enable env)) (he_ConfigFolder hEnv) (m_files B) = (Inr cfg, evs)"
    using parse_after_record [OF assms(1,8)] assms(9) B(4) by simp
  have "p \<notin> set ?pids"
    using discover_run [of "ee_cmd (me_enable env)" "fresh_run M", OF prod.collapse [symmetric]] assms(7) by (simp add: starts_in_def)
  then obtain M' s D where M': "(step cwd)\<^sup>*\<^sup>* B M'" "recorded cwd n (m_files M')" "D \<subseteq> set ?pids"
    "m_procs M' = (m_procs M |` (- D))(p \<mapsto> (init_loop_cfg (me_enable env) hEnv n cfg, s, Waiting))"
    "m_starting M' = (m_starting B |` (- D))(p := None)"
    using recorded_start_polls [OF Bp _ assms(7) _ _ assms(8) parse] B(2,3) by auto
  have "m_starting M' = m_starting M |` (- D)" using M'(5) B(5) assms(2) by (auto simp: restrict_map_def fun_eq_iff)
  moreover have "(step cwd)\<^sup>*\<^sup>* M M'" using 1 mach.seen_run [OF B(1)] M'(1) by (meson converse_rtranclp_into_rtranclp rtranclp_trans)
  ultimately show ?thesis using M'(2-4) by blast
qed

section \<open>A machine with two processes\<close>

text \<open>The surroundings of every process of the example, its directory and the machine before the first start.\<close>

definition co_env :: "int \<Rightarrow> proc_table main_env" where
  "co_env p = sample_main_env\<lparr>me_enable := \<lparr>ee_cmd = sample_cmd_env\<lparr>ce_os := table_os p\<rparr>, ee_settings = sample_env, ee_graceStart = 0,
     ee_quote = id\<rparr>\<rparr>"

definition co_dir :: work_dir where "co_dir = Inr ''/var/ahe''"

definition co_machine :: "proc_table machine" where
  "co_machine = \<lparr>m_world = two_instances, m_files = sample_fs, m_starting = Map.empty, m_procs = Map.empty\<rparr>"

definition co_cfg :: "uint \<Rightarrow> loop_cfg" where
  "co_cfg n = init_loop_cfg (me_enable (co_env 11)) sample_hEnv n sample_result"

lemma co_cfg_seqNum [simp]: "lc_seqNum (co_cfg n) = n"
  by (simp add: co_cfg_def init_loop_cfg_def)

lemma co_starts_in: "starts_in co_dir p (co_env p)"
  by (simp add: starts_in_def co_env_def co_dir_def sample_main_env_def sample_cmd_env_def table_os_def random_suffixes_def
      all_digits_def is_digit_def)

lemma co_idle: "idle co_dir 0 co_machine"
proof -
  have "GetCurrentSequenceNumber co_dir sample_fs = Inr 0" by code_simp
  then show ?thesis
    by (simp add: idle_def co_machine_def recorded_def usable_def mrseq_readable_def mrseq_writable_def getMrseqFilePath_def
        sample_fs_def plain_fs_def co_dir_def)
qed

lemma co_path: "settingsPath (he_ConfigFolder sample_hEnv) (se_glob (ee_settings (me_enable (co_env p)))) = Inr ''/c/0.settings''"
proof -
  have "settingsPath ''/c'' (se_glob sample_env) = Inr ''/c/0.settings''" by code_simp
  then show ?thesis by (simp add: co_env_def sample_hEnv_def)
qed

lemma co_parse: "\<exists>evs. parseAndValidateSettings (ee_settings (me_enable (co_env p))) (he_ConfigFolder sample_hEnv) (m_files co_machine) = (Inr sample_result, evs)"
  using sample_parsed by (simp add: co_env_def sample_hEnv_def co_machine_def)

definition co_start :: "uint \<Rightarrow> uint \<Rightarrow> start_state" where
  "co_start n mr = \<lparr>st_stage = Reading, st_num = n, st_read = mr, st_pids = []\<rparr>"

lemma co_begin:
  assumes "recorded co_dir k (m_files M)" "mrseq_representable n" "m_starting M p = None" "m_procs M p = None"
  shows "step co_dir M (put_start p (Some (co_start n k)) M)"
  using assms step.began [of M p n co_dir k] by (simp add: co_start_def recorded_def)

lemma co_numbers: "mrseq_representable 3" "mrseq_representable 4" "(0 :: uint) < 3" "(3 :: uint) < 4"
  by (simp_all add: mrseq_representable_def)

text \<open>A process polls with number 3 when a second one starts, reads that number, and records 4.\<close>

lemma co_run_two:
  "\<exists>M1 M s. (step co_dir)\<^sup>*\<^sup>* co_machine M1 \<and> (sighted co_dir)\<^sup>*\<^sup>* M1 M \<and> settled co_dir 3 M1 \<and> settled co_dir 4 M \<and>
    m_procs M1 = [11 \<mapsto> (co_cfg 3, s, Waiting)] \<and> m_procs M = [11 \<mapsto> (co_cfg 3, s, Waiting)]"
proof -
  have none: "m_starting co_machine = Map.empty" "m_procs co_machine = Map.empty" by (simp_all add: co_machine_def)
  have rec: "usable co_dir (m_files co_machine)" "GetCurrentSequenceNumber co_dir (m_files co_machine) = Inr 0"
    using co_idle by (simp_all add: idle_def recorded_def)
  obtain evs where "parseAndValidateSettings (ee_settings (me_enable (co_env 11))) (he_ConfigFolder sample_hEnv) (m_files co_machine) = (Inr sample_result, evs)"
    using co_parse by blast
  from newer_start_run [OF rec(1) _ _ rec(2) co_numbers(3,1) co_starts_in co_path this]
  obtain M1 s where c: "(step co_dir)\<^sup>*\<^sup>* co_machine M1" "recorded co_dir 3 (m_files M1)" "m_starting M1 = Map.empty"
    "m_procs M1 = [11 \<mapsto> (co_cfg 3, s, Waiting)]"
    using none by (auto simp: co_cfg_def)
  let ?C = "put_start 12 (Some (co_start 4 3)) M1"
  have d: "sighted co_dir M1 ?C" using co_begin [OF c(2) co_numbers(2), of 12] c(3,4) by (intro sightedI) simp_all
  obtain M where e: "(sighted co_dir)\<^sup>*\<^sup>* ?C M" "recorded co_dir 4 (m_files M)" "m_procs M = m_procs M1"
    "m_starting M = [12 \<mapsto> (co_start 4 3)\<lparr>st_pids := fst (discover (ee_cmd (me_enable (co_env 12))) (fresh_run ?C)), st_stage := Recorded\<rparr>]"
    using newer_start_records [of ?C 12 "co_start 4 3" co_dir "co_env 12"] co_starts_in c(2,3) co_numbers
    by (auto simp: co_start_def recorded_def)
  have "(sighted co_dir)\<^sup>*\<^sup>* M1 M" using d e(1) by (rule converse_rtranclp_into_rtranclp)
  moreover have "settled co_dir 3 M1" "settled co_dir 4 M"
    using c(2,3) e(2,4) by (auto simp: settled_def no_older_start_def recorded_def co_start_def)
  ultimately show ?thesis using c(1,4) e(3) by metis
qed

section \<open>Properties\<close>

text \<open>C1: Two configurations do not stay side by side.  Starts of the extension may overlap in any way.  Once a
  number is recorded and no start with a smaller number is under way that could still record it, then in
  whatever follows, every process with a smaller number that is between two iterations leaves at its next
  one, provided the recorded number can be read at that moment; and it leaves without writing a file,
  sending a signal or sleeping.\<close>

theorem older_process_leaves:
  assumes "idle cwd k0 M0" "(step cwd)\<^sup>*\<^sup>* M0 M" "settled cwd k M" "(step cwd)\<^sup>*\<^sup>* M M'"
    "m_procs M' p = Some (c, s, Waiting)" "lc_seqNum c < k" "GetCurrentSequenceNumber cwd (m_files M') = Inr k'"
    "sees M' r" "polls_with it"
  shows "\<exists>r'. iteration ops c it (s, r) = (Some Superseded, s, r') \<and> r_fs r' = r_fs r \<and> r_actions r' = r_actions r"
proof -
  have inv: "machine_inv cwd M" by (rule mach.run [OF assms(2) idle_inv [OF assms(1)]])
  have "floor_at cwd k M'" by (rule mach.run_above [OF assms(4) inv settled_floor [OF assms(3)]])
  then have "lc_seqNum c < k'" using assms(6,7) by (auto simp: floor_at_def)
  moreover have "lc_cwd c = cwd" using mach.run [OF assms(4) inv] assms(5) by (auto simp: machine_inv_def)
  ultimately have "newer_recorded c (r_fs r)" using assms(7,8) by (simp add: newer_recorded_def sees_def)
  then have x: "fst (iteration ops c it (s, r)) = Some Superseded"
    using iteration_superseded [of ops c it s r] assms(9) by (simp add: polls_with_def)
  then obtain s1 r1 where i: "iteration ops c it (s, r) = (Some Superseded, s1, r1)" by (metis prod.collapse)
  then show ?thesis using iteration_superseded_run [OF i] assms(9) by (simp add: polls_with_def)
qed

theorem older_process_leaves_witness:
  "\<exists>(M :: proc_table machine) s r'. m_procs M 11 = Some (co_cfg 3, s, Waiting) \<and>
     iteration (table_os 11) (co_cfg 3) (sample_iter 0) (s, fresh_run M) = (Some Superseded, s, r') \<and> r_fs r' = m_files M"
proof -
  obtain M1 M s where M: "(step co_dir)\<^sup>*\<^sup>* co_machine M1" "(sighted co_dir)\<^sup>*\<^sup>* M1 M" "settled co_dir 4 M"
    "m_procs M = [11 \<mapsto> (co_cfg 3, s, Waiting)]"
    using co_run_two by blast
  have p: "polls_with (sample_iter 0)" using polled_sample(2) [of 0] by (simp add: polls_with_def sample_iter_def)
  have run: "(step co_dir)\<^sup>*\<^sup>* co_machine M" using M(1) mach.seen_run [OF M(2)] by (rule rtranclp_trans)
  have m: "m_procs M 11 = Some (co_cfg 3, s, Waiting)" "lc_seqNum (co_cfg 3) < 4" "GetCurrentSequenceNumber co_dir (m_files M) = Inr 4"
    using M(3,4) by (simp_all add: settled_def)
  show ?thesis
    using older_process_leaves [OF co_idle run M(3) rtranclp.rtrancl_refl m fresh_run_simps(1) p, of "table_os 11"] m(1) by auto
qed

text \<open>C2: The newer configuration owns the status.  Once a number is recorded, no start with a smaller number
  is under way that could still record it, and no process with a smaller number is in the middle of an
  iteration, no status file of a smaller number changes any more, in any folder, whatever starts, polls,
  ends or is killed from then on: as long as no process makes its check in the moment in which a start has
  truncated the file of the recorded number and not yet written it.\<close>

theorem older_status_frozen:
  assumes "idle cwd k0 M0" "(step cwd)\<^sup>*\<^sup>* M0 M" "settled cwd k M" "quiet k M" "(sighted cwd)\<^sup>*\<^sup>* M M'" "m < k"
  shows "folder_lookup d m (m_files M') = folder_lookup d m (m_files M)"
proof -
  have inv: "machine_inv cwd M" by (rule mach.run [OF assms(2) idle_inv [OF assms(1)]])
  show ?thesis using mach.run_same [OF assms(5) inv settled_floor [OF assms(3)] assms(4)] assms(6) by (auto simp: frozen_def)
qed

theorem older_status_frozen_witness:
  "\<exists>(M1 :: proc_table machine) (M :: proc_table machine). (sighted co_dir)\<^sup>*\<^sup>* M1 M \<and> settled co_dir 3 M1 \<and> settled co_dir 4 M \<and>
     folder_lookup ''/status'' 2 (m_files M) = folder_lookup ''/status'' 2 (m_files M1)"
proof -
  obtain M1 M s where M: "(step co_dir)\<^sup>*\<^sup>* co_machine M1" "(sighted co_dir)\<^sup>*\<^sup>* M1 M" "settled co_dir 3 M1" "settled co_dir 4 M"
    "m_procs M1 = [11 \<mapsto> (co_cfg 3, s, Waiting)]"
    using co_run_two by blast
  have "quiet 3 M1" using M(5) by (auto simp: quiet_def split: if_splits)
  moreover have "(2 :: uint) < 3" by simp
  ultimately have "folder_lookup ''/status'' 2 (m_files M) = folder_lookup ''/status'' 2 (m_files M1)"
    by (rule older_status_frozen [OF co_idle M(1,3) _ M(2)])
  then show ?thesis using M(2-4) by blast
qed

text \<open>C6: When the recorded number cannot fall.  Starts may overlap in any way, and processes poll, end and are
  killed at any time.  Once a number is recorded and every start under way has a number that is not
  smaller, or has read a number above its own, the recorded number is never again below it, whenever it
  can be read.  So it can fall only through a start that read it before a higher one was recorded.\<close>

theorem recorded_floor:
  assumes "idle cwd k0 M0" "(step cwd)\<^sup>*\<^sup>* M0 M" "GetCurrentSequenceNumber cwd (m_files M) = Inr k"
    "\<forall>p st. m_starting M p = Some st \<longrightarrow> k \<le> st_num st \<or> st_num st < st_read st"
    "(step cwd)\<^sup>*\<^sup>* M M'" "GetCurrentSequenceNumber cwd (m_files M') = Inr k'"
  shows "k \<le> k'"
proof -
  have "machine_inv cwd M" by (rule mach.run [OF assms(2) idle_inv [OF assms(1)]])
  moreover have "floor_at cwd k M" using assms(3,4) by (simp add: floor_at_def no_older_start_def)
  ultimately have "floor_at cwd k M'" by (rule mach.run_above [OF assms(5)])
  then show ?thesis using assms(6) by (simp add: floor_at_def)
qed

theorem recorded_floor_witness:
  "\<exists>(M1 :: proc_table machine) (M :: proc_table machine) k. (step co_dir)\<^sup>*\<^sup>* co_machine M1 \<and> (step co_dir)\<^sup>*\<^sup>* M1 M \<and>
     GetCurrentSequenceNumber co_dir (m_files M1) = Inr 3 \<and> GetCurrentSequenceNumber co_dir (m_files M) = Inr k \<and> 3 \<le> k"
proof -
  obtain M1 M where M: "(step co_dir)\<^sup>*\<^sup>* co_machine M1" "(sighted co_dir)\<^sup>*\<^sup>* M1 M" "settled co_dir 3 M1" "settled co_dir 4 M"
    using co_run_two by blast
  have run: "(step co_dir)\<^sup>*\<^sup>* M1 M" by (rule mach.seen_run [OF M(2)])
  have g: "GetCurrentSequenceNumber co_dir (m_files M1) = Inr 3" "GetCurrentSequenceNumber co_dir (m_files M) = Inr 4"
    "\<forall>p st. m_starting M1 p = Some st \<longrightarrow> 3 \<le> st_num st \<or> st_num st < st_read st"
    using M(3,4) by (simp_all add: settled_def no_older_start_def)
  show ?thesis using recorded_floor [OF co_idle M(1) g(1,3) run g(2)] M(1) run g(1,2) by blast
qed

text \<open>C7: A new configuration takes over.  Wherever a run of the machine has got to, when no start is under
  way a process started with a number above the recorded one, and with settings that are accepted, does
  get to poll with that number, which is then the recorded one, whatever processes poll already; the other
  processes are as they were, except those among the ones it has found that it had to kill.\<close>

theorem newer_configuration_polls:
  fixes M :: "'w machine" and env :: "'w main_env"
  assumes "idle cwd k M0" "(step cwd)\<^sup>*\<^sup>* M0 M" "m_starting M = Map.empty" "m_procs M p = None"
    "GetCurrentSequenceNumber cwd (m_files M) = Inr mr" "mr < n" "mrseq_representable n" "starts_in cwd p env"
    "settingsPath (he_ConfigFolder hEnv) (se_glob (ee_settings (me_enable env))) = Inr f"
    "parseAndValidateSettings (ee_settings (me_enable env)) (he_ConfigFolder hEnv) (m_files M) = (Inr cfg, evs)"
  shows "\<exists>M' s D. (step cwd)\<^sup>*\<^sup>* M M' \<and> GetCurrentSequenceNumber cwd (m_files M') = Inr n \<and>
    m_procs M' = (m_procs M |` (- D))(p \<mapsto> (init_loop_cfg (me_enable env) hEnv n cfg, s, Waiting)) \<and>
    D \<subseteq> set (fst (discover (ee_cmd (me_enable env)) (fresh_run M)))"
proof -
  have u: "usable cwd (m_files M)" using mach.run [OF assms(2) idle_inv [OF assms(1)]] by (simp add: machine_inv_def)
  show ?thesis using newer_start_run [OF u _ assms(4-10)] assms(3) unfolding recorded_def by auto
qed

theorem newer_configuration_polls_witness:
  "\<exists>M' s. (step co_dir)\<^sup>*\<^sup>* co_machine M' \<and> GetCurrentSequenceNumber co_dir (m_files M') = Inr 3 \<and>
     m_procs M' 11 = Some (co_cfg 3, s, Waiting)"
proof -
  have m: "m_starting co_machine = Map.empty" "m_procs co_machine 11 = None" by (simp_all add: co_machine_def)
  have g: "GetCurrentSequenceNumber co_dir (m_files co_machine) = Inr 0" using co_idle by (simp add: idle_def recorded_def)
  obtain evs where p: "parseAndValidateSettings (ee_settings (me_enable (co_env 11))) (he_ConfigFolder sample_hEnv) (m_files co_machine) = (Inr sample_result, evs)"
    using co_parse by blast
  show ?thesis
    using newer_configuration_polls [OF co_idle rtranclp.rtrancl_refl m g co_numbers(3,1) co_starts_in co_path p]
    by (auto simp: co_cfg_def)
qed

end
