(* ===== verification/Enable_VMWatch.thy ===== *)
theory Enable_VMWatch
  imports Enable_Report
begin

text \<open>
  The polling loop and the goroutine that runs VMWatch, put together over their channel
  (\<open>main/cmds.go\<close>, \<open>main/vmWatch.go\<close>).  The channel has no buffer: the goroutine waits at each send until an
  iteration of the loop takes the message, and the loop takes at most one message in an iteration and
  never waits for one.
\<close>

section \<open>The channel\<close>

text \<open>What the iterations read of a goroutine that sends \<open>ms\<close> and then closes the channel: nothing while it
  is busy, its messages one by one, and once it has closed the channel always that.\<close>

inductive delivers :: "VMWatchResult list \<Rightarrow> chan_read list \<Rightarrow> bool" where
  closed: "delivers [] (replicate k Closed)"
| not_yet: "delivers (m # ms) []"
| busy: "delivers ms cs \<Longrightarrow> delivers ms (NoMsg # cs)"
| received: "delivers ms cs \<Longrightarrow> delivers (m # ms) (Msg m # cs)"

fun is_msg :: "chan_read \<Rightarrow> bool" where
  "is_msg (Msg m) = True"
| "is_msg ch = False"

definition messages :: "chan_read list \<Rightarrow> nat" where
  "messages cs = length (filter is_msg cs)"

lemma messages_simps [simp]:
  "messages [] = 0" "messages (NoMsg # cs) = messages cs" "messages (Closed # cs) = messages cs"
  "messages (Msg m # cs) = Suc (messages cs)" "messages (replicate k Closed) = 0"
  by (simp_all add: messages_def filter_replicate)

text \<open>What the loop holds of VMWatch after a read.\<close>

definition after_read :: "VMWatchResult \<Rightarrow> chan_read \<Rightarrow> VMWatchResult" where
  "after_read v ch = (case ch of NoMsg \<Rightarrow> v | Msg m \<Rightarrow> m | Closed \<Rightarrow> closed_result)"

lemma after_closed [simp]: "foldl after_read v (replicate k Closed) = (if k = 0 then v else closed_result)"
  by (induction k arbitrary: v) (simp_all add: after_read_def)

lemma delivers_nothing: "delivers ms []"
  by (cases ms) (use delivers.closed [of 0] delivers.not_yet in simp_all)

lemma delivers_messages: "delivers ms cs \<Longrightarrow> messages cs \<le> length ms"
  by (induction rule: delivers.induct) simp_all

text \<open>The loop holds the last message taken, or that the channel is closed when all have been.\<close>

lemma delivers_last:
  "delivers ms cs \<Longrightarrow>
   foldl after_read v cs = (if messages cs = 0 then v else ms ! (messages cs - 1)) \<or>
   messages cs = length ms \<and> foldl after_read v cs = closed_result"
proof (induction arbitrary: v rule: delivers.induct)
  case (received ms cs m)
  then show ?case using received.IH [of m] by (cases "messages cs") (auto simp: after_read_def)
next
  case (busy ms cs)
  have "after_read v NoMsg = v" by (simp add: after_read_def)
  then show ?case using busy.IH [of v] by (simp split: if_splits)
qed simp_all

text \<open>After the last message there is only the closed channel.\<close>

lemma delivers_rest: "delivers ms (as @ bs) \<Longrightarrow> messages as = length ms \<Longrightarrow> delivers [] bs"
proof (induction as arbitrary: ms)
  case (Cons a as)
  show ?case
    using Cons.prems(1)
  proof (cases rule: delivers.cases)
    case (closed k)
    then have "as @ bs = replicate (k - 1) Closed" by (cases k) simp_all
    then show ?thesis using Cons closed delivers.closed by (cases a) auto
  next
    case (busy cs)
    then show ?thesis using Cons by simp
  next
    case (received ms' cs m)
    then show ?thesis using Cons by simp
  qed simp
qed simp

lemma after_close:
  assumes "delivers ms (as @ x # bs)" "messages as = length ms" "x \<noteq> NoMsg"
  shows "foldl after_read v (as @ x # bs) = closed_result"
proof -
  have "delivers [] (x # bs)" by (rule delivers_rest [OF assms(1,2)])
  then obtain k where "x # bs = replicate k Closed" using assms(3) by cases auto
  then show ?thesis using after_closed [of "foldl after_read v as" k] by (auto split: if_splits)
qed

section \<open>The loop\<close>

lemma iteration_reads:
  assumes "iteration ops c it (s, r) = (None, s', r')"
  shows "ls_vmWatchResult s' = after_read (ls_vmWatchResult s) (it_channel it)"
proof -
  have "ls_vmWatchResult s' = ls_vmWatchResult (fst (read_channel it s))"
    by (rule iteration_polled [OF assms iteration_completed [OF assms]])
  then show ?thesis by (simp add: read_channel_def after_read_def split: chan_read.split)
qed

lemma loop_reads:
  "loop ops c its (s, r) = (None, s', r') \<Longrightarrow>
   ls_vmWatchResult s' = foldl after_read (ls_vmWatchResult s) (map it_channel its)"
proof (induction its arbitrary: s r)
  case (Cons it its)
  obtain x s1 r1 where i: "iteration ops c it (s, r) = (x, s1, r1)" by (metis prod.collapse)
  then have "x = None" "loop ops c its (s1, r1) = (None, s', r')" using Cons.prems by (auto split: option.splits)
  then show ?case using Cons.IH [of s1 r1] iteration_reads [of ops c it s r s1 r1] i by simp
qed simp

lemma nth_alternating: "i < 2 * n \<Longrightarrow> concat (replicate n [a, b]) ! i = (if even i then a else b)"
proof (induction n arbitrary: i)
  case (Suc n)
  show ?case
  proof (cases "i < 2")
    case True
    then show ?thesis by (cases i) (auto simp: less_Suc_eq)
  next
    case False
    then obtain k where "i = Suc (Suc k)" by (metis Suc_1 add_2_eq_Suc le_Suc_ex not_less)
    then show ?thesis using Suc by simp
  qed
qed simp

text \<open>The status of the \<open>j\<close>th message of the goroutine.\<close>

lemma schedule_length:
  assumes "ms = rs @ [z]" "map vw_Status rs = concat (replicate 12 [Running, Failed])"
  shows "length ms = 25"
proof -
  have "length (map vw_Status rs) = 24" unfolding assms(2) by (simp add: length_concat sum_list_replicate)
  then show ?thesis using assms(1) by simp
qed

lemma schedule_status:
  assumes "ms = rs @ [\<lparr>vw_Status = Failed, vw_Error = e\<rparr>]" "map vw_Status rs = concat (replicate 12 [Running, Failed])"
    "j \<noteq> 0" "j \<le> 25"
  shows "vw_Status (ms ! (j - 1)) = (if odd j \<and> j < 25 then Running else Failed)"
proof (cases "j < 25")
  case True
  then have "j - 1 < length rs" using schedule_length [OF assms(1,2)] assms(1) by simp
  then have "vw_Status (ms ! (j - 1)) = map vw_Status rs ! (j - 1)" using assms(1) by (simp add: nth_append)
  then show ?thesis using nth_alternating [of "j - 1" 12 Running Failed] assms(2,3) True by simp
next
  case False
  then show ?thesis using schedule_length [OF assms(1,2)] assms(1,4) by (simp add: nth_append)
qed

section \<open>Properties\<close>

text \<open>C13: What the status shows of VMWatch.  Put together over their channel, the polling loop and the
  goroutine agree on the number of messages taken: VMWatch is shown as not running before the first, as
  running after each odd one and as failed after each even one, through all twelve attempts; after the
  twenty-fifth, beyond which there is none, it is shown as failed for good.\<close>

theorem vmWatch_as_shown:
  assumes "\<forall>wd. \<not> fst (we_shutdown wenv wd)" "wt_cycle w = 1" "wt_sent w = []"
    "delivers (wt_sent (executeVMWatch wenv hEnv w)) (map it_channel its)"
    "vmWatch_starts cfg" "loop ops c its (init_loop_state cfg c, r) = (None, s, r')"
  shows "messages (map it_channel its) \<le> 25 \<and> vw_Status (ls_vmWatchResult s) =
    (let j = messages (map it_channel its) in if j = 0 then NotRunning else if odd j \<and> j < 25 then Running else Failed)"
proof -
  define ms where "ms = wt_sent (executeVMWatch wenv hEnv w)"
  define j where "j = messages (map it_channel its)"
  obtain rs e where rs: "ms = rs @ [\<lparr>vw_Status = Failed, vw_Error = Some e\<rparr>]" "map vw_Status rs = concat (replicate 12 [Running, Failed])"
    using executeVMWatch_schedule [OF assms(1,2), of hEnv] assms(3) unfolding ms_def by auto
  have le: "j \<le> 25"
    using delivers_messages [OF assms(4)] schedule_length [OF rs] unfolding ms_def [symmetric] j_def by simp
  consider "j = 0" "ls_vmWatchResult s = ls_vmWatchResult (init_loop_state cfg c)"
    | "j \<noteq> 0" "ls_vmWatchResult s = ms ! (j - 1)" | "j = 25" "ls_vmWatchResult s = closed_result"
    using delivers_last [OF assms(4), of "ls_vmWatchResult (init_loop_state cfg c)"] schedule_length [OF rs]
    unfolding ms_def [symmetric] j_def loop_reads [OF assms(6), symmetric] by (metis (full_types))
  then have "vw_Status (ls_vmWatchResult s) = (if j = 0 then NotRunning else if odd j \<and> j < 25 then Running else Failed)"
    using schedule_status [OF rs _ le] assms(5) by cases (simp_all add: init_loop_state_def closed_result_def)
  then show ?thesis using le unfolding j_def Let_def by (rule conjI [rotated])
qed

text \<open>Two iterations of the sample run with VMWatch enabled, where each attempt fails to start: the first
  comes before the goroutine sends, the second takes the announcement of the first attempt.\<close>

definition watched_result :: handlerSettings where
  "watched_result = sample_result\<lparr>ps_VMWatchSettings := Some (zero_vmWatch\<lparr>vs_Enabled := True\<rparr>)\<rparr>"

definition failing_sent :: "VMWatchResult list" where
  "failing_sent = wt_sent (executeVMWatch failing_env sample_hEnv (init_watch () zero_vmWatch))"

definition watched_its :: "iter_env list" where
  "watched_its = [sample_iter 0, (sample_iter (5 * second))\<lparr>it_channel := Msg (hd failing_sent)\<rparr>]"

theorem vmWatch_as_shown_witness:
  "\<exists>s r'. loop (table_os 1) sample_loop_cfg watched_its
       (init_loop_state watched_result sample_loop_cfg, table_run two_instances) = (None, s, r') \<and>
     vw_Status (ls_vmWatchResult s) = Running"
proof -
  have sh: "\<forall>wd. \<not> fst (we_shutdown failing_env wd)" by (simp add: failing_env_def)
  have w: "wt_cycle (init_watch () zero_vmWatch) = 1" "wt_sent (init_watch () zero_vmWatch) = []"
    by (simp_all add: init_watch_def)
  have "failing_sent \<noteq> []"
    using executeVMWatch_schedule [OF sh w(1), of sample_hEnv] w(2) unfolding failing_sent_def by auto
  then have "delivers failing_sent [NoMsg, Msg (hd failing_sent)]"
    using delivers.received [OF delivers_nothing, of "hd failing_sent" "tl failing_sent"] by (simp add: delivers.busy)
  then have d: "delivers (wt_sent (executeVMWatch failing_env sample_hEnv (init_watch () zero_vmWatch))) (map it_channel watched_its)"
    unfolding failing_sent_def [symmetric] by (simp add: watched_its_def sample_iter_def)
  have v: "vmWatch_starts watched_result" by (simp add: vmWatch_starts_def watched_result_def vmWatchSettings_of_def)
  have "fst (loop (table_os 1) sample_loop_cfg watched_its (init_loop_state watched_result sample_loop_cfg, table_run two_instances)) = None"
    by (rule loop_keeps_polling [of _ "Errorf ''getwd''"])
      (simp_all add: sample_loop_cfg_def init_loop_cfg_def sample_enable_env_def sample_iter_def watched_its_def)
  then obtain s r' where l: "loop (table_os 1) sample_loop_cfg watched_its
      (init_loop_state watched_result sample_loop_cfg, table_run two_instances) = (None, s, r')"
    by (metis prod.collapse)
  have "messages (map it_channel watched_its) = 1" by (simp add: watched_its_def sample_iter_def)
  then have "vw_Status (ls_vmWatchResult s) = Running"
    using vmWatch_as_shown [OF sh w d v l] by simp
  then show ?thesis using l by blast
qed

text \<open>C37: The final verdict on VMWatch is lost.  When the retries are exhausted, the goroutine's last message
  says so and with which error, and then the channel is closed.  Once an iteration has read the channel
  after that message was taken, the status shows VMWatch as failed with an unknown error, in that
  iteration and in every later one.\<close>

theorem closed_channel_hides_error:
  assumes "\<forall>wd. \<not> fst (we_shutdown wenv wd)" "wt_cycle w = 1" "wt_sent w = []"
    "delivers (wt_sent (executeVMWatch wenv hEnv w)) (map it_channel (its @ it # its'))"
    "messages (map it_channel its) = 25" "it_channel it \<noteq> NoMsg" "lc_vmWatch c"
    "loop ops c (its @ it # its') (init_loop_state cfg c, r) = (None, s, r')"
  shows "(\<exists>e. last (wt_sent (executeVMWatch wenv hEnv w)) = \<lparr>vw_Status = Failed, vw_Error = Some e\<rparr> \<and>
        prefix exhausted_msg (Error e)) \<and>
    vm_substatuses c s =
      [NewSubstatus SubstatusKeyNameVMWatch StatusError ''VMWatch failed: VMWatch channel has closed, unknown error'']"
proof -
  obtain rs e where rs: "wt_sent (executeVMWatch wenv hEnv w) = rs @ [\<lparr>vw_Status = Failed, vw_Error = Some e\<rparr>]"
    "map vw_Status rs = concat (replicate 12 [Running, Failed])" "prefix exhausted_msg (Error e)"
    using executeVMWatch_schedule [OF assms(1,2), of hEnv] assms(3) by auto
  have "ls_vmWatchResult s = closed_result"
    unfolding loop_reads [OF assms(8)] map_append list.map
    by (rule after_close [OF assms(4) [unfolded map_append list.map] _ assms(6)])
      (simp add: assms(5) schedule_length [OF rs(1,2)])
  then show ?thesis
    using assms(7) rs(1,3) by (simp add: vm_substatuses_def closed_result_def GetMessage_def fmt_err_def)
qed

text \<open>The sample run with all messages taken one by one, and the iteration after that.\<close>

lemma delivers_all: "delivers ms (map Msg ms @ [Closed])"
  using delivers.closed [of 1] by (induction ms) (auto intro: delivers.received)

definition draining_its :: "iter_env list" where
  "draining_its = map (\<lambda>m. (sample_iter 0)\<lparr>it_channel := Msg m\<rparr>) failing_sent"

definition closed_it :: iter_env where
  "closed_it = (sample_iter 0)\<lparr>it_channel := Closed\<rparr>"

theorem closed_channel_hides_error_witness:
  "\<exists>c s r'. loop (table_os 1) c (draining_its @ [closed_it]) (init_loop_state watched_result c, table_run two_instances) = (None, s, r') \<and>
     vm_substatuses c s =
       [NewSubstatus SubstatusKeyNameVMWatch StatusError ''VMWatch failed: VMWatch channel has closed, unknown error'']"
proof -
  let ?c = "sample_loop_cfg\<lparr>lc_vmWatch := True\<rparr>"
  have sh: "\<forall>wd. \<not> fst (we_shutdown failing_env wd)" by (simp add: failing_env_def)
  have w: "wt_cycle (init_watch () zero_vmWatch) = 1" "wt_sent (init_watch () zero_vmWatch) = []"
    by (simp_all add: init_watch_def)
  obtain rs e where "failing_sent = rs @ [\<lparr>vw_Status = Failed, vw_Error = Some e\<rparr>]" "map vw_Status rs = concat (replicate 12 [Running, Failed])"
    using executeVMWatch_schedule [OF sh w(1), of sample_hEnv] w(2) unfolding failing_sent_def by auto
  then have n: "length failing_sent = 25" by (rule schedule_length)
  have ch: "map it_channel draining_its = map Msg failing_sent" "it_channel closed_it = Closed"
    by (simp_all add: draining_its_def closed_it_def)
  have d: "delivers (wt_sent (executeVMWatch failing_env sample_hEnv (init_watch () zero_vmWatch))) (map it_channel (draining_its @ [closed_it]))"
    unfolding failing_sent_def [symmetric] using ch delivers_all by simp
  have m: "messages (map it_channel draining_its) = 25"
    unfolding ch(1) using n by (simp add: messages_def filter_map comp_def)
  have "fst (loop (table_os 1) ?c (draining_its @ [closed_it]) (init_loop_state watched_result ?c, table_run two_instances)) = None"
    by (rule loop_keeps_polling [of _ "Errorf ''getwd''"])
      (auto simp: sample_loop_cfg_def init_loop_cfg_def sample_enable_env_def sample_iter_def draining_its_def closed_it_def)
  then obtain s r' where l: "loop (table_os 1) ?c (draining_its @ [closed_it]) (init_loop_state watched_result ?c, table_run two_instances) = (None, s, r')"
    by (metis prod.collapse)
  have "vm_substatuses ?c s =
      [NewSubstatus SubstatusKeyNameVMWatch StatusError ''VMWatch failed: VMWatch channel has closed, unknown error'']"
    using closed_channel_hides_error [OF sh w d m _ _ l] ch(2) by simp
  then show ?thesis using l by blast
qed

end
