(* ===== verification/Webserver.thy ===== *)
theory Webserver
  imports Health
begin

text \<open>
  The web server of the integration tests (\<open>integration-test/webserver/main.go\<close>): it answers the
  requests to \<open>/health\<close> one after the other as its command line says.  The network and the
  \<open>http\<close> package's servers are not modelled: an answer is its final status code, from the one given to
  \<open>WriteHeader\<close>, and the body.
\<close>

section \<open>Flags\<close>

definition ResponseBodyKeyApplicationHealthState :: string where
  "ResponseBodyKeyApplicationHealthState = ''ApplicationHealthState''"
definition ResponseBodyKeyCustomMetrics :: string where "ResponseBodyKeyCustomMetrics = ''CustomMetrics''"
definition ApplicationHealthStateInvalidFlag :: string where "ApplicationHealthStateInvalidFlag = ''i''"
definition ResponseTimeoutFlag :: string where "ResponseTimeoutFlag = ''t''"
definition ResponseTimeoutInSeconds :: int where "ResponseTimeoutInSeconds = 35"
definition CustomMetricsValidFlag :: string where "CustomMetricsValidFlag = ''valid''"
definition CustomMetricsInvalidFlag :: string where "CustomMetricsInvalidFlag = ''invalid''"
definition CustomMetricsNilFlag :: string where "CustomMetricsNilFlag = ''nil''"
definition CustomMetricsEmptyFlag :: string where "CustomMetricsEmptyFlag = ''empty''"
definition CustomMetricsEmptyObjectFlag :: string where "CustomMetricsEmptyObjectFlag = ''emptyobj''"

definition CustomMetricsValidValue :: string where
  \<open>CustomMetricsValidValue = ''{"rollingUpgradePolicy": { "phase": 2, "doNotUpgrade": true, "dummy": "yes" } }''\<close>
definition CustomMetricsInvalidValue :: string where
  \<open>CustomMetricsInvalidValue = ''[ "hello", "world" ]''\<close>
definition CustomMetricsEmptyValue :: string where "CustomMetricsEmptyValue = []"
definition CustomMetricsEmptyObjectValue :: string where "CustomMetricsEmptyObjectValue = ''{}''"

definition healthStateFlagMapping :: "(string \<times> string) list" where
  "healthStateFlagMapping = [(''h'', ''Healthy''), (''u'', ''Unhealthy'')]"

text \<open>The conversion \<open>[]rune(s)\<close>, each rune given by its encoding.\<close>

function runes :: "string \<Rightarrow> string list" where
  "runes [] = []"
| "runes (c # s) =
     (let n = utf8_len (c # s) in
      if n = 0 then replacement # runes s else take n (c # s) # runes (drop (n - 1) s))"
  by pat_completeness auto
termination by (relation "measure length") auto

section \<open>The answer to one request\<close>

definition getHealthState :: "string \<Rightarrow> string" where
  "getHealthState flag = (case map_of healthStateFlagMapping flag of Some s \<Rightarrow> s | None \<Rightarrow> [])"

text \<open>\<open>fmt.Sscan\<close> of a single rune into an int: a decimal digit is its value, anything else leaves zero.\<close>

definition HandleStatusCodeFlag :: "string \<Rightarrow> int" where
  "HandleStatusCodeFlag flag =
     (case flag of [c] \<Rightarrow> if is_digit c then int (digit_val c) * 100 else 0 | _ \<Rightarrow> 0)"

definition ApplicationHealthStateFlagPresent :: "string list \<Rightarrow> string" where
  "ApplicationHealthStateFlagPresent flags =
     (let rs = runes (hd flags) in if length rs > 1 then rs ! 1 else [])"

definition CustomMetricsFlagPresent :: "string list \<Rightarrow> string" where
  "CustomMetricsFlagPresent flags = (if length flags = 2 then flags ! 1 else [])"

definition HandleApplicationHealthStateFlag :: "string \<Rightarrow> string \<times> string" where
  "HandleApplicationHealthStateFlag flag =
     (if flag = ApplicationHealthStateInvalidFlag then (ResponseBodyKeyApplicationHealthState, ''Hello!'')
      else (ResponseBodyKeyApplicationHealthState, getHealthState flag))"

definition HandleCustomMetricFlag :: "string \<Rightarrow> string \<times> json" where
  "HandleCustomMetricFlag flag =
     (if flag = CustomMetricsValidFlag then (ResponseBodyKeyCustomMetrics, JStr CustomMetricsValidValue)
      else if flag = CustomMetricsInvalidFlag then (ResponseBodyKeyCustomMetrics, JStr CustomMetricsInvalidValue)
      else if flag = CustomMetricsNilFlag then (ResponseBodyKeyCustomMetrics, JNull)
      else if flag = CustomMetricsEmptyFlag then (ResponseBodyKeyCustomMetrics, JStr CustomMetricsEmptyValue)
      else if flag = CustomMetricsEmptyObjectFlag then (ResponseBodyKeyCustomMetrics, JStr CustomMetricsEmptyObjectValue)
      else (''Hello'', JStr ''world''))"

text \<open>The parts of the response body, and whether the server sleeps before it answers.\<close>

definition health_member :: "string list \<Rightarrow> (string \<times> json) list \<times> bool" where
  "health_member flags =
     (let f = ApplicationHealthStateFlagPresent flags in
      if f = [] then ([], False)
      else if f = ResponseTimeoutFlag then ([], True)
      else ([case HandleApplicationHealthStateFlag f of (k, v) \<Rightarrow> (k, JStr v)], False))"

definition metrics_member :: "string list \<Rightarrow> (string \<times> json) list" where
  "metrics_member flags =
     (let f = CustomMetricsFlagPresent flags in if f = [] then [] else [HandleCustomMetricFlag f])"

text \<open>Status code, response body and whether it slept; an empty first part is an index out of range.\<close>

definition HandleFlag :: "string \<Rightarrow> (int \<times> (string \<times> json) list \<times> bool) result" where
  "HandleFlag flagStr =
     (if flagStr = [] then Inr (200, [], False)
      else
        let flags = Split flagStr (CHR ''-''); rs = runes (hd flags) in
        if rs = [] then Inl (RuntimePanic ''index out of range [0] with length 0'')
        else (case health_member flags of
                (hs, slept) \<Rightarrow> Inr (HandleStatusCodeFlag (rs ! 0), hs @ metrics_member flags, slept)))"

record http_answer =
  ha_code :: int
  ha_body :: string
  ha_slept :: bool

text \<open>\<open>WriteHeader\<close> sends a code from 100 on, other than 101, as an informational answer at once; the write of
  the body then sends the final answer with code 200.\<close>

definition final_code :: "int \<Rightarrow> int" where
  "final_code code = (if 100 \<le> code \<and> code \<le> 199 \<and> code \<noteq> 101 then 200 else code)"

text \<open>The answer and the arguments left; \<open>WriteHeader\<close> refuses codes that do not have three digits.\<close>

definition healthHandler :: "string list \<Rightarrow> http_answer result \<times> string list" where
  "healthHandler arguments =
     (case arguments of
        [] \<Rightarrow> (Inl (RuntimePanic ''index out of range [0] with length 0''), [])
      | a # rest \<Rightarrow>
          (case HandleFlag a of
             Inl e \<Rightarrow> (Inl e, arguments)
           | Inr (code, body, slept) \<Rightarrow>
               if code < 100 \<or> 999 < code then (Inl (RuntimePanic (''invalid WriteHeader code '' @ Itoa code)), rest)
               else (Inr \<lparr>ha_code = final_code code, ha_body = marshal_map body, ha_slept = slept\<rparr>, rest)))"

definition getSecurityProtocolVersion :: "string \<Rightarrow> 16 word" where
  "getSecurityProtocolVersion s =
     (if s = ''ssl3.0'' then 0x0300 else if s = ''tls1.0'' then 0x0301 else if s = ''tls1.1'' then 0x0302
      else if s = ''tls1.2'' then 0x0303 else 0x0304)"

text \<open>The two servers of \<open>main\<close>: they share the handler and differ in their address; the second accepts
  exactly one version of TLS.\<close>

record server =
  sv_Addr :: string
  sv_tls :: "(16 word \<times> 16 word) option"  \<comment> \<open>the least and the greatest version accepted\<close>

definition httpServer :: server where
  "httpServer = \<lparr>sv_Addr = '':8080'', sv_tls = None\<rparr>"

definition httpsServer :: "string \<Rightarrow> server" where
  "httpsServer securityProtocol = \<lparr>sv_Addr = '':4430'',
     sv_tls = Some (getSecurityProtocolVersion securityProtocol, getSecurityProtocolVersion securityProtocol)\<rparr>"

text \<open>The handler of \<open>/health\<close>: the answer, the arguments left and whether the servers are shut down.\<close>

definition start_arguments :: "string \<Rightarrow> string list \<times> bool" where
  "start_arguments args = (let arguments = Split args (CHR '','') in (arguments, length arguments > 0))"

definition on_health :: "bool \<Rightarrow> string list \<Rightarrow> http_answer result \<times> string list \<times> bool" where
  "on_health shouldExitOnEmptyArgs arguments =
     (case healthHandler arguments of
        (Inl e, rest) \<Rightarrow> (Inl e, rest, False)
      | (Inr a, rest) \<Rightarrow> (Inr a, rest, shouldExitOnEmptyArgs \<and> rest = []))"

text \<open>A number of requests served one after the other, until the servers are shut down.\<close>

fun serve :: "nat \<Rightarrow> bool \<Rightarrow> string list \<Rightarrow> http_answer result list \<times> string list" where
  "serve 0 shouldExit arguments = ([], arguments)"
| "serve (Suc k) shouldExit arguments =
     (case on_health shouldExit arguments of
        (a, rest, True) \<Rightarrow> ([a], rest)
      | (a, rest, False) \<Rightarrow> (case serve k shouldExit rest of (as, left) \<Rightarrow> (a # as, left)))"

section \<open>Facts\<close>

text \<open>Flags that can be answered are answered in their order, and then the servers are shut down: further
  requests find none.\<close>

definition answer :: "string \<Rightarrow> http_answer" where
  "answer a = (case HandleFlag a of
     Inr (code, body, slept) \<Rightarrow> \<lparr>ha_code = final_code code, ha_body = marshal_map body, ha_slept = slept\<rparr>)"

definition answerable :: "string \<Rightarrow> bool" where
  "answerable a \<longleftrightarrow> (case HandleFlag a of Inl e \<Rightarrow> False | Inr (code, body, slept) \<Rightarrow> 100 \<le> code \<and> code \<le> 999)"

lemma healthHandler_answerable:
  "answerable a \<Longrightarrow> healthHandler (a # rest) = (Inr (answer a), rest)"
  by (auto simp: healthHandler_def answerable_def answer_def split: sum.splits)

lemma serve_all:
  "arguments \<noteq> [] \<Longrightarrow> list_all answerable arguments \<Longrightarrow> length arguments \<le> k \<Longrightarrow>
   serve k True arguments = (map (Inr \<circ> answer) arguments, [])"
proof (induction arguments arbitrary: k)
  case (Cons a rest)
  then obtain j where j: "k = Suc j" by (cases k) auto
  show ?case
    using Cons by (cases "rest = []") (simp_all add: j on_health_def healthHandler_answerable)
qed simp

text \<open>\<open>Split\<close> yields at least one part, so that the servers always stop after their last argument, also when
  they are given none.\<close>

lemma start_arguments_exit: "snd (start_arguments args)"
  by (simp add: start_arguments_def)

lemma server_serves_flags:
  assumes "flags \<noteq> []" "\<And>w. w \<in> set flags \<Longrightarrow> CHR '','' \<notin> set w \<and> answerable w" "length flags \<le> k"
  shows "(case start_arguments (Join flags '','') of (arguments, shouldExit) \<Rightarrow> serve k shouldExit arguments) =
    (map (Inr \<circ> answer) flags, [])"
proof -
  have "Split (Join flags '','') (CHR '','') = flags" by (rule Split_Join) (use assms in auto)
  then show ?thesis
    using serve_all [of flags k] assms by (simp add: start_arguments_def Let_def list_all_iff)
qed

lemma health_member_cases:
  "fst (health_member flags) = [] \<and> ApplicationHealthStateFlagPresent flags \<in> {[], ''t''} \<or>
   (\<exists>v. fst (health_member flags) = [(''ApplicationHealthState'', JStr v)] \<and>
      v = (let f = ApplicationHealthStateFlagPresent flags in
           if f = ''h'' then Healthy else if f = ''u'' then Unhealthy else if f = ''i'' then ''Hello!'' else []))"
  by (simp add: health_member_def Let_def HandleApplicationHealthStateFlag_def getHealthState_def healthStateFlagMapping_def
      ResponseTimeoutFlag_def ApplicationHealthStateInvalidFlag_def ResponseBodyKeyApplicationHealthState_def
      Healthy_def Unhealthy_def)

lemma metrics_member_cases:
  "metrics_member flags \<in> insert [] ((\<lambda>v. [(''CustomMetrics'', v)]) `
     {JStr CustomMetricsValidValue, JStr CustomMetricsInvalidValue, JNull, JStr CustomMetricsEmptyValue, JStr CustomMetricsEmptyObjectValue})
   \<union> {[(''Hello'', JStr ''world'')]}"
  by (simp add: metrics_member_def Let_def HandleCustomMetricFlag_def ResponseBodyKeyCustomMetrics_def)

definition metric_values :: "json set" where
  "metric_values = {JStr CustomMetricsValidValue, JStr CustomMetricsInvalidValue, JNull, JStr CustomMetricsEmptyValue,
     JStr CustomMetricsEmptyObjectValue}"

lemma metric_values_wf: "x \<in> metric_values \<Longrightarrow> wf_json x \<and> depth x \<le> 9999 \<and> sort_keys x = x \<and> (x = JNull \<or> (\<exists>t. x = JStr t))"
proof -
  have "valid_utf8 CustomMetricsValidValue" "valid_utf8 CustomMetricsInvalidValue" "valid_utf8 CustomMetricsEmptyValue"
    "valid_utf8 CustomMetricsEmptyObjectValue"
    by code_simp+
  then show "x \<in> metric_values \<Longrightarrow> ?thesis" by (auto simp: metric_values_def)
qed

lemma member_decoding:
  "dec_response_member d (''ApplicationHealthState'', JStr v) = ((fst d)\<lparr>pr_ApplicationHealthState := v\<rparr>, snd d)"
  "x = JNull \<or> (\<exists>t. x = JStr t) \<Longrightarrow> \<exists>t. dec_response_member d (''CustomMetrics'', x) = ((fst d)\<lparr>pr_CustomMetrics := t\<rparr>, snd d)"
  "dec_response_member d (''Hello'', x) = d"
proof -
  have f: "is_field ''applicationHealthState'' ''ApplicationHealthState''" "\<not> is_field ''applicationHealthState'' ''CustomMetrics''"
    "is_field ''customMetrics'' ''CustomMetrics''" "\<not> is_field ''applicationHealthState'' ''Hello''" "\<not> is_field ''customMetrics'' ''Hello''"
    by code_simp+
  show "dec_response_member d (''ApplicationHealthState'', JStr v) = ((fst d)\<lparr>pr_ApplicationHealthState := v\<rparr>, snd d)"
    by (cases d) (simp add: dec_response_member_def Let_def f dec_string_def keep_first_def split: option.splits)
  show "\<exists>t. dec_response_member d (''CustomMetrics'', x) = ((fst d)\<lparr>pr_CustomMetrics := t\<rparr>, snd d)"
    if "x = JNull \<or> (\<exists>t. x = JStr t)"
    using that
    by (cases d, intro exI [of _ "case x of JStr t \<Rightarrow> t | _ \<Rightarrow> pr_CustomMetrics (fst d)"])
      (auto simp: dec_response_member_def Let_def f dec_string_def keep_first_def split: option.splits)
  show "dec_response_member d (''Hello'', x) = d"
    by (cases d) (simp add: dec_response_member_def Let_def f)
qed

definition body_of :: "string option \<Rightarrow> (string \<times> json) list \<Rightarrow> (string \<times> json) list" where
  "body_of h ms = (case h of None \<Rightarrow> [] | Some v \<Rightarrow> [(''ApplicationHealthState'', JStr v)]) @ ms"

lemma body_sorted:
  assumes "ms = [] \<or> (\<exists>x. ms = [(''CustomMetrics'', x)] \<and> sort_keys x = x) \<or> ms = [(''Hello'', JStr ''world'')]"
  shows "sort_keys (JObj (body_of h ms)) = JObj (body_of h ms)"
proof -
  have "''ApplicationHealthState'' \<le> ''CustomMetrics''" "''ApplicationHealthState'' \<le> ''Hello''" by code_simp+
  then show ?thesis using assms by (cases h) (auto simp: body_of_def)
qed

lemma response_read:
  assumes "ms = [] \<or> (\<exists>x \<in> metric_values. ms = [(''CustomMetrics'', x)]) \<or> ms = [(''Hello'', JStr ''world'')]"
    "\<forall>v. h = Some v \<longrightarrow> valid_utf8 v"
  shows "snd (unmarshal_response (marshal_map (body_of h ms))) = None \<and>
    pr_ApplicationHealthState (fst (unmarshal_response (marshal_map (body_of h ms)))) = (case h of None \<Rightarrow> [] | Some v \<Rightarrow> v)"
proof -
  have n: "valid_utf8 ''ApplicationHealthState''" "valid_utf8 ''CustomMetrics''" "valid_utf8 ''Hello''" "valid_utf8 ''world''"
    by code_simp+
  have wf: "wf_json (JObj (body_of h ms))" "depth (JObj (body_of h ms)) \<le> maxNestingDepth"
    using assms n metric_values_wf by (auto simp: body_of_def maxNestingDepth_def split: option.splits)
  have "sort_keys (JObj (body_of h ms)) = JObj (body_of h ms)"
    by (rule body_sorted) (use assms(1) metric_values_wf in blast)
  then have "unmarshal_response (marshal_map (body_of h ms)) = foldl dec_response_member (zero_response, None) (body_of h ms)"
    using parse_marshal(1) [OF wf] by (simp add: unmarshal_response_def marshal_map_def dec_struct_def)
  moreover obtain d where d: "foldl dec_response_member (zero_response, None) (body_of h ms) = foldl dec_response_member d ms"
    "snd d = None" "pr_ApplicationHealthState (fst d) = (case h of None \<Rightarrow> [] | Some v \<Rightarrow> v)"
    by (cases h) (simp_all add: body_of_def member_decoding(1) zero_response_def)
  moreover have "\<exists>t. foldl dec_response_member d ms = d \<or> foldl dec_response_member d ms = ((fst d)\<lparr>pr_CustomMetrics := t\<rparr>, snd d)"
    using assms(1) member_decoding(2,3) [where d = d] metric_values_wf by auto
  ultimately show ?thesis by auto
qed

text \<open>What the server answers, in terms of its flags.\<close>

definition flag_state :: "string \<Rightarrow> string" where
  "flag_state f = (if f = ''h'' then Healthy else if f = ''u'' then Unhealthy else if f = ''i'' then ''Hello!'' else [])"

lemma flag_state_valid: "valid_utf8 (flag_state f)"
proof -
  have "valid_utf8 Healthy" "valid_utf8 Unhealthy" "valid_utf8 ''Hello!''" by code_simp+
  then show ?thesis by (simp add: flag_state_def)
qed

lemma status_code_hundreds: "\<exists>k. final_code (HandleStatusCodeFlag s) = 100 * k"
proof -
  have "\<exists>k. HandleStatusCodeFlag s = 100 * k"
    by (auto simp: HandleStatusCodeFlag_def split: list.splits intro: exI [of _ "int (digit_val _)"])
  moreover have "(200 :: int) = 100 * 2" by simp
  ultimately show ?thesis unfolding final_code_def by metis
qed

lemma answer_body:
  assumes "healthHandler (flag # rest) = (Inr a, rest')"
  obtains h ms where "ha_body a = marshal_map (body_of h ms)" "rest' = rest" "\<exists>k. ha_code a = 100 * k"
    "(let f = ApplicationHealthStateFlagPresent (Split flag (CHR ''-'')) in h = None \<and> f \<in> {[], ''t''} \<or> h = Some (flag_state f))"
    "ms = [] \<or> (\<exists>x \<in> metric_values. ms = [(''CustomMetrics'', x)]) \<or> ms = [(''Hello'', JStr ''world'')]"
proof (cases "flag = []")
  case True
  then have "ha_body a = marshal_map (body_of None [])" "rest' = rest" "ha_code a = 100 * 2"
    using assms by (auto simp: healthHandler_def HandleFlag_def body_of_def final_code_def)
  then show thesis using True by (intro that [of None "[]"]) (auto simp: ApplicationHealthStateFlagPresent_def)
next
  case False
  let ?flags = "Split flag (CHR ''-'')"
  obtain hs sl where hs: "health_member ?flags = (hs, sl)" by force
  have a: "ha_body a = marshal_map (hs @ metrics_member ?flags)" "rest' = rest"
    "ha_code a = final_code (HandleStatusCodeFlag (runes (hd ?flags) ! 0))"
    using assms False by (auto simp: healthHandler_def HandleFlag_def Let_def hs split: if_splits)
  have ms: "metrics_member ?flags = [] \<or> (\<exists>x \<in> metric_values. metrics_member ?flags = [(''CustomMetrics'', x)]) \<or>
      metrics_member ?flags = [(''Hello'', JStr ''world'')]"
    using metrics_member_cases [of ?flags] unfolding metric_values_def by blast
  from health_member_cases [of ?flags] hs
  consider "hs = []" "ApplicationHealthStateFlagPresent ?flags \<in> {[], ''t''}"
    | "hs = [(''ApplicationHealthState'', JStr (flag_state (ApplicationHealthStateFlagPresent ?flags)))]"
    by (auto simp: flag_state_def Let_def)
  then show thesis
  proof cases
    case 1
    then show thesis using a ms status_code_hundreds by (intro that [of None "metrics_member ?flags"]) (simp_all add: body_of_def)
  next
    case 2
    then show thesis
      using a ms status_code_hundreds
      by (intro that [of "Some (flag_state (ApplicationHealthStateFlagPresent ?flags))" "metrics_member ?flags"])
        (simp_all add: body_of_def)
  qed
qed

lemma probe_of_reply:
  assumes "pe_request env = None" "pe_exchange env = Reply code loc (Inr b)" "200 \<le> code"
  shows "pr_ApplicationHealthState (fst (fst (http_evaluate env))) =
    (if code \<le> 299 \<and> snd (unmarshal_response b) = None \<and> allowedHealthStatuses (pr_ApplicationHealthState (fst (unmarshal_response b)))
     then pr_ApplicationHealthState (fst (unmarshal_response b)) else Unknown)"
proof -
  obtain p e where u: "unmarshal_response b = (p, e)" by force
  show ?thesis
    using assms
    by (cases e) (auto simp: http_evaluate_def HttpClient_Do_def noRedirect_def u fail_state_def validateApplicationHealthState_def
        Let_def is_redirect_def)
qed

section \<open>Properties\<close>

text \<open>C35: The test server and the probe agree.  Whatever flag the server is given, if it answers with a
  final status code, the HTTP probe of the extension draws from the answer the state the flag stands for:
  the state is Healthy or Unhealthy exactly if the code is 200 and the flag says \<open>h\<close> or \<open>u\<close>, whatever
  custom metrics accompany it, and Unknown in every other case.\<close>

theorem webserver_drives_probe:
  assumes "healthHandler (flag # rest) = (Inr a, rest')" "200 \<le> ha_code a" "pe_request env = None"
    "pe_exchange env = Reply (ha_code a) loc (Inr (ha_body a))"
  shows "rest' = rest \<and> pr_ApplicationHealthState (fst (fst (http_evaluate env))) =
    (let f = ApplicationHealthStateFlagPresent (Split flag (CHR ''-'')) in
     if ha_code a = 200 \<and> f = ''h'' then Healthy else if ha_code a = 200 \<and> f = ''u'' then Unhealthy else Unknown)"
proof -
  obtain h ms where a: "ha_body a = marshal_map (body_of h ms)" "rest' = rest" "\<exists>k. ha_code a = 100 * k"
    and h: "let f = ApplicationHealthStateFlagPresent (Split flag (CHR ''-'')) in h = None \<and> f \<in> {[], ''t''} \<or> h = Some (flag_state f)"
    and ms: "ms = [] \<or> (\<exists>x \<in> metric_values. ms = [(''CustomMetrics'', x)]) \<or> ms = [(''Hello'', JStr ''world'')]"
    by (rule answer_body [OF assms(1)])
  have "\<forall>v. h = Some v \<longrightarrow> valid_utf8 v" using h flag_state_valid by (auto simp: Let_def)
  note read = response_read [OF ms this, folded a(1)]
  have two: "ha_code a \<le> 299 \<longleftrightarrow> ha_code a = 200" using a(3) assms(2) by auto
  have bad: "\<not> allowedHealthStatuses []" "\<not> allowedHealthStatuses ''Hello!''" "allowedHealthStatuses Healthy" "allowedHealthStatuses Unhealthy"
    by (simp_all add: allowedHealthStatuses_def state_defs)
  show ?thesis
    using a(2) h bad unfolding probe_of_reply [OF assms(3,4,2)] two
    by (auto simp: read flag_state_def Let_def)
qed

definition sample_exchange :: "http_answer \<Rightarrow> probe_env" where
  "sample_exchange a = \<lparr>pe_dial = DialTcp, pe_request = None, pe_exchange = Reply (ha_code a) [] (Inr (ha_body a))\<rparr>"

theorem webserver_drives_probe_witness:
  "\<exists>a. healthHandler [''2u-valid'', ''2h''] = (Inr a, [''2h'']) \<and>
     pr_ApplicationHealthState (fst (fst (http_evaluate (sample_exchange a)))) = Unhealthy"
proof -
  have e: "(case fst (healthHandler [''2u-valid'', ''2h'']) of Inr a \<Rightarrow> ha_code a = 200 | Inl e \<Rightarrow> False)" by code_simp
  then obtain a rest' where a: "healthHandler [''2u-valid'', ''2h''] = (Inr a, rest')" "ha_code a = 200"
    by (cases "healthHandler [''2u-valid'', ''2h'']") (auto split: sum.splits)
  have "ApplicationHealthStateFlagPresent (Split ''2u-valid'' (CHR ''-'')) = ''u''" by code_simp
  then show ?thesis
    using webserver_drives_probe [OF a(1), of "sample_exchange a" "[]"] a by (simp add: sample_exchange_def)
qed

end
