(* ===== verification/Logging.thy ===== *)
theory Logging
  imports Prelude
begin

text \<open>
  Package \<open>pkg/logging\<close>: the handler the program's log lines go through, over the text handler of
  \<open>log/slog\<close>, and the logger that discards everything, which the sequence number manager hands to
  the platform library.  A log line is the list of its keys with the text of their values; how the
  text handler quotes them is left out.
\<close>

section \<open>The text handler\<close>

type_synonym attr = "string \<times> string"

text \<open>The levels of \<open>log/slog\<close>.\<close>

datatype slog_level = LevelDebug | LevelInfo | LevelWarn | LevelError

fun level_number :: "slog_level \<Rightarrow> int" where
  "level_number LevelDebug = -4"
| "level_number LevelInfo = 0"
| "level_number LevelWarn = 4"
| "level_number LevelError = 8"

fun Level_String :: "slog_level \<Rightarrow> string" where
  "Level_String LevelDebug = ''DEBUG''"
| "Level_String LevelInfo = ''INFO''"
| "Level_String LevelWarn = ''WARN''"
| "Level_String LevelError = ''ERROR''"

record slog_record =
  sr_Time :: string
  sr_Level :: slog_level
  sr_Message :: string
  sr_attrs :: "attr list"

text \<open>The logger asks the handler before it makes a record; without a \<open>Level\<close> among the options that
  \<open>NewExtensionSlogHandler\<close> passes, the least level is \<open>LevelInfo\<close>.\<close>

definition Enabled :: "slog_level \<Rightarrow> bool" where
  "Enabled l \<longleftrightarrow> level_number LevelInfo \<le> level_number l"

definition MessageKey :: string where "MessageKey = ''msg''"

text \<open>The function \<open>NewExtensionSlogHandler\<close> gives to the text handler: an empty message is dropped.\<close>

definition ReplaceAttr :: "string list \<Rightarrow> attr \<Rightarrow> attr option" where
  "ReplaceAttr groups a = (if fst a = MessageKey \<and> snd a = [] then None else Some a)"

text \<open>The attributes given by \<open>With\<close>, already prefixed with the groups open then, and the open groups.\<close>

record text_handler =
  th_attrs :: "attr list"
  th_groups :: "string list"

definition append_attr :: "string list \<Rightarrow> attr \<Rightarrow> attr list" where
  "append_attr groups a =
     (case ReplaceAttr groups a of None \<Rightarrow> [] | Some (k, v) \<Rightarrow> [(Join (groups @ [k]) ''.'', v)])"

definition append_attrs :: "string list \<Rightarrow> attr list \<Rightarrow> attr list" where
  "append_attrs groups as = concat (map (append_attr groups) as)"

definition TextHandler_Handle :: "text_handler \<Rightarrow> slog_record \<Rightarrow> attr list" where
  "TextHandler_Handle h r =
     append_attr [] (''time'', sr_Time r) @ append_attr [] (''level'', Level_String (sr_Level r))
     @ append_attr [] (MessageKey, sr_Message r) @ th_attrs h @ append_attrs (th_groups h) (sr_attrs r)"

section \<open>The handler of the extension\<close>

definition NewExtensionSlogHandler :: text_handler where
  "NewExtensionSlogHandler = \<lparr>th_attrs = [], th_groups = []\<rparr>"

definition Handle :: "text_handler \<Rightarrow> slog_record \<Rightarrow> attr list" where
  "Handle h r =
     (let msg = sr_Message r in
      TextHandler_Handle h
        (if msg \<noteq> [] then r\<lparr>sr_Message := [], sr_attrs := sr_attrs r @ [(''event'', msg)]\<rparr> else r))"

text \<open>\<open>Logger.Log\<close>: the line that is written, if any.\<close>

definition logged :: "text_handler \<Rightarrow> slog_record \<Rightarrow> attr list option" where
  "logged h r = (if Enabled (sr_Level r) then Some (Handle h r) else None)"

definition WithAttrs :: "text_handler \<Rightarrow> attr list \<Rightarrow> text_handler" where
  "WithAttrs h as = h\<lparr>th_attrs := th_attrs h @ append_attrs (th_groups h) as\<rparr>"

definition WithGroup :: "text_handler \<Rightarrow> string \<Rightarrow> text_handler" where
  "WithGroup h name = h\<lparr>th_groups := th_groups h @ [name]\<rparr>"

section \<open>The discarding logger\<close>

text \<open>\<open>Log\<close> of the logger that discards everything.\<close>

definition nop_Log :: "go_error option" where "nop_Log = None"

definition nop_method :: "unit result" where
  "nop_method = (case nop_Log of Some e \<Rightarrow> Inl (RuntimePanic (Error e)) | None \<Rightarrow> Inr ())"

definition NopLogger_Info :: "string \<Rightarrow> string list \<Rightarrow> unit result" where "NopLogger_Info format v = nop_method"
definition NopLogger_Warn :: "string \<Rightarrow> string list \<Rightarrow> unit result" where "NopLogger_Warn format v = nop_method"
definition NopLogger_Error :: "string \<Rightarrow> string list \<Rightarrow> unit result" where "NopLogger_Error format v = nop_method"
definition NopLogger_ErrorFromStream :: "string \<Rightarrow> string \<Rightarrow> unit result" where
  "NopLogger_ErrorFromStream pre stream = nop_method"
definition NopLogger_WarnFromStream :: "string \<Rightarrow> string \<Rightarrow> unit result" where
  "NopLogger_WarnFromStream pre stream = nop_method"
definition NopLogger_InfoFromStream :: "string \<Rightarrow> string \<Rightarrow> unit result" where
  "NopLogger_InfoFromStream pre stream = nop_method"
definition NopLogger_Close :: "unit result" where "NopLogger_Close = nop_method"

lemmas NopLogger_defs = NopLogger_Info_def NopLogger_Warn_def NopLogger_Error_def NopLogger_ErrorFromStream_def
  NopLogger_WarnFromStream_def NopLogger_InfoFromStream_def NopLogger_Close_def nop_method_def nop_Log_def

lemma NopLogger_silent:
  "NopLogger_Info f v = Inr ()" "NopLogger_Warn f v = Inr ()" "NopLogger_Error f v = Inr ()"
  "NopLogger_ErrorFromStream p s = Inr ()" "NopLogger_WarnFromStream p s = Inr ()" "NopLogger_InfoFromStream p s = Inr ()"
  "NopLogger_Close = Inr ()"
  by (simp_all add: NopLogger_defs)

section \<open>Derived loggers\<close>

text \<open>What \<open>Logger.With\<close> and \<open>Logger.WithGroup\<close> do to the handler.\<close>

datatype with_call = With "attr list" | Group string

fun with_handler :: "text_handler \<Rightarrow> with_call \<Rightarrow> text_handler" where
  "with_handler h (With as) = WithAttrs h as"
| "with_handler h (Group g) = (if g = [] then h else WithGroup h g)"

definition derived :: "with_call list \<Rightarrow> text_handler" where
  "derived cs = foldl with_handler NewExtensionSlogHandler cs"

text \<open>The reference: the attributes of the chain, each under the groups opened before it, then those of
  the record under all groups.  An attribute is shown unless it has the key \<open>msg\<close> and no text.\<close>

definition shown_attrs :: "string list \<Rightarrow> attr list \<Rightarrow> attr list" where
  "shown_attrs gs as = [(Join (gs @ [k]) ''.'', v). (k, v) \<leftarrow> as, (k, v) \<noteq> (''msg'', [])]"

fun chain_line :: "string list \<Rightarrow> with_call list \<Rightarrow> attr list \<Rightarrow> attr list" where
  "chain_line gs [] as = shown_attrs gs as"
| "chain_line gs (With as # cs) bs = shown_attrs gs as @ chain_line gs cs bs"
| "chain_line gs (Group g # cs) bs = chain_line (if g = [] then gs else gs @ [g]) cs bs"

lemma shown_attrs_simps [simp]:
  "shown_attrs gs [] = []" "shown_attrs gs (as @ bs) = shown_attrs gs as @ shown_attrs gs bs"
  by (simp_all add: shown_attrs_def)

lemma append_attrs_shown: "append_attrs gs as = shown_attrs gs as"
  by (induction as) (auto simp: append_attrs_def append_attr_def ReplaceAttr_def MessageKey_def shown_attrs_def)

lemma with_handler_line:
  "th_attrs (foldl with_handler h cs) @ shown_attrs (th_groups (foldl with_handler h cs)) bs =
     th_attrs h @ chain_line (th_groups h) cs bs"
proof (induction cs arbitrary: h)
  case (Cons c cs)
  then show ?case by (cases c) (simp_all add: WithAttrs_def WithGroup_def append_attrs_shown)
qed simp

fun open_groups :: "with_call list \<Rightarrow> string list" where
  "open_groups [] = []"
| "open_groups (With as # cs) = open_groups cs"
| "open_groups (Group g # cs) = (if g = [] then [] else [g]) @ open_groups cs"

lemma chain_line_snoc:
  "chain_line gs cs (as @ [a]) = chain_line gs cs as @ shown_attrs (gs @ open_groups cs) [a]"
  by (induction gs cs as rule: chain_line.induct) simp_all

text \<open>C39: No log message from \<open>Info\<close> on is lost.  However a logger was derived, a record below that level is not
  written; every other record with a message is one line with the time, the level, the attributes of the
  chain and of the record in order, each under its groups, and the message at its end under the key
  \<open>event\<close>.  A record without a message has no such end.  Of the attributes, those with the key \<open>msg\<close> and no
  text are left out, and no others.\<close>

theorem log_line_complete:
  "logged (derived cs) r =
    (if sr_Level r = LevelDebug then None
     else Some ([(''time'', sr_Time r), (''level'', Level_String (sr_Level r))] @ chain_line [] cs (sr_attrs r) @
       (if sr_Message r = [] then [] else [(Join (open_groups cs @ [''event'']) ''.'', sr_Message r)])))"
proof -
  let ?h = "derived cs"
  have head: "append_attr [] (''time'', t) = [(''time'', t)]" "append_attr [] (''level'', t) = [(''level'', t)]"
    "append_attr [] (MessageKey, []) = []" for t
    by (simp_all add: append_attr_def ReplaceAttr_def MessageKey_def)
  have event: "shown_attrs gs [(''event'', m)] = [(Join (gs @ [''event'']) ''.'', m)]" for gs m
    by (simp add: shown_attrs_def)
  have line: "th_attrs ?h @ shown_attrs (th_groups ?h) bs = chain_line [] cs bs" for bs
    using with_handler_line [of NewExtensionSlogHandler cs bs] by (simp add: derived_def NewExtensionSlogHandler_def)
  have "Handle ?h r = [(''time'', sr_Time r), (''level'', Level_String (sr_Level r))] @ chain_line [] cs (sr_attrs r) @
      (if sr_Message r = [] then [] else [(Join (open_groups cs @ [''event'']) ''.'', sr_Message r)])"
    using line [of "sr_attrs r"] line [of "sr_attrs r @ [(''event'', sr_Message r)]"]
    by (cases "sr_Message r = []")
      (simp_all add: Handle_def TextHandler_Handle_def Let_def head event append_attrs_shown chain_line_snoc del: shown_attrs_simps(2))
  moreover have "Enabled l \<longleftrightarrow> l \<noteq> LevelDebug" for l by (cases l) (simp_all add: Enabled_def)
  ultimately show ?thesis by (simp add: logged_def)
qed

end
