(* ===== verification/Mock_Seqno.thy ===== *)
theory Mock_Seqno
  imports Prelude
begin

text \<open>
  The mock of the sequence number manager that the tests of \<open>main/cmds.go\<close> use
  (\<open>internal/seqno/mock_seqno.go\<close>, generated by MockGen), over the part of the vendored \<open>gomock\<close> it
  rests on: expectations that are recorded, matched in their order, used up, and checked at the end.
  A controller has one mock; the order between expectations (\<open>After\<close>, \<open>InOrder\<close>), actions other than
  \<open>Return\<close> and the texts of failures are left out.
\<close>

section \<open>Expected calls\<close>

text \<open>The values that pass through the mock's methods, and the types of their results.\<close>

datatype val = VNil | VUint uint | VStr string | VErr go_error | VLogger

datatype out = OutUint | OutError

fun zero_of :: "out \<Rightarrow> val" where
  "zero_of OutUint = VUint 0"
| "zero_of OutError = VNil"

text \<open>An argument of an expectation is a matcher, or a value that is to be equal.\<close>

datatype matcher = AnyMatcher | NilMatcher | EqMatcher val

fun Matches :: "matcher \<Rightarrow> val \<Rightarrow> bool" where
  "Matches AnyMatcher x = True"
| "Matches NilMatcher x = (x = VNil)"
| "Matches (EqMatcher y) x = (y = x)"

record mock_call =
  ca_methodType :: "out list"
  ca_args :: "matcher list"
  ca_minCalls :: int
  ca_maxCalls :: int
  ca_numCalls :: int
  ca_rets :: "val list"  \<comment> \<open>what the last of the call's actions returns\<close>

definition newCall :: "out list \<Rightarrow> matcher list \<Rightarrow> mock_call" where
  "newCall methodType args = \<lparr>ca_methodType = methodType, ca_args = args, ca_minCalls = 1, ca_maxCalls = 1, ca_numCalls = 0,
     ca_rets = map zero_of methodType\<rparr>"

definition satisfied :: "mock_call \<Rightarrow> bool" where
  "satisfied c \<longleftrightarrow> ca_numCalls c \<ge> ca_minCalls c"

definition exhausted :: "mock_call \<Rightarrow> bool" where
  "exhausted c \<longleftrightarrow> ca_numCalls c \<ge> ca_maxCalls c"

definition call_matches :: "mock_call \<Rightarrow> val list \<Rightarrow> bool" where
  "call_matches c args \<longleftrightarrow> list_all2 Matches (ca_args c) args \<and> \<not> exhausted c"

section \<open>The controller\<close>

text \<open>The call set: the expected and the exhausted calls of each method.\<close>

record controller =
  ct_expected :: "string \<Rightarrow> mock_call list"
  ct_exhausted :: "string \<Rightarrow> mock_call list"

definition NewController :: controller where
  "NewController = \<lparr>ct_expected = (\<lambda>_. []), ct_exhausted = (\<lambda>_. [])\<rparr>"

text \<open>What ends a test: \<open>Fatalf\<close> of its reporter, or a panic of the run time.\<close>

datatype abort = Fatal | IndexPanic

definition RecordCallWithMethodType :: "string \<Rightarrow> out list \<Rightarrow> matcher list \<Rightarrow> controller \<Rightarrow> controller" where
  "RecordCallWithMethodType m methodType args c =
     c\<lparr>ct_expected := (ct_expected c)(m := ct_expected c m @ [newCall methodType args])\<rparr>"

fun assignable :: "val \<Rightarrow> out \<Rightarrow> bool" where
  "assignable (VUint n) t = (t = OutUint)"
| "assignable (VErr e) t = (t = OutError)"
| "assignable VNil t = (t = OutError)"
| "assignable v t = False"

definition call_Return :: "val list \<Rightarrow> mock_call \<Rightarrow> abort + mock_call" where
  "call_Return rets c = (if list_all2 assignable rets (ca_methodType c) then Inr (c\<lparr>ca_rets := rets\<rparr>) else Inl Fatal)"

text \<open>The first expected call that matches is used; when it is used up, it moves to the exhausted ones.\<close>

definition controller_Call :: "string \<Rightarrow> val list \<Rightarrow> controller \<Rightarrow> (abort + val list) \<times> controller" where
  "controller_Call m args c =
     (case List.extract (\<lambda>k. call_matches k args) (ct_expected c m) of
        None \<Rightarrow> (Inl Fatal, c)
      | Some (ps, k, qs) \<Rightarrow>
          (let k' = k\<lparr>ca_numCalls := ca_numCalls k + 1\<rparr> in
           (Inr (ca_rets k'),
            if exhausted k' then
              c\<lparr>ct_expected := (ct_expected c)(m := ps @ qs), ct_exhausted := (ct_exhausted c)(m := ct_exhausted c m @ [k'])\<rparr>
            else c\<lparr>ct_expected := (ct_expected c)(m := ps @ k' # qs)\<rparr>)))"

section \<open>The mock\<close>

text \<open>A failed type assertion leaves the zero value; an index past the results panics.\<close>

definition as_uint :: "val \<Rightarrow> uint" where "as_uint v = (case v of VUint n \<Rightarrow> n | _ \<Rightarrow> 0)"
definition as_error :: "val \<Rightarrow> go_error option" where "as_error v = (case v of VErr e \<Rightarrow> Some e | _ \<Rightarrow> None)"

fun uint_and_error :: "val list \<Rightarrow> abort + (uint \<times> go_error option)" where
  "uint_and_error (x # y # _) = Inr (as_uint x, as_error y)"
| "uint_and_error _ = Inl IndexPanic"

fun only_error :: "val list \<Rightarrow> abort + go_error option" where
  "only_error (x # _) = Inr (as_error x)"
| "only_error [] = Inl IndexPanic"

definition results :: "(val list \<Rightarrow> abort + 'a) \<Rightarrow> (abort + val list) \<times> controller \<Rightarrow> (abort + 'a) \<times> controller" where
  "results f rc = (case rc of (Inl a, c) \<Rightarrow> (Inl a, c) | (Inr ret, c) \<Rightarrow> (f ret, c))"

definition Mock_FindSeqNum :: "string \<Rightarrow> controller \<Rightarrow> (abort + (uint \<times> go_error option)) \<times> controller" where
  "Mock_FindSeqNum configFolder c = results uint_and_error (controller_Call ''FindSeqNum'' [VStr configFolder] c)"

definition Mock_GetCurrentSequenceNumber ::
  "val \<Rightarrow> string \<Rightarrow> string \<Rightarrow> controller \<Rightarrow> (abort + (uint \<times> go_error option)) \<times> controller" where
  "Mock_GetCurrentSequenceNumber el name version c =
     results uint_and_error (controller_Call ''GetCurrentSequenceNumber'' [el, VStr name, VStr version] c)"

definition Mock_GetSequenceNumber ::
  "string \<Rightarrow> string \<Rightarrow> controller \<Rightarrow> (abort + (uint \<times> go_error option)) \<times> controller" where
  "Mock_GetSequenceNumber name version c =
     results uint_and_error (controller_Call ''GetSequenceNumber'' [VStr name, VStr version] c)"

definition Mock_SetSequenceNumber ::
  "string \<Rightarrow> string \<Rightarrow> uint \<Rightarrow> controller \<Rightarrow> (abort + go_error option) \<times> controller" where
  "Mock_SetSequenceNumber name version seqNo c =
     results only_error (controller_Call ''SetSequenceNumber'' [VStr name, VStr version, VUint seqNo] c)"

text \<open>The recorder's methods.\<close>

definition Recorder_FindSeqNum :: "matcher \<Rightarrow> controller \<Rightarrow> controller" where
  "Recorder_FindSeqNum configFolder =
     RecordCallWithMethodType ''FindSeqNum'' [OutUint, OutError] [configFolder]"

definition Recorder_GetCurrentSequenceNumber :: "matcher \<Rightarrow> matcher \<Rightarrow> matcher \<Rightarrow> controller \<Rightarrow> controller" where
  "Recorder_GetCurrentSequenceNumber el name version =
     RecordCallWithMethodType ''GetCurrentSequenceNumber'' [OutUint, OutError] [el, name, version]"

definition Recorder_GetSequenceNumber :: "matcher \<Rightarrow> matcher \<Rightarrow> controller \<Rightarrow> controller" where
  "Recorder_GetSequenceNumber name version =
     RecordCallWithMethodType ''GetSequenceNumber'' [OutUint, OutError] [name, version]"

definition Recorder_SetSequenceNumber :: "matcher \<Rightarrow> matcher \<Rightarrow> matcher \<Rightarrow> controller \<Rightarrow> controller" where
  "Recorder_SetSequenceNumber name version seqNo =
     RecordCallWithMethodType ''SetSequenceNumber'' [OutError] [name, version, seqNo]"

text \<open>\<open>Return\<close> on the call the recorder has just given out, which is the last of its method.\<close>

definition Return_last :: "string \<Rightarrow> val list \<Rightarrow> controller \<Rightarrow> abort + controller" where
  "Return_last m rets c =
     (case rev (ct_expected c m) of
        [] \<Rightarrow> Inl IndexPanic
      | k # ks \<Rightarrow>
          (case call_Return rets k of
             Inl a \<Rightarrow> Inl a
           | Inr k' \<Rightarrow> Inr (c\<lparr>ct_expected := (ct_expected c)(m := rev ks @ [k'])\<rparr>)))"

text \<open>The check at the end of a test: no expectation is left open.\<close>

definition mock_methods :: "string list" where
  "mock_methods = [''FindSeqNum'', ''GetCurrentSequenceNumber'', ''GetSequenceNumber'', ''SetSequenceNumber'']"

definition Satisfied :: "controller \<Rightarrow> bool" where
  "Satisfied c \<longleftrightarrow> list_all (\<lambda>m. list_all satisfied (ct_expected c m)) mock_methods"

section \<open>A scripted mock\<close>

text \<open>What the tests write: \<open>EXPECT().GetCurrentSequenceNumber(Any(), Any(), Any()).Return(n, err)\<close>.\<close>

definition error_val :: "go_error option \<Rightarrow> val" where
  "error_val e = (case e of None \<Rightarrow> VNil | Some x \<Rightarrow> VErr x)"

definition expect_get :: "uint \<times> go_error option \<Rightarrow> controller \<Rightarrow> controller" where
  "expect_get r c =
     (case Return_last ''GetCurrentSequenceNumber'' [VUint (fst r), error_val (snd r)]
         (Recorder_GetCurrentSequenceNumber AnyMatcher AnyMatcher AnyMatcher c) of
        Inr c' \<Rightarrow> c' | Inl a \<Rightarrow> c)"

fun get_calls :: "nat \<Rightarrow> controller \<Rightarrow> (abort + (uint \<times> go_error option)) list \<times> controller" where
  "get_calls 0 c = ([], c)"
| "get_calls (Suc k) c =
     (case Mock_GetCurrentSequenceNumber VLogger ''name'' [] c of
        (r, c1) \<Rightarrow> (case get_calls k c1 of (rs, c2) \<Rightarrow> (r # rs, c2)))"

definition once_get :: "uint \<times> go_error option \<Rightarrow> mock_call" where
  "once_get r = (newCall [OutUint, OutError] [AnyMatcher, AnyMatcher, AnyMatcher])\<lparr>ca_rets := [VUint (fst r), error_val (snd r)]\<rparr>"

lemma error_val_simps [simp]: "as_error (error_val e) = e" "assignable (error_val e) OutError" "as_uint (VUint n) = n"
  by (cases e; simp add: as_error_def as_uint_def error_val_def)+

lemma expect_get_expected:
  "expect_get r c =
     c\<lparr>ct_expected := (ct_expected c)(''GetCurrentSequenceNumber'' := ct_expected c ''GetCurrentSequenceNumber'' @ [once_get r])\<rparr>"
  by (simp add: expect_get_def Return_last_def Recorder_GetCurrentSequenceNumber_def RecordCallWithMethodType_def
      call_Return_def once_get_def newCall_def)

lemma script_expected:
  "ct_expected (fold expect_get rs c) m =
     (if m = ''GetCurrentSequenceNumber'' then ct_expected c m @ map once_get rs else ct_expected c m)"
  by (induction rs arbitrary: c) (simp_all add: expect_get_expected)

lemma once_get_used:
  "call_matches (once_get r) [el, x, y]"
  "exhausted (once_get r\<lparr>ca_numCalls := ca_numCalls (once_get r) + 1\<rparr>)"
  "ca_rets (once_get r) = [VUint (fst r), error_val (snd r)]"
  by (simp_all add: call_matches_def exhausted_def once_get_def newCall_def)

lemma scripted_call:
  assumes "ct_expected c ''GetCurrentSequenceNumber'' = once_get r # ks"
  shows "\<exists>c'. Mock_GetCurrentSequenceNumber el name version c = (Inr r, c') \<and>
    ct_expected c' = (ct_expected c)(''GetCurrentSequenceNumber'' := ks)"
  using assms once_get_used
  by (simp add: Mock_GetCurrentSequenceNumber_def controller_Call_def extract_Cons_code results_def Let_def)

lemma scripted_calls:
  assumes "ct_expected c ''GetCurrentSequenceNumber'' = map once_get rs"
  shows "\<exists>c'. get_calls (length rs) c = (map Inr rs, c') \<and> ct_expected c' = (ct_expected c)(''GetCurrentSequenceNumber'' := [])"
  using assms
proof (induction rs arbitrary: c)
  case (Cons r rs)
  then obtain c1 where c1: "Mock_GetCurrentSequenceNumber VLogger ''name'' [] c = (Inr r, c1)"
    "ct_expected c1 = (ct_expected c)(''GetCurrentSequenceNumber'' := map once_get rs)"
    using scripted_call [of c r "map once_get rs" VLogger "''name''" "[]"] by auto
  then show ?case using Cons.IH [of c1] by (auto simp: fun_eq_iff)
qed auto


text \<open>A test that leaves a call of its script out does not.\<close>

lemma mock_missing_call: "\<not> Satisfied (fold expect_get (rs @ [r]) NewController)"
proof -
  have "\<not> satisfied (once_get r)" by (simp add: satisfied_def once_get_def newCall_def)
  then show ?thesis
    unfolding Satisfied_def mock_methods_def list_all_iff script_expected by simp
qed

end
