(* ===== verification/Spec2Isabelle.thy ===== *)
theory Spec2Isabelle
  imports Handover Enable_VMWatch Webserver Logging Mock_Seqno
begin

text \<open>
  Verification of the Linux application health extension, the Go program under \<open>src/\<close>.

  \<^bold>\<open>The program.\<close>  The Azure guest agent runs the handler with a command: \<open>install\<close>, \<open>uninstall\<close>,
  \<open>enable\<close>, \<open>update\<close> or \<open>disable\<close>.  \<open>enable\<close> is the one that stays.  Before it starts, it compares its
  sequence number with the one recorded in the file \<open>mrseq\<close> and looks for other processes of the
  extension; it leaves the field to a responsive one with the same number, is refused if a newer number is
  recorded, and otherwise records its own and terminates the others.  Then it reads and validates its
  settings, starts VMWatch in a goroutine if that is configured, and polls: in every interval it asks the
  application for its health over TCP, HTTP or HTTPS, commits a state when enough equal observations support
  it (or the grace period ends), and writes the status file the agent reads.  It leaves when a newer number
  is recorded or on a signal.

  \<^bold>\<open>The theories\<close>, in the order of their imports, with the code each one models.

  \<^item> \<open>Prelude\<close>: errors as a datatype (\<open>go_error\<close>, with the wrappers of \<open>fmt\<close> and \<open>pkg/errors\<close>, \<open>errors.Is\<close>,
    and run time panics), results as sums, 64-bit arithmetic with its wrap-around, decimal text, string
    functions, time and durations.
  \<^item> \<open>Filesystem\<close>: \<open>filepath.Join\<close>, \<open>Dir\<close>, \<open>Base\<close>, \<open>Clean\<close>; files as a record with the faults the operating
    system may answer with; temporary files, writes that stop half way, renames.
  \<^item> \<open>Telemetry\<close> (\<open>internal/telemetry\<close> over the vendored \<open>azure-extension-platform\<close>): the singleton, events and
    their dispatch to the log, which drops what is below its level, and to the agent, as one file for each
    event, named by its time, whose write may fail or meet an older file of the same name.
  \<^item> \<open>Seqno\<close> (\<open>internal/seqno\<close> over the vendored \<open>azure-extension-platform\<close>): the file \<open>mrseq\<close>, which a write
    truncates first, the number requested; interface \<open>seqno_manager\<close>.
  \<^item> \<open>Json\<close>, \<open>Json_Roundtrip\<close>: \<open>encoding/json\<close> as a parser and a printer on bytes, and that what is printed
    parses to the same value.
  \<^item> \<open>Status\<close> (\<open>main/status.go\<close>, \<open>main/reportstatus.go\<close>): reports, their text, and \<open>Save\<close> with every state of
    the folder it passes through; interface \<open>status_store\<close>.
  \<^item> \<open>Schema\<close> (\<open>main/schema.go\<close> over the vendored \<open>gojsonschema\<close>) and \<open>Settings\<close> (\<open>main/handlersettings.go\<close> over
    the vendored \<open>vmextension\<close>): validation and decoding of the settings file.
  \<^item> \<open>Health\<close> (\<open>main/health.go\<close>, \<open>main/probeResponse.go\<close>): the probes and the heart beat; interface
    \<open>health_probe\<close>.
  \<^item> \<open>Process\<close> (\<open>main/process.go\<close>): finding and terminating other instances over a record of operating system
    calls, with a process table as the instance the examples run on.
  \<^item> \<open>Commands\<close> (\<open>main/cmds.go\<close>): the command table, install, uninstall, the precondition of \<open>enable\<close> and the
    abstract decision it refines.
  \<^item> \<open>Redact\<close> (\<open>pkg/redact\<close>), \<open>Handler_Env\<close> (\<open>main/version.go\<close>, \<open>internal/manifest\<close>, \<open>internal/handlerenv\<close>),
    \<open>Durations\<close> (\<open>time.Duration\<close> as text), \<open>Logging\<close> (\<open>pkg/logging\<close>).
  \<^item> \<open>VMWatch_Setup\<close> and \<open>VMWatch\<close> (\<open>main/vmWatch.go\<close>): the command VMWatch is started with and its resource
    limits; its supervision, the heart beat watch and the retry cycles; interface \<open>watch_helper\<close>.
  \<^item> \<open>Enable\<close> and \<open>Enable_Report\<close> (\<open>main/cmds.go\<close>, function \<open>enable\<close>): the polling loop, its invariant, and what
    it leaves outside.
  \<^item> \<open>Enable_VMWatch\<close>: the loop and the goroutine of VMWatch put together over their channel, which has no buffer.
  \<^item> \<open>Main_Program\<close> (\<open>main/main.go\<close>): from the command line to the exit code.
  \<^item> \<open>Coexistence\<close>: any number of processes on one machine, as a step relation on shared files; contracts
    \<open>invariant_system\<close>, \<open>ratchet\<close> and \<open>custody\<close>.  A start reads the recorded number, decides, truncates the file
    \<open>mrseq\<close>, writes it, deals with the processes it has found and goes on to poll, each in a step of its own; an
    iteration checks the recorded number in one step and does the rest in another; the steps of all processes
    interleave, and starts may overlap, because the shim runs \<open>enable\<close> in the background.  A process that is
    sent SIGKILL is taken off the machine; one that is sent SIGTERM ends in its own time.
    \<open>Handover\<close>: what the processes guarantee each other, and an example with two of them.
  \<^item> \<open>Webserver\<close> (\<open>integration-test/webserver\<close>): the server the integration tests run the probe against.
  \<^item> \<open>Mock_Seqno\<close> (\<open>internal/seqno/mock_seqno.go\<close> over the vendored \<open>gomock\<close>): the mock of the sequence number
    manager, and that it plays the script of a test.
  \<^item> this theory: where the sequence number and the settings of a run come from.

  \<^bold>\<open>How the state corresponds to the code.\<close>  The local variables of \<open>enable\<close> are the record \<open>loop_state\<close>, what its
  loop does not change is \<open>loop_cfg\<close>.  A process's effects are the record \<open>run\<close>: the world behind the system
  calls, the files, the events sent and the actions (signals, sleeps).  The globals of the telemetry package
  and of \<open>health.go\<close> are fields of the states that use them.  What the code takes from outside is an argument:
  clock readings, random suffixes of temporary files, answers of the network, the shutdown flag, the messages
  on VMWatch's channel and what other processes did to the files.  They come in records, one for each call
  (\<open>report_env\<close>, \<open>probe_env\<close>, \<open>cmd_env\<close>) or iteration (\<open>iter_env\<close>), so that every theorem holds for all of
  them.  The order in which Go ranges over a map is an argument as well.

  \<^bold>\<open>What is shown.\<close>  Of several processes, those with an older number leave, and the status files of older
  numbers do not change any more, once the newer number is recorded and no start is under way that read the
  recorded number before and has an older one: such a start is the only way in which the recorded number can
  fall, since no lock is held between the read and the write (\<open>Handover\<close>).  A newer configuration does get to
  poll.  The precondition implements its abstract decision (\<open>Commands\<close>); the committed health state changes
  only on evidence and follows a steady state within a bound (\<open>Enable\<close>); the status file always holds a complete
  report and shows what is committed (\<open>Status\<close>, \<open>Enable_Report\<close>); settings that are accepted lie in the documented
  ranges (\<open>Settings\<close>); probes go to the local host and report Healthy on the documented answer only (\<open>Health\<close>);
  the course of terminating another process is exact to the signal and the sleep, and the process never
  signals itself (\<open>Process\<close>, \<open>Commands\<close>); VMWatch is launched with its limits or governed by them afterwards,
  or a kill is requested; its retry schedule ends, and the status shows its attempts in their order
  (\<open>VMWatch_Setup\<close>, \<open>VMWatch\<close>, \<open>Enable_VMWatch\<close>); the query of a URL and the values of
  sensitive names have no influence on the scrubbed text (\<open>Redact\<close>); what is written is read back (\<open>Status\<close>, \<open>Seqno\<close>, \<open>Handler_Env\<close>); exit codes and the
  error paths of the main function, among them what a start that is interrupted between the truncation of
  \<open>mrseq\<close> and the write leaves behind (\<open>Main_Program\<close>).

  \<^bold>\<open>Loops and bounds.\<close>  Loops over data are recursions on it.  The polling loop of \<open>enable\<close> has no end of its own: it
  is a recursion over the list of what its iterations meet, and a theorem on it holds for lists of any length.
  The waits for a process to end are bounded in the code and recurse on that bound.  The JSON parser carries
  the nesting depth of 10000 that \<open>encoding/json\<close> allows.  The retry cycles recurse on the number of cycles
  and attempts.  There is no other fuel.

  \<^bold>\<open>Parameters.\<close>  The decryption of protected settings, the XML decoder, the control group manager, the text of a float,
  \<open>strconv.Quote\<close>, and the calls of the operating system.  In \<open>Coexistence\<close>, the
  operating system allows the file \<open>mrseq\<close> to be read and written, sequence numbers are below \<open>2 ^ 63\<close>, and what
  the operating system answers is not tied to the processes modelled, so that the relation has every run of
  the program and possibly more.  In \<open>Enable_VMWatch\<close>, what the iterations read of the channel follows its sends (\<open>delivers\<close>).

  \<^bold>\<open>Not modelled.\<close>  Log lines that are not events (their handler is, in \<open>Logging\<close>), the texts of JSON syntax errors and
  of panics, quoting of log values, whitespace beyond ASCII in \<open>strings.Fields\<close>, the goroutine scheduler beyond the
  shutdown flag and the channel, the sockets of the test server, the expectations of \<open>gomock\<close> that the tests do
  not use, the shim script and the packaging files.  In \<open>Coexistence\<close> the saving of a status report is one
  step; the states it passes through are in \<open>Status\<close>.
\<close>

section \<open>Two sources of the sequence number\<close>

lemma Itoa_number:
  assumes "0 \<le> m" "m \<noteq> uint n"
  shows "Itoa m \<noteq> Utoa n"
proof
  assume "Itoa m = Utoa n"
  then have "nat m = unat n" using assms(1) by (simp add: Itoa_def Utoa_def)
  then have "m = int (unat n)" using assms(1) by linarith
  then show False using assms(2) by (simp only: uint_nat)
qed

text \<open>C32: The configuration that runs need not be the one of the sequence number it runs under.  The number
  comes from the environment variable or the most recent settings file, the settings from the file with
  the highest number: if the configuration folder holds a file with a higher number than the one found,
  that other file, or a higher one still, is read.\<close>

theorem settings_of_other_number:
  assumes "FindSeqNum s (Inr g) l = Inr n" "settingsPath c (Inr g) = Inr p"
    "v \<in> set g" "Atoi (remove_first ''.settings'' (path_Base v)) = Inr i" "uint n < i"
  shows "p \<noteq> path_Join [c, Utoa n @ ''.settings'']"
proof -
  obtain m where m: "p = path_Join [c, Itoa m @ ''.settings'']" "i \<le> m"
    using settingsPath_max [OF assms(2)] assms(3,4) by fastforce
  have "uint n \<ge> 0" by simp
  then have "Itoa m \<noteq> Utoa n" using m(2) assms(5) by (intro Itoa_number) linarith+
  then show ?thesis using m(1) path_Join_inject [OF plain_settings_name(1) plain_settings_name(2), of c m n] by simp
qed

theorem settings_of_other_number_witness:
  "FindSeqNum ''3'' (Inr [''/c/3.settings'', ''/c/9.settings'']) (Inr []) = Inr 3 \<and>
   settingsPath ''/c'' (Inr [''/c/3.settings'', ''/c/9.settings'']) = Inr ''/c/9.settings'' \<and>
   ''/c/9.settings'' \<noteq> path_Join [''/c'', Utoa 3 @ ''.settings'']"
proof -
  let ?g = "[''/c/3.settings'', ''/c/9.settings'']"
  have f: "FindSeqNum ''3'' (Inr ?g) (Inr []) = Inr 3" by code_simp
  have p: "settingsPath ''/c'' (Inr ?g) = Inr ''/c/9.settings''" by code_simp
  have a: "Atoi (remove_first ''.settings'' (path_Base ''/c/9.settings'')) = Inr 9" by code_simp
  show ?thesis using settings_of_other_number [OF f p _ a] f p by simp
qed

end
